(* ===== verification/X10_Prelude.thy ===== *)
theory X10_Prelude
  imports Main "HOL-Library.Sublist"
begin

text \<open>
  Shared vocabulary of the development: the fact collections the component
  theories add to, and the Python string operations that \<^verbatim>\<open>src/x10mqtt.py\<close>
  calls (\<^verbatim>\<open>str.upper\<close>, \<^verbatim>\<open>str.lower\<close>, \<^verbatim>\<open>str.split\<close>, \<^verbatim>\<open>str\<close> of an integer),
  with the lemmas about them that the components share.

  A Python \<^verbatim>\<open>str\<close> is modelled as a \<^typ>\<open>string\<close>, a list of 8-bit characters read
  as code points. The case conversions below change the ASCII letters only, so
  the model agrees with Python on ASCII text; text with other letters is outside
  what the development states.
\<close>

section \<open>Fact collections\<close>

named_theorems pystr \<open>unfoldings of the character-level string operations\<close>
named_theorems gw_defs \<open>unfoldings of the gateway's handlers\<close>

section \<open>Characters\<close>

definition newline :: char where
  "newline = CHR 0x0A"

definition in_range :: "char \<Rightarrow> char \<Rightarrow> char \<Rightarrow> bool" where
  "in_range lo hi c \<longleftrightarrow> (of_char lo :: nat) \<le> of_char c \<and> (of_char c :: nat) \<le> of_char hi"

definition is_lower_c :: "char \<Rightarrow> bool" where
  "is_lower_c c \<longleftrightarrow> in_range CHR ''a'' CHR ''z'' c"

definition is_upper_c :: "char \<Rightarrow> bool" where
  "is_upper_c c \<longleftrightarrow> in_range CHR ''A'' CHR ''Z'' c"

definition is_digit_c :: "char \<Rightarrow> bool" where
  "is_digit_c c \<longleftrightarrow> in_range CHR ''0'' CHR ''9'' c"

definition upper_char :: "char \<Rightarrow> char" where
  "upper_char c = (if is_lower_c c then char_of ((of_char c :: nat) - 32) else c)"

definition lower_char :: "char \<Rightarrow> char" where
  "lower_char c = (if is_upper_c c then char_of ((of_char c :: nat) + 32) else c)"

section \<open>Strings\<close>

definition py_upper :: "string \<Rightarrow> string" where
  "py_upper s = map upper_char s"

definition py_lower :: "string \<Rightarrow> string" where
  "py_lower s = map lower_char s"

text \<open>
  \<^verbatim>\<open>s.split(sep)\<close> for a one-character separator: the pieces between the
  separators, empty pieces kept, so the result is never empty.
\<close>

fun py_split :: "char \<Rightarrow> string \<Rightarrow> string list" where
  "py_split sep [] = [[]]"
| "py_split sep (c # cs) =
     (if c = sep then [] # py_split sep cs
      else (case py_split sep cs of
              seg # segs \<Rightarrow> (c # seg) # segs
            | [] \<Rightarrow> [[c]]))"

fun py_join :: "char \<Rightarrow> string list \<Rightarrow> string" where
  "py_join sep [] = []"
| "py_join sep [s] = s"
| "py_join sep (s # t # ss) = s @ sep # py_join sep (t # ss)"

text \<open>\<^verbatim>\<open>str(n)\<close> for an integer: decimal digits, a minus sign for negatives.\<close>

definition digit_char :: "nat \<Rightarrow> char" where
  "digit_char d = char_of (48 + d)"

fun str_nat :: "nat \<Rightarrow> string" where
  "str_nat n = (if n < 10 then [digit_char n] else str_nat (n div 10) @ [digit_char (n mod 10)])"

definition str_int :: "int \<Rightarrow> string" where
  "str_int i = (if i < 0 then CHR ''-'' # str_nat (nat (- i)) else str_nat (nat i))"

declare str_nat.simps [simp del]

section \<open>Evaluation of characters\<close>

lemma char_of_eval:
  "char_of (n::nat) = Char (odd n) (odd (n div 2)) (odd (n div 4)) (odd (n div 8))
     (odd (n div 16)) (odd (n div 32)) (odd (n div 64)) (odd (n div 128))"
  by (simp add: char_of_def bit_iff_odd drop_bit_eq_div)

lemmas char_defs [pystr] =
  in_range_def is_lower_c_def is_upper_c_def is_digit_c_def
  upper_char_def lower_char_def digit_char_def newline_def

lemmas char_eval = char_defs char_of_eval

lemma of_char_less_256 [simp]: "(of_char c :: nat) < 256"
  by (cases c) simp

section \<open>Case conversion\<close>

lemma upper_char_idem [simp]: "upper_char (upper_char c) = upper_char c"
  by (auto simp: char_defs)

lemma lower_char_idem [simp]: "lower_char (lower_char c) = lower_char c"
  by (auto simp: char_defs)

lemma lower_upper_char [simp]: "lower_char (upper_char c) = lower_char c"
  by (auto simp: char_defs)

lemma upper_lower_char [simp]: "upper_char (lower_char c) = upper_char c"
  by (auto simp: char_defs)

lemma upper_char_not_lower [simp]: "\<not> is_lower_c (upper_char c)"
  by (auto simp: char_defs)

lemma lower_char_not_upper [simp]: "\<not> is_upper_c (lower_char c)"
  by (auto simp: char_defs)

lemma case_char_range:
  "is_lower_c c \<Longrightarrow> is_upper_c (upper_char c)" "is_upper_c c \<Longrightarrow> is_lower_c (lower_char c)"
  by (auto simp: char_defs)

lemma upper_char_fixes: "\<not> is_lower_c c \<Longrightarrow> upper_char c = c"
  by (simp add: upper_char_def)

lemma lower_char_fixes: "\<not> is_upper_c c \<Longrightarrow> lower_char c = c"
  by (simp add: lower_char_def)

lemma digit_not_letter: "is_digit_c c \<Longrightarrow> \<not> is_lower_c c \<and> \<not> is_upper_c c"
  by (auto simp: char_defs)

lemma py_upper_simps [simp]:
  "py_upper [] = []"
  "py_upper (c # cs) = upper_char c # py_upper cs"
  "py_upper (s @ t) = py_upper s @ py_upper t"
  "length (py_upper s) = length s"
  by (simp_all add: py_upper_def)

lemma py_lower_simps [simp]:
  "py_lower [] = []"
  "py_lower (c # cs) = lower_char c # py_lower cs"
  "py_lower (s @ t) = py_lower s @ py_lower t"
  "length (py_lower s) = length s"
  by (simp_all add: py_lower_def)

lemma py_upper_idem [simp]: "py_upper (py_upper s) = py_upper s"
  by (induction s) simp_all

lemma py_lower_idem [simp]: "py_lower (py_lower s) = py_lower s"
  by (induction s) simp_all

lemma py_lower_upper [simp]: "py_lower (py_upper s) = py_lower s"
  by (induction s) simp_all

lemma py_upper_lower [simp]: "py_upper (py_lower s) = py_upper s"
  by (induction s) simp_all

lemma py_upper_eq_Nil [simp]: "py_upper s = [] \<longleftrightarrow> s = []"
  by (cases s) simp_all

lemma py_lower_eq_Nil [simp]: "py_lower s = [] \<longleftrightarrow> s = []"
  by (cases s) simp_all

section \<open>Splitting and joining\<close>

lemma py_split_not_Nil [simp]: "py_split sep s \<noteq> []"
  by (induction s) (auto split: list.splits)

lemma py_split_Cons:
  "py_split sep (c # cs) =
     (if c = sep then [] # py_split sep cs
      else (c # hd (py_split sep cs)) # tl (py_split sep cs))"
  by (cases "py_split sep cs") simp_all

lemma py_join_Cons:
  "ss \<noteq> [] \<Longrightarrow> py_join sep (s # ss) = s @ sep # py_join sep ss"
  by (cases ss) simp_all

lemma py_join_Cons_Cons:
  "py_join sep ((c # s) # ss) = c # py_join sep (s # ss)"
  by (cases ss) simp_all

lemma py_join_split [simp]: "py_join sep (py_split sep s) = s"
proof (induction s)
  case Nil
  show ?case by simp
next
  case (Cons c cs)
  obtain seg segs where split: "py_split sep cs = seg # segs"
    by (cases "py_split sep cs") simp_all
  with Cons show ?case
    by (simp add: py_join_Cons py_join_Cons_Cons)
qed

lemma py_split_sep_free: "seg \<in> set (py_split sep s) \<Longrightarrow> sep \<notin> set seg"
  by (induction s arbitrary: seg) (auto split: if_splits list.splits)

lemma py_split_no_sep: "sep \<notin> set s \<Longrightarrow> py_split sep s = [s]"
  by (induction s) auto

lemma py_split_append_sep:
  "py_split sep (s @ sep # t) = py_split sep s @ py_split sep t"
  by (induction s) (auto simp: py_split_Cons simp del: py_split.simps(2))

lemma takeWhile_rev_tail:
  "sep \<notin> set t \<Longrightarrow> rev (takeWhile (\<lambda>c. c \<noteq> sep) (rev t @ sep # r)) = t"
  by (subst takeWhile_append2) auto

lemma last_py_split:
  "last (py_split sep s) = rev (takeWhile (\<lambda>c. c \<noteq> sep) (rev s))"
proof (cases "sep \<in> set s")
  case False
  then have "rev (takeWhile (\<lambda>c. c \<noteq> sep) (rev s)) = s"
    using takeWhile_rev_tail [of sep s "[]"] by (simp add: takeWhile_tail)
  with False show ?thesis by (simp add: py_split_no_sep)
next
  case True
  then obtain s' t where s: "s = s' @ sep # t" and t: "sep \<notin> set t"
    by (auto dest: split_list_last)
  from t show ?thesis
    unfolding s by (simp add: py_split_append_sep py_split_no_sep takeWhile_rev_tail)
qed

lemma last_py_split_sep_free: "sep \<notin> set (last (py_split sep s))"
  by (rule py_split_sep_free [of _ sep s]) simp

lemma last_py_split_append_sep:
  "sep \<notin> set t \<Longrightarrow> last (py_split sep (s @ sep # t)) = t"
  by (simp add: py_split_append_sep py_split_no_sep)

end
