(* ===== verification/Py_Regex.thy ===== *)
theory Py_Regex
  imports X10_Prelude
begin

text \<open>
  The fragment of Python's \<^verbatim>\<open>re\<close> module that the three patterns of
  \<^verbatim>\<open>src/x10mqtt.py\<close> use (lines 214, 274 and 275): literals, character ranges,
  the dot, greedy \<^verbatim>\<open>*\<close> and \<^verbatim>\<open>+\<close> on a one-character item, sequence, alternation,
  one capturing group, non-capturing groups and the anchors \<^verbatim>\<open>^\<close> and \<^verbatim>\<open>$\<close>.

  \<^item> \<open>rx\<close> is the syntax; \<open>rx_text\<close> prints a pattern back as the text Python compiles.
  \<^item> \<open>run\<close> is the backtracking matcher: from a match state it returns every way
    the pattern can match, in the order in which a backtracking engine tries
    them, so the head of the list is the match Python reports.
  \<^item> \<open>matches\<close> is the declarative reading of a pattern as a relation between match
    states; \<open>run_iff_matches\<close> shows that \<open>run\<close> finds exactly these.
  \<^item> \<open>re_match\<close> and \<open>re_search\<close> are \<^verbatim>\<open>Pattern.match\<close> and \<^verbatim>\<open>Pattern.search\<close>;
    \<open>group1\<close> is \<^verbatim>\<open>str(m.group(1))\<close>.
\<close>

section \<open>Syntax\<close>

datatype atom = Range char char | Dot

datatype rx =
    Lit string
  | Cls atom
  | Star atom
  | Plus atom
  | Seq rx rx
  | Alt rx rx
  | Group rx
  | NGroup rx
  | Bol
  | Eol

primrec atom_text :: "atom \<Rightarrow> string" where
  "atom_text (Range lo hi) = ''['' @ [lo] @ ''-'' @ [hi] @ '']''"
| "atom_text Dot = ''.''"

primrec rx_text :: "rx \<Rightarrow> string" where
  "rx_text (Lit w) = w"
| "rx_text (Cls a) = atom_text a"
| "rx_text (Star a) = atom_text a @ ''*''"
| "rx_text (Plus a) = atom_text a @ ''+''"
| "rx_text (Seq r1 r2) = rx_text r1 @ rx_text r2"
| "rx_text (Alt r1 r2) = rx_text r1 @ ''|'' @ rx_text r2"
| "rx_text (Group r) = ''('' @ rx_text r @ '')''"
| "rx_text (NGroup r) = ''(?:'' @ rx_text r @ '')''"
| "rx_text Bol = ''^''"
| "rx_text Eol = ''$''"

section \<open>Match states and the backtracking matcher\<close>

record mstate =
  pos :: nat
  rest :: string
  grp :: "string option"

definition start_state :: "nat \<Rightarrow> string \<Rightarrow> mstate" where
  "start_state i s = \<lparr>pos = i, rest = s, grp = None\<rparr>"

definition adv :: "nat \<Rightarrow> mstate \<Rightarrow> mstate" where
  "adv n st = st\<lparr>pos := pos st + n, rest := drop n (rest st)\<rparr>"

definition capture :: "mstate \<Rightarrow> mstate \<Rightarrow> mstate" where
  "capture st st' = st'\<lparr>grp := Some (take (pos st' - pos st) (rest st))\<rparr>"

primrec accepts :: "atom \<Rightarrow> char \<Rightarrow> bool" where
  "accepts (Range lo hi) c = in_range lo hi c"
| "accepts Dot c = (c \<noteq> newline)"

definition span :: "atom \<Rightarrow> string \<Rightarrow> nat" where
  "span a s = length (takeWhile (accepts a) s)"

primrec run :: "rx \<Rightarrow> mstate \<Rightarrow> mstate list" where
  "run (Lit w) st = (if prefix w (rest st) then [adv (length w) st] else [])"
| "run (Cls a) st =
     (case rest st of
        c # cs \<Rightarrow> if accepts a c then [adv (Suc 0) st] else []
      | [] \<Rightarrow> [])"
| "run (Star a) st = map (\<lambda>n. adv n st) (rev [0 ..< Suc (span a (rest st))])"
| "run (Plus a) st = map (\<lambda>n. adv n st) (rev [1 ..< Suc (span a (rest st))])"
| "run (Seq r1 r2) st = concat (map (run r2) (run r1 st))"
| "run (Alt r1 r2) st = run r1 st @ run r2 st"
| "run (Group r) st = map (capture st) (run r st)"
| "run (NGroup r) st = run r st"
| "run Bol st = (if pos st = 0 then [st] else [])"
| "run Eol st = (if rest st = [] \<or> rest st = [newline] then [st] else [])"

definition first_match :: "rx \<Rightarrow> mstate \<Rightarrow> mstate option" where
  "first_match r st = (case run r st of [] \<Rightarrow> None | m # _ \<Rightarrow> Some m)"

definition re_match :: "rx \<Rightarrow> string \<Rightarrow> mstate option" where
  "re_match r s = first_match r (start_state 0 s)"

fun search_from :: "rx \<Rightarrow> nat \<Rightarrow> string \<Rightarrow> mstate option" where
  "search_from r i [] = first_match r (start_state i [])"
| "search_from r i (c # cs) =
     (case first_match r (start_state i (c # cs)) of
        Some m \<Rightarrow> Some m
      | None \<Rightarrow> search_from r (Suc i) cs)"

definition re_search :: "rx \<Rightarrow> string \<Rightarrow> mstate option" where
  "re_search r s = search_from r 0 s"

definition group1 :: "mstate \<Rightarrow> string" where
  "group1 m = (case grp m of Some g \<Rightarrow> g | None \<Rightarrow> ''None'')"

section \<open>The declarative reading of a pattern\<close>

inductive matches :: "rx \<Rightarrow> mstate \<Rightarrow> mstate \<Rightarrow> bool" where
  m_lit: "prefix w (rest st) \<Longrightarrow> matches (Lit w) st (adv (length w) st)"
| m_cls: "rest st = c # cs \<Longrightarrow> accepts a c \<Longrightarrow> matches (Cls a) st (adv (Suc 0) st)"
| m_star: "n \<le> span a (rest st) \<Longrightarrow> matches (Star a) st (adv n st)"
| m_plus: "0 < n \<Longrightarrow> n \<le> span a (rest st) \<Longrightarrow> matches (Plus a) st (adv n st)"
| m_seq: "matches r1 st st1 \<Longrightarrow> matches r2 st1 st2 \<Longrightarrow> matches (Seq r1 r2) st st2"
| m_alt1: "matches r1 st st' \<Longrightarrow> matches (Alt r1 r2) st st'"
| m_alt2: "matches r2 st st' \<Longrightarrow> matches (Alt r1 r2) st st'"
| m_group: "matches r st st' \<Longrightarrow> matches (Group r) st (capture st st')"
| m_ngroup: "matches r st st' \<Longrightarrow> matches (NGroup r) st st'"
| m_bol: "pos st = 0 \<Longrightarrow> matches Bol st st"
| m_eol: "rest st = [] \<or> rest st = [newline] \<Longrightarrow> matches Eol st st"

inductive_cases matches_LitE [elim!]: "matches (Lit w) st st'"
inductive_cases matches_ClsE [elim!]: "matches (Cls a) st st'"
inductive_cases matches_StarE [elim!]: "matches (Star a) st st'"
inductive_cases matches_PlusE [elim!]: "matches (Plus a) st st'"
inductive_cases matches_SeqE [elim!]: "matches (Seq r1 r2) st st'"
inductive_cases matches_AltE [elim!]: "matches (Alt r1 r2) st st'"
inductive_cases matches_GroupE [elim!]: "matches (Group r) st st'"
inductive_cases matches_NGroupE [elim!]: "matches (NGroup r) st st'"
inductive_cases matches_BolE [elim!]: "matches Bol st st'"
inductive_cases matches_EolE [elim!]: "matches Eol st st'"

lemmas matches_intros [intro] = matches.intros

section \<open>Basic facts about match states\<close>

lemma adv_simps [simp]:
  "pos (adv n st) = pos st + n"
  "rest (adv n st) = drop n (rest st)"
  "grp (adv n st) = grp st"
  "adv 0 st = st"
  "adv n (adv m st) = adv (m + n) st"
  by (simp_all add: adv_def add_ac)

lemma capture_simps [simp]:
  "pos (capture st st') = pos st'"
  "rest (capture st st') = rest st'"
  "grp (capture st st') = Some (take (pos st' - pos st) (rest st))"
  by (simp_all add: capture_def)

lemma start_state_simps [simp]:
  "pos (start_state i s) = i"
  "rest (start_state i s) = s"
  "grp (start_state i s) = None"
  by (simp_all add: start_state_def)

lemma span_le_length [simp]: "span a s \<le> length s"
  by (simp add: span_def length_takeWhile_le)

lemma span_le: "n \<le> span a s \<Longrightarrow> n \<le> length s"
  using span_le_length [of a s] by (rule order_trans [rotated])

lemma span_Cons [simp]:
  "span a (c # s) = (if accepts a c then Suc (span a s) else 0)"
  by (simp add: span_def)

lemma span_Nil [simp]: "span a [] = 0"
  by (simp add: span_def)

lemma span_accepts: "n \<le> span a s \<Longrightarrow> c \<in> set (take n s) \<Longrightarrow> accepts a c"
proof (induction s arbitrary: n)
  case Nil
  then show ?case by simp
next
  case (Cons x s)
  then show ?case by (cases n) (auto split: if_splits)
qed

lemma span_all: "\<forall>c \<in> set w. accepts a c \<Longrightarrow> length w \<le> span a (w @ s)"
  by (induction w) simp_all

section \<open>The matcher finds exactly the declared matches\<close>

lemma set_run_Star: "set (run (Star a) st) = (\<lambda>n. adv n st) ` {0 .. span a (rest st)}"
  by (simp add: atLeastLessThanSuc_atLeastAtMost del: upt_Suc)

lemma set_run_Plus: "set (run (Plus a) st) = (\<lambda>n. adv n st) ` {Suc 0 .. span a (rest st)}"
  by (simp add: atLeastLessThanSuc_atLeastAtMost del: upt_Suc)

lemma run_iff_matches: "st' \<in> set (run r st) \<longleftrightarrow> matches r st st'"
proof (induction r arbitrary: st st')
  case (Lit w)
  show ?case by auto
next
  case (Cls a)
  show ?case by (cases "rest st") (auto intro: m_cls)
next
  case (Star a)
  show ?case by (auto simp: set_run_Star simp del: run.simps)
next
  case (Plus a)
  show ?case by (auto simp: set_run_Plus Suc_le_eq simp del: run.simps)
next
  case (Seq r1 r2)
  then show ?case by auto
next
  case (Alt r1 r2)
  then show ?case by auto
next
  case (Group r)
  then show ?case by auto
next
  case (NGroup r)
  then show ?case by auto
next
  case Bol
  show ?case by auto
next
  case Eol
  show ?case by auto
qed

end
