(* ===== verification/Housecode.thy ===== *)
theory Housecode
  imports Py_Regex
begin

text \<open>
  House codes: the reference grammar \<^verbatim>\<open>[A-P][0-9]+\<close> as a predicate on strings,
  the two character classes the patterns of \<^verbatim>\<open>src/x10mqtt.py\<close> build it from, and
  what the matcher of \<open>Py_Regex\<close> does on the sub-pattern \<^verbatim>\<open>[A-P][0-9]+\<close> that
  lines 214 and 274 share. Also the general facts about \<open>matches\<close>, \<open>first_match\<close>
  and \<open>re_search\<close> that the pattern lemmas of the components rest on.
\<close>

section \<open>The grammar\<close>

definition house_letter :: atom where
  "house_letter = Range CHR ''A'' CHR ''P''"

definition digit :: atom where
  "digit = Range CHR ''0'' CHR ''9''"

fun is_housecode :: "string \<Rightarrow> bool" where
  "is_housecode [] = False"
| "is_housecode (l # ds) = (accepts house_letter l \<and> ds \<noteq> [] \<and> list_all (accepts digit) ds)"

abbreviation hc_body :: rx where
  "hc_body \<equiv> Seq (Cls house_letter) (Plus digit)"

lemma accepts_digit [simp]: "accepts digit c = is_digit_c c"
  by (simp add: digit_def is_digit_c_def)

lemma is_housecode_not_Nil [simp]: "is_housecode h \<Longrightarrow> h \<noteq> []"
  by (cases h) simp_all

lemma is_housecode_length: "is_housecode h \<Longrightarrow> 2 \<le> length h"
  by (cases h; cases "tl h") auto

lemma house_letter_upper: "accepts house_letter c \<Longrightarrow> is_upper_c c"
  by (auto simp: house_letter_def char_defs)

lemma house_letter_upper_fix: "accepts house_letter c \<Longrightarrow> upper_char c = c"
  by (auto simp: house_letter_def char_defs)

lemma house_letter_lower_inject:
  assumes "accepts house_letter h" and "accepts house_letter h'"
    and "lower_char h = lower_char h'"
  shows "h = h'"
proof -
  from assms(3) have "upper_char (lower_char h) = upper_char (lower_char h')"
    by simp
  with assms(1,2) show ?thesis
    by (simp add: house_letter_upper_fix)
qed

lemma is_housecode_no_slash: "is_housecode h \<Longrightarrow> CHR ''/'' \<notin> set h"
  by (cases h) (auto simp: list_all_iff house_letter_def char_defs)

lemma house_letter_not_newline: "accepts house_letter c \<Longrightarrow> c \<noteq> newline"
  by (auto simp: house_letter_def char_defs)

lemma digit_not_newline: "is_digit_c c \<Longrightarrow> c \<noteq> newline"
  by (auto simp: char_defs)

lemma is_housecode_no_newline: "is_housecode h \<Longrightarrow> newline \<notin> set h"
  by (cases h) (auto simp: list_all_iff dest: house_letter_not_newline digit_not_newline)

lemma is_housecode_upper [simp]: "is_housecode h \<Longrightarrow> py_upper h = h"
proof (cases h)
  case Nil
  then show "is_housecode h \<Longrightarrow> ?thesis" by simp
next
  case (Cons l ds)
  assume "is_housecode h"
  with Cons have l: "\<not> is_lower_c l" and ds: "\<forall>c \<in> set ds. \<not> is_lower_c c"
    by (auto simp: list_all_iff house_letter_def char_defs)
  from ds have "py_upper ds = ds"
    by (induction ds) (simp_all add: upper_char_fixes)
  with l Cons show ?thesis by (simp add: upper_char_fixes)
qed

section \<open>General facts about matching\<close>

text \<open>A match consumes a prefix of the remaining input and moves the position by its length.\<close>

lemma matches_consumes:
  "matches r st st' \<Longrightarrow>
     \<exists>n. n \<le> length (rest st) \<and> pos st' = pos st + n \<and> rest st' = drop n (rest st)"
proof (induction rule: matches.induct)
  case (m_lit w st)
  then show ?case by (auto simp: prefix_def intro!: exI [of _ "length w"])
next
  case (m_cls st c cs a)
  then show ?case by (auto intro!: exI [of _ "Suc 0"])
next
  case (m_star n a st)
  then show ?case by (auto dest: span_le intro!: exI [of _ n])
next
  case (m_plus n a st)
  then show ?case by (auto dest: span_le intro!: exI [of _ n])
next
  case (m_seq r1 st st1 r2 st2)
  then obtain n m where "n \<le> length (rest st)" "pos st1 = pos st + n" "rest st1 = drop n (rest st)"
    "m \<le> length (rest st1)" "pos st2 = pos st1 + m" "rest st2 = drop m (rest st1)"
    by blast
  then show ?case by (auto intro!: exI [of _ "n + m"] simp: add_ac)
qed (auto intro: exI [of _ 0])

lemma first_match_eq_None: "first_match r st = None \<longleftrightarrow> (\<forall>st'. \<not> matches r st st')"
  by (auto simp: first_match_def run_iff_matches [symmetric] split: list.splits)

lemma first_match_Some_matches: "first_match r st = Some m \<Longrightarrow> matches r st m"
  by (auto simp: first_match_def run_iff_matches [symmetric] split: list.splits)

lemma matches_first_match: "matches r st st' \<Longrightarrow> \<exists>m. first_match r st = Some m"
  using first_match_eq_None [of r st] by (cases "first_match r st") auto

text \<open>A successful search is a match from some suffix of the subject.\<close>

lemma search_from_Some:
  "search_from r i s = Some m \<Longrightarrow>
     \<exists>j \<le> length s. matches r (start_state (i + j) (drop j s)) m"
proof (induction s arbitrary: i)
  case Nil
  then show ?case by (auto dest: first_match_Some_matches)
next
  case (Cons c cs)
  show ?case
  proof (cases "first_match r (start_state i (c # cs))")
    case (Some m')
    with Cons.prems have "matches r (start_state (i + 0) (drop 0 (c # cs))) m"
      by (auto dest: first_match_Some_matches)
    then show ?thesis by blast
  next
    case None
    with Cons.prems have "search_from r (Suc i) cs = Some m" by simp
    then obtain j where "j \<le> length cs" "matches r (start_state (Suc i + j) (drop j cs)) m"
      using Cons.IH by blast
    then have "Suc j \<le> length (c # cs)"
      "matches r (start_state (i + Suc j) (drop (Suc j) (c # cs))) m"
      by simp_all
    then show ?thesis by blast
  qed
qed

text \<open>A match from any suffix of the subject makes the search succeed.\<close>

lemma search_from_finds:
  "matches r (start_state (i + j) (drop j s)) st' \<Longrightarrow> j \<le> length s \<Longrightarrow>
     \<exists>m. search_from r i s = Some m"
proof (induction s arbitrary: i j)
  case Nil
  then show ?case by (auto dest: matches_first_match)
next
  case (Cons c cs)
  show ?case
  proof (cases "first_match r (start_state i (c # cs))")
    case (Some m)
    then show ?thesis by simp
  next
    case None
    with Cons.prems obtain j' where j: "j = Suc j'"
      by (cases j) (auto simp: first_match_eq_None)
    with Cons.prems have "matches r (start_state (Suc i + j') (drop j' cs)) st'" "j' \<le> length cs"
      by simp_all
    then have "\<exists>m. search_from r (Suc i) cs = Some m" by (rule Cons.IH)
    with None show ?thesis by simp
  qed
qed

lemma re_search_Some:
  "re_search r s = Some m \<Longrightarrow> \<exists>j \<le> length s. matches r (start_state j (drop j s)) m"
  using search_from_Some [of r 0 s m] by (simp add: re_search_def)

lemma re_search_finds:
  "matches r (start_state (length pre) s) st' \<Longrightarrow> \<exists>m. re_search r (pre @ s) = Some m"
  using search_from_finds [of r 0 "length pre" "pre @ s" st'] by (simp add: re_search_def)

lemma re_match_Some: "re_match r s = Some m \<Longrightarrow> matches r (start_state 0 s) m"
  by (simp add: re_match_def first_match_Some_matches)

lemma re_match_eq_None: "re_match r s = None \<longleftrightarrow> (\<forall>st'. \<not> matches r (start_state 0 s) st')"
  by (simp add: re_match_def first_match_eq_None)

section \<open>The sub-pattern for house codes\<close>

lemma matches_hc_body:
  "matches hc_body st st' \<Longrightarrow>
     \<exists>n. st' = adv n st \<and> n \<le> length (rest st) \<and> is_housecode (take n (rest st))"
proof -
  assume "matches hc_body st st'"
  then obtain c cs n where rest: "rest st = c # cs" and c: "accepts house_letter c"
    and n: "0 < n" "n \<le> span digit cs" and st': "st' = adv (Suc n) st"
    by auto
  from n have "\<forall>d \<in> set (take n cs). accepts digit d"
    by (auto dest: span_accepts)
  with rest c n have "is_housecode (take (Suc n) (rest st))"
    by (auto simp: list_all_iff)
  moreover from n rest have "Suc n \<le> length (rest st)"
    by (auto dest: span_le)
  ultimately show ?thesis using st' by blast
qed

lemma hc_body_matches:
  "is_housecode h \<Longrightarrow> rest st = h @ t \<Longrightarrow> matches hc_body st (adv (length h) st)"
proof -
  assume h: "is_housecode h" and rest: "rest st = h @ t"
  from h obtain l ds where hd: "h = l # ds" and l: "accepts house_letter l"
    and ds: "ds \<noteq> []" "\<forall>c \<in> set ds. accepts digit c"
    by (cases h) (auto simp: list_all_iff)
  from l rest hd have 1: "matches (Cls house_letter) st (adv (Suc 0) st)"
    by (auto intro: m_cls)
  from ds rest hd have "length ds \<le> span digit (rest (adv (Suc 0) st))"
    by (simp add: span_all)
  with ds have 2: "matches (Plus digit) (adv (Suc 0) st) (adv (length ds) (adv (Suc 0) st))"
    by (intro m_plus) simp_all
  from m_seq [OF 1 2] show ?thesis unfolding hd by simp
qed

end
