(* ===== verification/Gateway.thy ===== *)
theory Gateway
  imports X10_Prelude
begin

text \<open>
  The data the handlers of \<^verbatim>\<open>src/x10mqtt.py\<close> share: the configuration read at
  start-up (module globals, lines 28 to 101), the one mutable global \<^verbatim>\<open>rcvihc\<close>
  (line 52), and what a handler does to the outside world.

  A handler's calls to the MQTT client (\<^verbatim>\<open>publish\<close>, \<^verbatim>\<open>subscribe\<close>,
  \<^verbatim>\<open>username_pw_set\<close>, \<^verbatim>\<open>connect\<close>, \<^verbatim>\<open>loop_start\<close>), to \<^verbatim>\<open>subprocess\<close> (\<^verbatim>\<open>run\<close>,
  \<^verbatim>\<open>Popen\<close>) and to \<^verbatim>\<open>print\<close> are recorded, in program order, as a list of
  \<open>effect\<close>s. A handler returns an
  \<open>outcome\<close>: the effects it performed and either its value or the exception
  that ended it. What the outside world answers (the exit status of a
  subprocess, whether a payload decodes) is an argument of the handler.
\<close>

section \<open>Configuration and state\<close>

record config =
  broker :: string
  port :: int
  mqttuser :: string
  mqttpass :: string
  cmdtopic :: string
  stattopic :: string
  discoveryhouses :: "char list"
  discoverytopic :: string
  cm17 :: bool

text \<open>
  A configuration for worked examples: a broker on the local machine and, for
  everything else, the defaults of lines 43, 48, 64, 76, 84, 93 and 101.
\<close>

definition demo_config :: config where
  "demo_config =
     \<lparr>broker = ''localhost'', port = 1883, mqttuser = [], mqttpass = [],
      cmdtopic = ''x10/cmd'', stattopic = ''x10/stat'', discoveryhouses = [],
      discoverytopic = ''homeassistant'', cm17 = False\<rparr>"

record gw_state =
  rcvihc :: string

definition init_state :: gw_state where
  "init_state = \<lparr>rcvihc = []\<rparr>"

section \<open>Effects, exceptions and outcomes\<close>

datatype effect =
    Print string
  | Publish string string bool
  | Subscribe string
  | Run "string list"
  | Popen "string list"
  | UsernamePwSet string string
  | Connect string int
  | LoopStart

datatype py_error =
    UnicodeDecodeError
  | OSError
  | NameError string
  | SystemExit int

type_synonym 'a outcome = "effect list \<times> (py_error + 'a)"

text \<open>The answer of \<^verbatim>\<open>subprocess.run\<close>: the process ran and exited, or it could not be started.\<close>

datatype run_result = Exited int | SpawnFailed

text \<open>An MQTT message as the client hands it to \<^verbatim>\<open>on_message\<close>.\<close>

datatype payload = Decoded string | Undecodable

record message =
  topic :: string
  payload :: payload

section \<open>Observations on effect lists\<close>

fun is_publish :: "effect \<Rightarrow> bool" where
  "is_publish (Publish t p r) = True"
| "is_publish e = False"

fun is_run :: "effect \<Rightarrow> bool" where
  "is_run (Run argv) = True"
| "is_run e = False"

fun is_print :: "effect \<Rightarrow> bool" where
  "is_print (Print s) = True"
| "is_print e = False"

definition publishes :: "effect list \<Rightarrow> effect list" where
  "publishes es = filter is_publish es"

definition runs :: "effect list \<Rightarrow> effect list" where
  "runs es = filter is_run es"

definition silent :: "effect list \<Rightarrow> bool" where
  "silent es \<longleftrightarrow> publishes es = [] \<and> runs es = []"

lemma publishes_simps [simp]:
  "publishes [] = []"
  "publishes (Print s # es) = publishes es"
  "publishes (Publish t p r # es) = Publish t p r # publishes es"
  "publishes (Subscribe t # es) = publishes es"
  "publishes (Popen argv # es) = publishes es"
  "publishes (UsernamePwSet u p # es) = publishes es"
  "publishes (Connect h n # es) = publishes es"
  "publishes (LoopStart # es) = publishes es"
  "publishes (Run argv # es) = publishes es"
  "publishes (es @ es') = publishes es @ publishes es'"
  by (simp_all add: publishes_def)

lemma runs_simps [simp]:
  "runs [] = []"
  "runs (Print s # es) = runs es"
  "runs (Publish t p r # es) = runs es"
  "runs (Subscribe t # es) = runs es"
  "runs (Popen argv # es) = runs es"
  "runs (UsernamePwSet u p # es) = runs es"
  "runs (Connect h n # es) = runs es"
  "runs (LoopStart # es) = runs es"
  "runs (Run argv # es) = Run argv # runs es"
  "runs (es @ es') = runs es @ runs es'"
  by (simp_all add: runs_def)

lemma silent_simps [simp]:
  "silent []"
  "silent (Print s # es) = silent es"
  "\<not> silent (Publish t p r # es)"
  "silent (Subscribe t # es) = silent es"
  "silent (Popen argv # es) = silent es"
  "silent (UsernamePwSet u p # es) = silent es"
  "silent (Connect h n # es) = silent es"
  "silent (LoopStart # es) = silent es"
  "\<not> silent (Run argv # es)"
  "silent (es @ es') \<longleftrightarrow> silent es \<and> silent es'"
  by (auto simp: silent_def)

lemma length_publishes_le: "length (publishes es) \<le> length es"
  by (simp add: publishes_def)

end
