(* ===== verification/Config.thy ===== *)
theory Config
  imports Housecode Gateway
begin

text \<open>
  The reading of the configuration, lines 28 to 101 of \<^verbatim>\<open>src/x10mqtt.py\<close>: the
  environment is a partial map from variable names to values, and \<open>load_config\<close>
  returns the configuration record or the exit of the script. The broker host
  and port are required, everything else has a default. \<open>py_int\<close> is Python's
  \<^verbatim>\<open>int\<close> on a string, which decides whether \<^verbatim>\<open>MQTT_PORT\<close> is accepted.
\<close>

section \<open>Python's int on a string\<close>

text \<open>
  \<^verbatim>\<open>int(s)\<close> accepts white space around an optional sign and decimal digits, where
  single underscores may stand between digits. The white space it strips is,
  among the first 256 code points, the ASCII white space (tab to carriage
  return, and the space) and the two characters 0x85 and 0xA0.
\<close>

definition is_space_c :: "char \<Rightarrow> bool" where
  "is_space_c c \<longleftrightarrow>
     (let n = (of_char c :: nat)
      in (9 \<le> n \<and> n \<le> 13) \<or> n = 32 \<or> n = 133 \<or> n = 160)"

definition py_strip :: "string \<Rightarrow> string" where
  "py_strip s = rev (dropWhile is_space_c (rev (dropWhile is_space_c s)))"

definition digit_val :: "char \<Rightarrow> nat" where
  "digit_val c = of_char c - 48"

definition nat_of_digits :: "string \<Rightarrow> nat" where
  "nat_of_digits ds = foldl (\<lambda>acc c. 10 * acc + digit_val c) 0 ds"

fun underscores_ok :: "string \<Rightarrow> bool" where
  "underscores_ok [] = True"
| "underscores_ok [c] = is_digit_c c"
| "underscores_ok (c # d # s) =
     (if c = CHR ''_'' then is_digit_c d \<and> underscores_ok (d # s)
      else is_digit_c c \<and> underscores_ok (d # s))"

definition digits_ok :: "string \<Rightarrow> bool" where
  "digits_ok s \<longleftrightarrow> s \<noteq> [] \<and> is_digit_c (hd s) \<and> underscores_ok s"

definition py_int :: "string \<Rightarrow> int option" where
  "py_int s =
     (let t = py_strip s;
          neg = (t \<noteq> [] \<and> hd t = CHR ''-'');
          u = (if t \<noteq> [] \<and> (hd t = CHR ''-'' \<or> hd t = CHR ''+'') then tl t else t)
      in if digits_ok u
         then Some ((if neg then - 1 else 1) * int (nat_of_digits (filter (\<lambda>c. c \<noteq> CHR ''_'') u)))
         else None)"

section \<open>Reading the environment\<close>

type_synonym environ = "string \<rightharpoonup> string"

definition getenv_default :: "environ \<Rightarrow> string \<Rightarrow> string \<Rightarrow> string" where
  "getenv_default env name dflt = (case env name of Some v \<Rightarrow> v | None \<Rightarrow> dflt)"

text \<open>Line 85: the letters of \<^verbatim>\<open>DISCOVERY_HOUSECODES\<close>, upper-cased, that are house letters.\<close>

definition discovery_letters :: "string \<Rightarrow> char list" where
  "discovery_letters s = filter (\<lambda>h. h \<in> set ''ABCDEFGHIJKLMNOP'') (py_upper s)"

definition load_config :: "environ \<Rightarrow> config outcome" where
  "load_config env =
     (case env ''MQTT_HOST'' of
        None \<Rightarrow> ([Print ''Must define MQTT Host in configuration!''], Inl (SystemExit 1))
      | Some host \<Rightarrow>
          (case Option.bind (env ''MQTT_PORT'') py_int of
             None \<Rightarrow> ([Print ''Must define MQTT port in configuration!''], Inl (SystemExit 1))
           | Some p \<Rightarrow>
               ([], Inr \<lparr>broker = host, port = p,
                         mqttuser = getenv_default env ''MQTT_USER'' [],
                         mqttpass = getenv_default env ''MQTT_PASSWORD'' [],
                         cmdtopic = getenv_default env ''CMD_TOPIC'' ''x10/cmd'',
                         stattopic = getenv_default env ''STAT_TOPIC'' ''x10/stat'',
                         discoveryhouses =
                           discovery_letters (getenv_default env ''DISCOVERY_HOUSECODES'' []),
                         discoverytopic = getenv_default env ''DISCOVERY_TOPIC'' ''homeassistant'',
                         cm17 = (env ''USE_CM17'' = Some ''true'')\<rparr>)))"

lemmas config_defs [gw_defs] = getenv_default_def discovery_letters_def load_config_def

section \<open>Decimal numerals\<close>

lemma digit_char_is_digit: "d < 10 \<Longrightarrow> is_digit_c (digit_char d)"
  by (simp add: char_defs of_char_of)

lemma digit_val_digit_char: "d < 10 \<Longrightarrow> digit_val (digit_char d) = d"
  by (simp add: digit_val_def digit_char_def of_char_of)

lemma str_nat_digits: "\<forall>c \<in> set (str_nat n). is_digit_c c"
proof (induction n rule: str_nat.induct)
  case (1 n)
  then show ?case
    by (subst str_nat.simps) (auto simp: digit_char_is_digit)
qed

lemma str_nat_not_Nil [simp]: "str_nat n \<noteq> []"
  by (subst str_nat.simps) simp

lemma nat_of_digits_snoc [simp]:
  "nat_of_digits (ds @ [c]) = 10 * nat_of_digits ds + digit_val c"
  by (simp add: nat_of_digits_def)

lemma nat_of_digits_single [simp]: "nat_of_digits [c] = digit_val c"
  by (simp add: nat_of_digits_def)

lemma nat_of_digits_str_nat [simp]: "nat_of_digits (str_nat n) = n"
proof (induction n rule: str_nat.induct)
  case (1 n)
  show ?case
  proof (cases "n < 10")
    case True
    then show ?thesis by (subst str_nat.simps) (simp add: digit_val_digit_char)
  next
    case False
    with 1 show ?thesis by (subst str_nat.simps) (simp add: digit_val_digit_char)
  qed
qed

lemma underscores_ok_digits: "\<forall>c \<in> set s. is_digit_c c \<Longrightarrow> underscores_ok s"
  by (induction s rule: underscores_ok.induct) (auto simp: char_defs)

lemma digits_ok_digits: "s \<noteq> [] \<Longrightarrow> \<forall>c \<in> set s. is_digit_c c \<Longrightarrow> digits_ok s"
  by (cases s) (auto simp: digits_ok_def underscores_ok_digits)

lemma digits_no_underscore:
  "\<forall>c \<in> set s. is_digit_c c \<Longrightarrow> filter (\<lambda>c. c \<noteq> CHR ''_'') s = s"
  by (induction s) (auto simp: char_defs)

lemma dropWhile_hd: "xs \<noteq> [] \<Longrightarrow> \<not> P (hd xs) \<Longrightarrow> dropWhile P xs = xs"
  by (cases xs) simp_all

lemma py_strip_digits:
  "s \<noteq> [] \<Longrightarrow> \<not> is_space_c (hd s) \<Longrightarrow> \<not> is_space_c (last s) \<Longrightarrow> py_strip s = s"
  by (simp add: py_strip_def dropWhile_hd hd_rev)

lemma digit_not_space: "is_digit_c c \<Longrightarrow> \<not> is_space_c c"
  by (auto simp: char_defs is_space_c_def Let_def)

lemma py_int_digits:
  assumes "s \<noteq> []" and "\<forall>c \<in> set s. is_digit_c c"
  shows "py_int s = Some (int (nat_of_digits s))"
proof -
  from assms have ends: "is_digit_c (hd s)" "is_digit_c (last s)"
    by simp_all
  then have "py_strip s = s"
    using assms(1) by (intro py_strip_digits) (auto dest: digit_not_space)
  moreover from ends have "hd s \<noteq> CHR ''-''" "hd s \<noteq> CHR ''+''"
    by (auto simp: char_defs)
  ultimately show ?thesis
    using assms by (simp add: py_int_def Let_def digits_ok_digits digits_no_underscore)
qed

lemma py_int_minus_digits:
  assumes "s \<noteq> []" and "\<forall>c \<in> set s. is_digit_c c"
  shows "py_int (CHR ''-'' # s) = Some (- int (nat_of_digits s))"
proof -
  from assms have "is_digit_c (last s)"
    by simp
  then have "\<not> is_space_c (last (CHR ''-'' # s))"
    using assms(1) by (auto dest: digit_not_space)
  then have "py_strip (CHR ''-'' # s) = CHR ''-'' # s"
    by (intro py_strip_digits) (simp_all add: is_space_c_def Let_def)
  then show ?thesis
    using assms by (simp add: py_int_def Let_def digits_ok_digits digits_no_underscore)
qed

lemma py_int_str_int: "py_int (str_int i) = Some i"
  using str_nat_digits
  by (auto simp: str_int_def py_int_digits py_int_minus_digits)

section \<open>What load_config returns\<close>

lemma load_config_no_host:
  "env ''MQTT_HOST'' = None \<Longrightarrow>
   load_config env = ([Print ''Must define MQTT Host in configuration!''], Inl (SystemExit 1))"
  by (simp add: load_config_def)

lemma load_config_no_port:
  "env ''MQTT_HOST'' = Some host \<Longrightarrow> Option.bind (env ''MQTT_PORT'') py_int = None \<Longrightarrow>
   load_config env = ([Print ''Must define MQTT port in configuration!''], Inl (SystemExit 1))"
  by (simp add: load_config_def)

lemma load_config_ok:
  "env ''MQTT_HOST'' = Some host \<Longrightarrow> env ''MQTT_PORT'' = Some p \<Longrightarrow> py_int p = Some n \<Longrightarrow>
   \<exists>cfg. load_config env = ([], Inr cfg) \<and> broker cfg = host \<and> port cfg = n"
  by (simp add: load_config_def)

lemma discovery_letters_house: "list_all (accepts house_letter) (discovery_letters s)"
  by (auto simp: discovery_letters_def list_all_iff house_letter_def char_eval)

lemma load_config_discoveryhouses:
  "load_config env = (effs, Inr cfg) \<Longrightarrow> list_all (accepts house_letter) (discoveryhouses cfg)"
  by (auto simp: load_config_def discovery_letters_house split: option.splits)

section \<open>Properties of the configuration\<close>

text \<open>
  C33. The script starts exactly when the broker host is set and the broker
  port is set to something Python's \<^verbatim>\<open>int\<close> accepts; otherwise it prints which of
  the two is missing, the host first, and exits with status 1.
\<close>

theorem load_config_exits:
  "load_config env =
     (if env ''MQTT_HOST'' = None
      then ([Print ''Must define MQTT Host in configuration!''], Inl (SystemExit 1))
      else if Option.bind (env ''MQTT_PORT'') py_int = None
      then ([Print ''Must define MQTT port in configuration!''], Inl (SystemExit 1))
      else ([], snd (load_config env)))
   \<and> (snd (load_config env) = Inl (SystemExit 1)
        \<longleftrightarrow> env ''MQTT_HOST'' = None \<or> Option.bind (env ''MQTT_PORT'') py_int = None)"
  by (auto simp: load_config_def split: option.splits)

text \<open>
  A port written in decimal is read back as itself, and with only the
  host and the port in the environment every other setting
  takes its documented default: no credentials, command topic \<^verbatim>\<open>x10/cmd\<close>, state
  topic \<^verbatim>\<open>x10/stat\<close>, discovery topic \<^verbatim>\<open>homeassistant\<close>, no house to announce,
  and the CM11A controller.
\<close>

lemma load_config_defaults:
  "load_config [''MQTT_HOST'' \<mapsto> host, ''MQTT_PORT'' \<mapsto> str_int p] =
     ([], Inr \<lparr>broker = host, port = p, mqttuser = [], mqttpass = [],
               cmdtopic = ''x10/cmd'', stattopic = ''x10/stat'', discoveryhouses = [],
               discoverytopic = ''homeassistant'', cm17 = False\<rparr>)"
  by (simp add: load_config_def getenv_default_def discovery_letters_def py_int_str_int)

section \<open>The house letters\<close>

lemma house_letters_image:
  "set ''ABCDEFGHIJKLMNOP'' = char_of ` set [65 ..< 81 :: nat]"
  "set ''abcdefghijklmnop'' = char_of ` set [97 ..< 113 :: nat]"
  by (simp_all add: upt_rec char_of_eval)

lemma house_letters_range:
  "c \<in> set ''ABCDEFGHIJKLMNOP'' \<longleftrightarrow> in_range CHR ''A'' CHR ''P'' c"
  "c \<in> set ''abcdefghijklmnop'' \<longleftrightarrow> in_range CHR ''a'' CHR ''p'' c"
proof -
  have c: "c = char_of (of_char c :: nat)"
    by simp
  show "c \<in> set ''ABCDEFGHIJKLMNOP'' \<longleftrightarrow> in_range CHR ''A'' CHR ''P'' c"
  proof
    assume "in_range CHR ''A'' CHR ''P'' c"
    then have "(of_char c :: nat) \<in> set [65 ..< 81]"
      by (simp only: set_upt atLeastLessThan_iff) (simp add: in_range_def)
    with c show "c \<in> set ''ABCDEFGHIJKLMNOP''"
      unfolding house_letters_image by (rule image_eqI)
  qed (auto simp: in_range_def)
  show "c \<in> set ''abcdefghijklmnop'' \<longleftrightarrow> in_range CHR ''a'' CHR ''p'' c"
  proof
    assume "in_range CHR ''a'' CHR ''p'' c"
    then have "(of_char c :: nat) \<in> set [97 ..< 113]"
      by (simp only: set_upt atLeastLessThan_iff) (simp add: in_range_def)
    with c show "c \<in> set ''abcdefghijklmnop''"
      unfolding house_letters_image by (rule image_eqI)
  qed (auto simp: in_range_def)
qed

lemma upper_house_letter:
  "in_range CHR ''A'' CHR ''P'' (upper_char c)
     \<longleftrightarrow> in_range CHR ''A'' CHR ''P'' c \<or> in_range CHR ''a'' CHR ''p'' c"
  by (auto simp: char_defs)

text \<open>
  Line 85 read on the characters of the setting itself: a character is kept
  exactly when it is one of the letters A to P in either case, and it is kept
  in upper case.
\<close>

lemma discovery_letters_kept:
  "discovery_letters s
     = map upper_char (filter (\<lambda>c. c \<in> set (''ABCDEFGHIJKLMNOP'' @ ''abcdefghijklmnop'')) s)"
proof -
  have "(upper_char c \<in> set ''ABCDEFGHIJKLMNOP'')
      = (c \<in> set (''ABCDEFGHIJKLMNOP'' @ ''abcdefghijklmnop''))" for c
    unfolding set_append Un_iff house_letters_range by (rule upper_house_letter)
  then show ?thesis
    by (simp only: discovery_letters_def py_upper_def filter_map o_def)
qed

text \<open>
  C39. The houses the gateway announces are exactly the letters A to P of
  \<^verbatim>\<open>DISCOVERY_HOUSECODES\<close>, in either case, upper-cased, in the order given and
  with repetitions: every one of the sixteen letters is kept in both cases,
  every other character is skipped, a letter given twice is announced twice,
  and without the setting no house is announced.
\<close>

theorem discovery_houses_from_environment:
  assumes "load_config env = (effs, Inr cfg)"
  shows "discoveryhouses cfg
       = map upper_char
           (filter (\<lambda>c. c \<in> set ''ABCDEFGHIJKLMNOPabcdefghijklmnop'')
              (case env ''DISCOVERY_HOUSECODES'' of None \<Rightarrow> [] | Some s \<Rightarrow> s))"
proof -
  from assms have "discoveryhouses cfg
      = discovery_letters (getenv_default env ''DISCOVERY_HOUSECODES'' [])"
    by (auto simp: load_config_def split: option.splits)
  also have "getenv_default env ''DISCOVERY_HOUSECODES'' []
      = (case env ''DISCOVERY_HOUSECODES'' of None \<Rightarrow> [] | Some s \<Rightarrow> s)"
    by (simp add: getenv_default_def split: option.splits)
  finally show ?thesis
    using discovery_letters_kept by simp
qed

theorem discovery_houses_from_environment_witness:
  "discoveryhouses
     (projr (snd (load_config [''MQTT_HOST'' \<mapsto> ''broker'', ''MQTT_PORT'' \<mapsto> str_int 1883,
                               ''DISCOVERY_HOUSECODES'' \<mapsto> ''b, a; Q pA''])))
     = ''BAPA''"
proof -
  have "load_config [''MQTT_HOST'' \<mapsto> ''broker'', ''MQTT_PORT'' \<mapsto> str_int 1883,
                     ''DISCOVERY_HOUSECODES'' \<mapsto> ''b, a; Q pA'']
      = ([], Inr (projr (snd (load_config [''MQTT_HOST'' \<mapsto> ''broker'',
            ''MQTT_PORT'' \<mapsto> str_int 1883, ''DISCOVERY_HOUSECODES'' \<mapsto> ''b, a; Q pA'']))))"
    by (simp add: load_config_def py_int_str_int)
  from discovery_houses_from_environment [OF this] show ?thesis
    by (simp add: char_eval)
qed

end
