(* ===== verification/Executor.thy ===== *)
theory Executor
  imports Gateway
begin

text \<open>
  The command executor, \<^verbatim>\<open>execute\<close> of \<^verbatim>\<open>src/x10mqtt.py\<close> (lines 110 to 124):
  it chooses the heyu action for the controller in use, runs heyu, reports a
  non-zero exit status on the console and publishes the commanded state,
  retained, whatever the exit status was.
\<close>

section \<open>Definitions\<close>

text \<open>Lines 113 to 118: the action passed to heyu, before it is lower-cased.\<close>

definition heyucmd :: "bool \<Rightarrow> string \<Rightarrow> string" where
  "heyucmd use_cm17 cmd =
     (let h0 = cmd;
          h1 = (if use_cm17 \<and> py_lower cmd = ''on'' then ''fon'' else h0);
          h2 = (if use_cm17 \<and> py_lower cmd = ''off'' then ''foff'' else h1)
      in h2)"

definition heyu_argv :: "config \<Rightarrow> string \<Rightarrow> string \<Rightarrow> string list" where
  "heyu_argv cfg cmd housecode =
     [''heyu'', py_lower (heyucmd (cm17 cfg) cmd), py_lower housecode]"

definition stat_topic_of :: "config \<Rightarrow> string \<Rightarrow> string" where
  "stat_topic_of cfg housecode = stattopic cfg @ ''/'' @ py_lower housecode"

definition execute :: "config \<Rightarrow> run_result \<Rightarrow> string \<Rightarrow> string \<Rightarrow> int outcome" where
  "execute cfg res cmd housecode =
     (case res of
        SpawnFailed \<Rightarrow> ([Run (heyu_argv cfg cmd housecode)], Inl OSError)
      | Exited returncode \<Rightarrow>
          ([Run (heyu_argv cfg cmd housecode)]
           @ (if returncode \<noteq> 0
              then [Print (''Error running heyu, return code: '' @ str_int returncode)]
              else [])
           @ [Print (''Device Status Update: '' @ stat_topic_of cfg housecode),
              Publish (stat_topic_of cfg housecode) (py_upper cmd) True],
           Inr returncode))"

lemmas executor_defs [gw_defs] = heyucmd_def heyu_argv_def stat_topic_of_def execute_def

section \<open>The action table\<close>

lemma heyucmd_cm11 [simp]: "heyucmd False cmd = cmd"
  by (simp add: heyucmd_def)

lemma heyucmd_cm17:
  "heyucmd True cmd =
     (if py_lower cmd = ''off'' then ''foff'' else if py_lower cmd = ''on'' then ''fon'' else cmd)"
  by (simp add: heyucmd_def)

lemma lower_ON [simp]: "py_lower ''ON'' = ''on''" "py_lower ''OFF'' = ''off''"
  by (simp_all add: char_eval)

lemma upper_ON [simp]: "py_upper ''ON'' = ''ON''" "py_upper ''OFF'' = ''OFF''"
  by (simp_all add: char_eval)

lemma lower_fon [simp]: "py_lower ''fon'' = ''fon''" "py_lower ''foff'' = ''foff''"
  by (simp_all add: char_eval)

lemma heyu_action_ON:
  "py_lower (heyucmd c ''ON'') = (if c then ''fon'' else ''on'')"
  "py_lower (heyucmd c ''OFF'') = (if c then ''foff'' else ''off'')"
  by (cases c; simp add: heyucmd_cm17 char_eval)+

section \<open>What execute does\<close>

lemma execute_Exited:
  "execute cfg (Exited rc) cmd hc =
     (Run (heyu_argv cfg cmd hc)
      # (if rc \<noteq> 0 then [Print (''Error running heyu, return code: '' @ str_int rc)] else [])
      @ [Print (''Device Status Update: '' @ stat_topic_of cfg hc),
         Publish (stat_topic_of cfg hc) (py_upper cmd) True],
      Inr rc)"
  by (simp add: execute_def)

lemma execute_SpawnFailed:
  "execute cfg SpawnFailed cmd hc = ([Run (heyu_argv cfg cmd hc)], Inl OSError)"
  by (simp add: execute_def)

lemma runs_execute [simp]:
  "runs (fst (execute cfg res cmd hc)) = [Run (heyu_argv cfg cmd hc)]"
  by (cases res) (simp_all add: execute_def)

lemma publishes_execute [simp]:
  "publishes (fst (execute cfg res cmd hc)) =
     (case res of
        Exited rc \<Rightarrow> [Publish (stat_topic_of cfg hc) (py_upper cmd) True]
      | SpawnFailed \<Rightarrow> [])"
  by (cases res) (simp_all add: execute_def)

lemma result_execute [simp]:
  "snd (execute cfg res cmd hc) = (case res of Exited rc \<Rightarrow> Inr rc | SpawnFailed \<Rightarrow> Inl OSError)"
  by (cases res) (simp_all add: execute_def)

text \<open>
  C7. Whatever exit status heyu reports, zero or not, \<^verbatim>\<open>execute\<close> publishes
  exactly one message: the commanded state, upper-cased, retained, on the
  device's state topic; and it hands the exit status back to its caller.
\<close>

theorem execute_publishes_commanded_state:
  "publishes (fst (execute cfg (Exited rc) cmd hc))
     = [Publish (stattopic cfg @ ''/'' @ py_lower hc) (py_upper cmd) True]
   \<and> snd (execute cfg (Exited rc) cmd hc) = Inr rc"
  by (simp add: stat_topic_of_def)

text \<open>
  A non-zero exit status of heyu is reported on the console, between the
  invocation and the state update, and only then: the console message is
  present exactly when the status is not zero.
\<close>

lemma execute_logs_failure:
  "Print (''Error running heyu, return code: '' @ str_int rc)
     \<in> set (fst (execute cfg (Exited rc) cmd hc)) \<longleftrightarrow> rc \<noteq> 0"
  by (auto simp: execute_Exited)

text \<open>
  The action handed to heyu follows the controller in use: with a CM17A the
  commands ON and OFF become \<^verbatim>\<open>fon\<close> and \<^verbatim>\<open>foff\<close>, with a CM11A they are passed
  as \<^verbatim>\<open>on\<close> and \<^verbatim>\<open>off\<close>; the house code is passed in lower case.
\<close>

lemma heyu_argv_table:
  "heyu_argv cfg ''ON'' hc = [''heyu'', if cm17 cfg then ''fon'' else ''on'', py_lower hc]
   \<and> heyu_argv cfg ''OFF'' hc = [''heyu'', if cm17 cfg then ''foff'' else ''off'', py_lower hc]"
  by (simp add: heyu_argv_def heyu_action_ON)

text \<open>
  C37. The error paths of \<^verbatim>\<open>execute\<close>. It invokes heyu exactly once whatever
  happens, and it raises only when heyu cannot be started: it then ends with
  the exception of \<^verbatim>\<open>subprocess.run\<close> right after the invocation, without printing
  or publishing anything; in every other case it returns heyu's exit status,
  and it reports that status on the console exactly when it is not zero.
\<close>

theorem execute_spawn_failure:
  "runs (fst (execute cfg res cmd hc)) = [Run (heyu_argv cfg cmd hc)]
   \<and> snd (execute cfg res cmd hc) = (case res of Exited rc \<Rightarrow> Inr rc | SpawnFailed \<Rightarrow> Inl OSError)
   \<and> execute cfg SpawnFailed cmd hc = ([Run (heyu_argv cfg cmd hc)], Inl OSError)
   \<and> (Print (''Error running heyu, return code: '' @ str_int rc')
          \<in> set (fst (execute cfg (Exited rc') cmd hc)) \<longleftrightarrow> rc' \<noteq> 0)"
  using execute_logs_failure [of rc' cfg cmd hc] by (simp add: execute_SpawnFailed)

end
