(* ===== verification/Router.thy ===== *)
theory Router
  imports Housecode Executor
begin

text \<open>
  The command path of the message router: \<^verbatim>\<open>on_message\<close> of \<^verbatim>\<open>src/x10mqtt.py\<close>
  (lines 199 to 219) with the validation it performs inline: the payload,
  upper-cased, is \<^verbatim>\<open>ON\<close> or \<^verbatim>\<open>OFF\<close>, and the last segment of the topic,
  upper-cased, matches the pattern of line 214. A valid message is handed to
  \<open>execute\<close>; any other is reported on the console and dropped.
\<close>

section \<open>Definitions\<close>

text \<open>Line 214: \<^verbatim>\<open>re.compile("^[A-P][0-9]+$")\<close>.\<close>

definition hcpattern :: rx where
  "hcpattern = Seq Bol (Seq (Cls house_letter) (Seq (Plus digit) Eol))"

text \<open>Lines 205 to 210: the command and the house code a message carries.\<close>

definition command_of :: "string \<Rightarrow> string" where
  "command_of text = py_upper text"

definition hc_of_topic :: "string \<Rightarrow> string" where
  "hc_of_topic t = py_upper (last (py_split CHR ''/'' t))"

text \<open>Line 215: the test that guards the call of \<^verbatim>\<open>execute\<close>.\<close>

definition valid_command :: "string \<Rightarrow> string \<Rightarrow> bool" where
  "valid_command command hc \<longleftrightarrow>
     command \<in> set [''ON'', ''OFF''] \<and> re_match hcpattern hc \<noteq> None"

definition on_message :: "config \<Rightarrow> run_result \<Rightarrow> message \<Rightarrow> unit outcome" where
  "on_message cfg res msg =
     (case payload msg of
        Undecodable \<Rightarrow> ([], Inl UnicodeDecodeError)
      | Decoded text \<Rightarrow>
          (let command = command_of text;
               received = Print (''Received: '' @ topic msg @ '' '' @ command);
               hc = hc_of_topic (topic msg)
           in if valid_command command hc
              then (case execute cfg res command hc of
                      (effs, Inl err) \<Rightarrow>
                        ([received, Print (''Sending X10 command to homecode '' @ hc)] @ effs,
                         Inl err)
                    | (effs, Inr result) \<Rightarrow>
                        ([received, Print (''Sending X10 command to homecode '' @ hc)] @ effs,
                         Inr ()))
              else ([received, Print ''Invalid command or home code''], Inr ())))"

lemmas router_defs [gw_defs] = command_of_def hc_of_topic_def valid_command_def on_message_def

section \<open>The pattern of line 214\<close>

lemma rx_text_hcpattern: "rx_text hcpattern = ''^[A-P][0-9]+$''"
  by (simp add: hcpattern_def house_letter_def digit_def)

text \<open>
  What the pattern accepts, read off the declarative semantics: a house code,
  optionally followed by one newline (Python's \<^verbatim>\<open>$\<close> also matches just before a
  newline that ends the string).
\<close>

lemma matches_hcpattern:
  "matches hcpattern (start_state 0 s) st' \<longleftrightarrow>
     (\<exists>h. is_housecode h \<and> (s = h \<or> s = h @ [newline]) \<and> st' = adv (length h) (start_state 0 s))"
proof
  assume "matches hcpattern (start_state 0 s) st'"
  then obtain st1 where body: "matches hc_body (start_state 0 s) st1"
    and eol: "rest st1 = [] \<or> rest st1 = [newline]" and st': "st' = st1"
    unfolding hcpattern_def by (auto intro: m_seq)
  from matches_hc_body [OF body] obtain n where n: "st1 = adv n (start_state 0 s)"
    "n \<le> length s" "is_housecode (take n s)"
    by auto
  from eol n have "s = take n s \<or> s = take n s @ [newline]"
    by (metis adv_simps(2) append_take_drop_id append_Nil2 start_state_simps(2))
  with n st' show "\<exists>h. is_housecode h \<and> (s = h \<or> s = h @ [newline])
      \<and> st' = adv (length h) (start_state 0 s)"
    by (intro exI [of _ "take n s"]) (simp add: min_absorb2)
next
  assume "\<exists>h. is_housecode h \<and> (s = h \<or> s = h @ [newline])
      \<and> st' = adv (length h) (start_state 0 s)"
  then obtain h t where h: "is_housecode h" and s: "s = h @ t" and t: "t = [] \<or> t = [newline]"
    and st': "st' = adv (length h) (start_state 0 s)"
    by auto
  from h s have body: "matches hc_body (start_state 0 s) st'"
    unfolding st' by (intro hc_body_matches [where t = t]) simp_all
  from s t st' have "matches Eol st' st'"
    by (intro m_eol) auto
  with body show "matches hcpattern (start_state 0 s) st'"
    unfolding hcpattern_def by (auto intro!: m_seq m_bol)
qed

lemma hcpattern_accepts:
  "re_match hcpattern s \<noteq> None \<longleftrightarrow> is_housecode s \<or> (\<exists>h. is_housecode h \<and> s = h @ [newline])"
  by (auto simp: re_match_eq_None matches_hcpattern)

section \<open>Validation\<close>

lemma valid_command_iff:
  "valid_command command hc \<longleftrightarrow>
     (command = ''ON'' \<or> command = ''OFF'')
     \<and> (is_housecode hc \<or> (\<exists>h. is_housecode h \<and> hc = h @ [newline]))"
  unfolding valid_command_def hcpattern_accepts by auto

lemma hc_of_topic_append:
  "CHR ''/'' \<notin> set seg \<Longrightarrow> hc_of_topic (pre @ CHR ''/'' # seg) = py_upper seg"
  by (simp add: hc_of_topic_def last_py_split_append_sep)

section \<open>What on_message does\<close>

lemma on_message_Undecodable:
  "payload msg = Undecodable \<Longrightarrow> on_message cfg res msg = ([], Inl UnicodeDecodeError)"
  by (simp add: on_message_def)

lemma on_message_invalid:
  "payload msg = Decoded text \<Longrightarrow> \<not> valid_command (command_of text) (hc_of_topic (topic msg)) \<Longrightarrow>
   on_message cfg res msg =
     ([Print (''Received: '' @ topic msg @ '' '' @ command_of text),
       Print ''Invalid command or home code''], Inr ())"
  by (simp add: on_message_def Let_def)

lemma on_message_valid:
  "payload msg = Decoded text \<Longrightarrow> valid_command (command_of text) (hc_of_topic (topic msg)) \<Longrightarrow>
   on_message cfg res msg =
     ([Print (''Received: '' @ topic msg @ '' '' @ command_of text),
       Print (''Sending X10 command to homecode '' @ hc_of_topic (topic msg))]
      @ fst (execute cfg res (command_of text) (hc_of_topic (topic msg))),
      map_sum id (\<lambda>_. ()) (snd (execute cfg res (command_of text) (hc_of_topic (topic msg)))))"
  by (cases res) (simp_all add: on_message_def Let_def execute_def)

lemma valid_command_housecode:
  "is_housecode h \<Longrightarrow> c = ''ON'' \<or> c = ''OFF'' \<Longrightarrow> valid_command c h"
  by (auto simp: valid_command_iff)

lemma silent_on_message:
  "silent (fst (on_message cfg res msg)) \<longleftrightarrow>
     (case payload msg of
        Undecodable \<Rightarrow> True
      | Decoded text \<Rightarrow> \<not> valid_command (command_of text) (hc_of_topic (topic msg)))"
  by (cases res; cases "payload msg")
     (auto simp: on_message_def Let_def execute_def split: prod.splits sum.splits)

section \<open>The exceptions that leave the callback\<close>

text \<open>
  A payload that is not valid UTF-8 ends the callback with the decoding error
  of line 205 before anything is printed, run or published
  (\<open>on_message_Undecodable\<close>). A valid command ends it with the error of
  \<^verbatim>\<open>subprocess.run\<close> when heyu cannot be started, and then nothing is published.
  No other message raises.
\<close>

lemma on_message_raises:
  "(\<exists>err. snd (on_message cfg res msg) = Inl err) \<longleftrightarrow>
     payload msg = Undecodable
     \<or> (res = SpawnFailed
         \<and> (\<exists>body. payload msg = Decoded body
               \<and> valid_command (command_of body) (hc_of_topic (topic msg))))"
  by (cases "payload msg"; cases res)
     (auto simp: on_message_def Let_def execute_def split: if_splits)

lemma on_message_error:
  assumes "payload msg = Undecodable
           \<or> (res = SpawnFailed
               \<and> (\<exists>body. payload msg = Decoded body
                     \<and> valid_command (command_of body) (hc_of_topic (topic msg))))"
  shows "snd (on_message cfg res msg)
           = Inl (if payload msg = Undecodable then UnicodeDecodeError else OSError)"
  using assms by (auto simp: on_message_Undecodable on_message_valid execute_def)

lemma publishes_on_message_SpawnFailed [simp]:
  "publishes (fst (on_message cfg SpawnFailed msg)) = []"
  by (cases "payload msg") (auto simp: on_message_def Let_def execute_def)

text \<open>One message is at most one invocation of heyu and at most one publish.\<close>

lemma on_message_bound:
  "length (runs (fst (on_message cfg res msg))) \<le> 1
   \<and> length (publishes (fst (on_message cfg res msg))) \<le> 1"
  by (cases "payload msg"; cases res)
     (auto simp: on_message_def Let_def execute_def)

section \<open>Properties of the command path\<close>

text \<open>
  C1. A command message for a house code is carried out exactly once. If the
  last topic segment, upper-cased, is a house code H and the payload,
  upper-cased, is ON or OFF, then \<^verbatim>\<open>on_message\<close> invokes heyu exactly once, with
  the action chosen by the controller mode and H in lower case, and publishes
  exactly one retained message with the command on the state topic of H.
\<close>

theorem on_message_dispatches:
  assumes "is_housecode (py_upper seg)" and "CHR ''/'' \<notin> set seg"
    and "py_upper text = ''ON'' \<or> py_upper text = ''OFF''"
  shows "runs (fst (on_message cfg (Exited rc) \<lparr>topic = pre @ ''/'' @ seg, payload = Decoded text\<rparr>))
           = [Run [''heyu'', py_lower (heyucmd (cm17 cfg) (py_upper text)), py_lower seg]]
       \<and> publishes (fst (on_message cfg (Exited rc) \<lparr>topic = pre @ ''/'' @ seg, payload = Decoded text\<rparr>))
           = [Publish (stattopic cfg @ ''/'' @ py_lower seg) (py_upper text) True]
       \<and> snd (on_message cfg (Exited rc) \<lparr>topic = pre @ ''/'' @ seg, payload = Decoded text\<rparr>) = Inr ()"
proof -
  let ?msg = "\<lparr>topic = pre @ ''/'' @ seg, payload = Decoded text\<rparr>"
  from assms(2) have hc: "hc_of_topic (topic ?msg) = py_upper seg"
    by (simp add: hc_of_topic_append)
  with assms(1,3) have "valid_command (command_of text) (hc_of_topic (topic ?msg))"
    by (intro valid_command_housecode) (simp_all add: command_of_def)
  then show ?thesis
    using hc by (simp add: on_message_valid command_of_def heyu_argv_def stat_topic_of_def)
qed

theorem on_message_dispatches_witness:
  "runs (fst (on_message demo_config (Exited 0) \<lparr>topic = ''x10/cmd'' @ ''/'' @ ''a1'', payload = Decoded ''on''\<rparr>))
     = [Run [''heyu'', ''on'', ''a1'']]
   \<and> publishes (fst (on_message demo_config (Exited 0) \<lparr>topic = ''x10/cmd'' @ ''/'' @ ''a1'', payload = Decoded ''on''\<rparr>))
     = [Publish ''x10/stat/a1'' ''ON'' True]
   \<and> snd (on_message demo_config (Exited 0) \<lparr>topic = ''x10/cmd'' @ ''/'' @ ''a1'', payload = Decoded ''on''\<rparr>) = Inr ()"
  using on_message_dispatches [of "''a1''" "''on''" demo_config 0 "''x10/cmd''"]
  by (simp add: demo_config_def char_eval house_letter_def)

text \<open>
  C2. A message that is not a valid command has no effect on the bus or the
  broker, and only such a message: \<^verbatim>\<open>on_message\<close> neither invokes heyu nor
  publishes exactly when the payload does not decode, or its text, upper-cased,
  is neither ON nor OFF, or the last topic segment, upper-cased, is not a house
  code (a house code followed by one newline is let through as well).
\<close>

theorem on_message_rejects:
  "silent (fst (on_message cfg res msg)) \<longleftrightarrow>
     \<not> (\<exists>text. payload msg = Decoded text
            \<and> (py_upper text = ''ON'' \<or> py_upper text = ''OFF'')
            \<and> (is_housecode (hc_of_topic (topic msg))
                \<or> (\<exists>h. is_housecode h \<and> hc_of_topic (topic msg) = h @ [newline])))"
  by (cases "payload msg") (simp_all add: silent_on_message valid_command_iff command_of_def)

text \<open>
  C27. The pattern of line 214 accepts the house codes \<^verbatim>\<open>[A-P][0-9]+\<close> and,
  besides them, a house code followed by a single newline, and nothing else.
\<close>

theorem hcpattern_language:
  "re_match hcpattern s \<noteq> None \<longleftrightarrow>
     is_housecode s \<or> (is_housecode (butlast s) \<and> s \<noteq> [] \<and> last s = newline)"
proof -
  have "(\<exists>h. is_housecode h \<and> s = h @ [newline])
      \<longleftrightarrow> is_housecode (butlast s) \<and> s \<noteq> [] \<and> last s = newline"
    by (metis append_butlast_last_id butlast_snoc last_snoc snoc_eq_iff_butlast)
  then show ?thesis by (simp only: hcpattern_accepts)
qed

text \<open>
  C25. The action that reaches heyu follows the controller in use. For a
  message on the topic of a house code, whatever heyu then does, the process
  started is \<^verbatim>\<open>heyu on\<close> or \<^verbatim>\<open>heyu off\<close> with a CM11A and \<^verbatim>\<open>heyu fon\<close> or \<^verbatim>\<open>heyu foff\<close>
  with a CM17A, according to whether the payload, in any case, is ON or OFF,
  with the house code in lower case; for any other payload no process is
  started.
\<close>

theorem command_action_follows_controller:
  assumes "is_housecode (py_upper seg)" and "CHR ''/'' \<notin> set seg"
  shows "runs (fst (on_message cfg res \<lparr>topic = pre @ ''/'' @ seg, payload = Decoded body\<rparr>))
       = (if py_upper body = ''ON''
          then [Run [''heyu'', if cm17 cfg then ''fon'' else ''on'', py_lower seg]]
          else if py_upper body = ''OFF''
          then [Run [''heyu'', if cm17 cfg then ''foff'' else ''off'', py_lower seg]]
          else [])"
proof -
  let ?msg = "\<lparr>topic = pre @ ''/'' @ seg, payload = Decoded body\<rparr>"
  from assms(2) have hc: "hc_of_topic (topic ?msg) = py_upper seg"
    by (simp add: hc_of_topic_append)
  show ?thesis
  proof (cases "py_upper body = ''ON'' \<or> py_upper body = ''OFF''")
    case True
    with assms(1) hc have "valid_command (command_of body) (hc_of_topic (topic ?msg))"
      by (intro valid_command_housecode) (simp_all add: command_of_def)
    with True hc show ?thesis
      by (auto simp: on_message_valid command_of_def heyu_argv_def heyu_action_ON)
  next
    case False
    then have "\<not> valid_command (command_of body) (hc_of_topic (topic ?msg))"
      by (simp add: valid_command_iff command_of_def)
    with False show ?thesis
      by (simp add: on_message_invalid)
  qed
qed

theorem command_action_follows_controller_witness:
  "runs (fst (on_message (demo_config\<lparr>cm17 := True\<rparr>) SpawnFailed
            \<lparr>topic = ''x10/cmd'' @ ''/'' @ ''b12'', payload = Decoded ''Off''\<rparr>))
     = [Run [''heyu'', ''foff'', ''b12'']]"
  using command_action_follows_controller [of "''b12''" "demo_config\<lparr>cm17 := True\<rparr>" SpawnFailed
      "''x10/cmd''" "''Off''"]
  by (simp add: demo_config_def char_eval house_letter_def digit_def)

text \<open>
  C34. A topic whose last segment is a house code followed by a newline passes
  the validation, whatever the house code: heyu is then invoked with an
  argument that ends in a newline, and the state is published on a topic that
  ends in a newline.
\<close>

theorem on_message_trailing_newline:
  assumes "is_housecode h" and "py_upper body = ''ON'' \<or> py_upper body = ''OFF''"
  shows "runs (fst (on_message cfg (Exited rc)
              \<lparr>topic = pre @ ''/'' @ h @ [newline], payload = Decoded body\<rparr>))
           = [Run [''heyu'', py_lower (heyucmd (cm17 cfg) (py_upper body)), py_lower h @ [newline]]]
       \<and> publishes (fst (on_message cfg (Exited rc)
              \<lparr>topic = pre @ ''/'' @ h @ [newline], payload = Decoded body\<rparr>))
           = [Publish (stattopic cfg @ ''/'' @ py_lower h @ [newline]) (py_upper body) True]"
proof -
  let ?msg = "\<lparr>topic = pre @ ''/'' @ h @ [newline], payload = Decoded body\<rparr>"
  from assms(1) have "CHR ''/'' \<notin> set (h @ [newline])"
    by (simp add: is_housecode_no_slash newline_def)
  then have hc: "hc_of_topic (topic ?msg) = py_upper h @ [newline]"
    by (simp add: hc_of_topic_append newline_def char_eval)
  from assms(1) have up: "py_upper h = h"
    by (rule is_housecode_upper)
  from assms(1) have "valid_command (command_of body) (h @ [newline])"
    using assms(2) unfolding valid_command_iff command_of_def by blast
  with hc up show ?thesis
    by (simp add: on_message_valid command_of_def heyu_argv_def stat_topic_of_def newline_def char_eval)
qed

theorem on_message_trailing_newline_witness:
  "runs (fst (on_message demo_config (Exited 0)
            \<lparr>topic = ''x10/cmd'' @ ''/'' @ ''A1'' @ [newline], payload = Decoded ''ON''\<rparr>))
     = [Run [''heyu'', ''on'', ''a1'' @ [newline]]]
   \<and> publishes (fst (on_message demo_config (Exited 0)
            \<lparr>topic = ''x10/cmd'' @ ''/'' @ ''A1'' @ [newline], payload = Decoded ''ON''\<rparr>))
     = [Publish (''x10/stat/a1'' @ [newline]) ''ON'' True]"
  using on_message_trailing_newline [of "''A1''" "''ON''" demo_config 0 "''x10/cmd''"]
  by (simp add: demo_config_def char_eval house_letter_def)

end
