(* ===== verification/Monitor.thy ===== *)
theory Monitor
  imports Housecode Gateway
begin

text \<open>
  The bus-monitor flow of \<^verbatim>\<open>src/x10mqtt.py\<close>: the two patterns that recognise the
  lines of \<^verbatim>\<open>heyu monitor\<close> (lines 274 and 275), the handlers \<^verbatim>\<open>rcviaddr\<close> and
  \<^verbatim>\<open>rcvifunc\<close> (lines 155 to 174) that pair an address line with the function
  line that follows it through the global \<^verbatim>\<open>rcvihc\<close>, the body of the main loop
  (lines 282 to 287) as \<open>monitor_step\<close>, the loop over the lines read so far as
  \<open>monitor_loop\<close>, and the end of the generator \<^verbatim>\<open>monitor\<close> (lines 137 to 140).

  The two-state machine the specification describes is \<open>sm_step\<close>; the last
  section shows that the loop body implements it.
\<close>

section \<open>The patterns\<close>

text \<open>The alternation both patterns start with: \<^verbatim>\<open>(?:rcvi|rcvt|sndc|snds|sndm|sndt)\<close>.\<close>

definition keyword :: rx where
  "keyword = NGroup (Alt (Lit ''rcvi'') (Alt (Lit ''rcvt'') (Alt (Lit ''sndc'')
               (Alt (Lit ''snds'') (Alt (Lit ''sndm'') (Lit ''sndt''))))))"

definition rercviaddr :: rx where
  "rercviaddr =
     Seq keyword (Seq (Lit '' addr unit'') (Seq (Plus Dot) (Seq (Lit ''hu '')
       (Group (Seq (Cls house_letter) (Plus digit))))))"

definition rercvifunc :: rx where
  "rercvifunc =
     Seq keyword (Seq (Lit '' func'') (Seq (Star Dot)
       (Seq (Group (Alt (Lit ''On'') (Lit ''Off''))) (Lit '' :''))))"

section \<open>The handlers and the loop\<close>

definition rcviaddr :: "string \<Rightarrow> gw_state \<Rightarrow> gw_state" where
  "rcviaddr housecode st = st\<lparr>rcvihc := housecode\<rparr>"

definition rcvifunc :: "config \<Rightarrow> string \<Rightarrow> gw_state \<Rightarrow> effect list \<times> gw_state" where
  "rcvifunc cfg func st =
     (if rcvihc st \<noteq> []
      then ([Print (''Remote status change, publishing stat update: '' @ stattopic cfg @ ''/''
                    @ py_lower (rcvihc st) @ '' is now '' @ py_upper func),
             Publish (stattopic cfg @ ''/'' @ py_lower (rcvihc st)) (py_upper func) True],
            st\<lparr>rcvihc := []\<rparr>)
      else ([], st))"

definition monitor_step :: "config \<Rightarrow> string \<Rightarrow> gw_state \<Rightarrow> effect list \<times> gw_state" where
  "monitor_step cfg line st =
     (let addrsearch = re_search rercviaddr line;
          funcsearch = re_search rercvifunc line;
          st1 = (case addrsearch of Some m \<Rightarrow> rcviaddr (group1 m) st | None \<Rightarrow> st)
      in case funcsearch of
           Some m \<Rightarrow> rcvifunc cfg (group1 m) st1
         | None \<Rightarrow> ([], st1))"

fun monitor_loop :: "config \<Rightarrow> string list \<Rightarrow> gw_state \<Rightarrow> effect list \<times> gw_state" where
  "monitor_loop cfg [] st = ([], st)"
| "monitor_loop cfg (line # lines) st =
     (case monitor_step cfg line st of
        (effs, st') \<Rightarrow>
          (case monitor_loop cfg lines st' of (effs', st'') \<Rightarrow> (effs @ effs', st'')))"

text \<open>
  Lines 137 to 140, reached when heyu closes its output: a zero exit status
  ends the generator; a non-zero one reaches line 140, whose \<^verbatim>\<open>cmd\<close> is not
  defined in that scope, so evaluating the arguments of the exception raises
  \<^verbatim>\<open>NameError\<close>.
\<close>

definition monitor_end :: "int \<Rightarrow> py_error + unit" where
  "monitor_end return_code = (if return_code \<noteq> 0 then Inl (NameError ''cmd'') else Inr ())"

text \<open>
  What \<^verbatim>\<open>heyu monitor\<close> did in one run of the gateway: it was started, wrote
  these lines and exited with this status, or it could not be started.
\<close>

datatype monitor_run = Monitored "string list" int | MonitorNotStarted

text \<open>
  Lines 281 to 287 with the generator of lines 133 to 140: the process is
  started when the loop asks for the first line, then every line heyu wrote is
  handled, then its exit status is examined.
\<close>

definition monitor_main :: "config \<Rightarrow> monitor_run \<Rightarrow> gw_state \<Rightarrow> gw_state outcome" where
  "monitor_main cfg mon st =
     (case mon of
        MonitorNotStarted \<Rightarrow> ([Popen [''heyu'', ''monitor'']], Inl OSError)
      | Monitored lines return_code \<Rightarrow>
          (case monitor_loop cfg lines st of
             (effs, st') \<Rightarrow>
               (Popen [''heyu'', ''monitor''] # effs,
                case monitor_end return_code of Inl err \<Rightarrow> Inl err | Inr u \<Rightarrow> Inr st')))"

lemmas monitor_defs [gw_defs] =
  rcviaddr_def rcvifunc_def monitor_step_def monitor_end_def monitor_main_def

lemmas pattern_defs = rercviaddr_def rercvifunc_def keyword_def house_letter_def digit_def

section \<open>The two-state machine of the specification\<close>

datatype command = ON | OFF

datatype sm_state = WAIT_ADDRESS | HAVE_ADDRESS string

datatype line_event = AddressLine string | FunctionLine command

fun sm_step :: "sm_state \<Rightarrow> line_event \<Rightarrow> sm_state \<times> (string \<times> command) list" where
  "sm_step s (AddressLine hc) = (HAVE_ADDRESS hc, [])"
| "sm_step (HAVE_ADDRESS hc) (FunctionLine f) = (WAIT_ADDRESS, [(hc, f)])"
| "sm_step WAIT_ADDRESS (FunctionLine f) = (WAIT_ADDRESS, [])"

fun sm_run :: "sm_state \<Rightarrow> line_event list \<Rightarrow> sm_state \<times> (string \<times> command) list" where
  "sm_run s [] = (s, [])"
| "sm_run s (e # es) =
     (case sm_step s e of
        (s', out) \<Rightarrow> (case sm_run s' es of (s'', out') \<Rightarrow> (s'', out @ out')))"

text \<open>How the code's state, lines and effects read as the machine's.\<close>

definition abs_state :: "gw_state \<Rightarrow> sm_state" where
  "abs_state st = (if rcvihc st = [] then WAIT_ADDRESS else HAVE_ADDRESS (rcvihc st))"

definition func_command :: "string \<Rightarrow> command" where
  "func_command func = (if func = ''On'' then ON else OFF)"

fun command_name :: "command \<Rightarrow> string" where
  "command_name ON = ''ON''"
| "command_name OFF = ''OFF''"

definition events_of_line :: "string \<Rightarrow> line_event list" where
  "events_of_line line =
     (case re_search rercviaddr line of Some m \<Rightarrow> [AddressLine (group1 m)] | None \<Rightarrow> [])
     @ (case re_search rercvifunc line of
          Some m \<Rightarrow> [FunctionLine (func_command (group1 m))]
        | None \<Rightarrow> [])"

definition publish_of :: "config \<Rightarrow> string \<times> command \<Rightarrow> effect" where
  "publish_of cfg ev =
     Publish (stattopic cfg @ ''/'' @ py_lower (fst ev)) (command_name (snd ev)) True"

section \<open>The text of the patterns\<close>

lemma rx_text_rercviaddr:
  "rx_text rercviaddr = ''(?:rcvi|rcvt|sndc|snds|sndm|sndt) addr unit.+hu ([A-P][0-9]+)''"
  by (simp add: pattern_defs)

lemma rx_text_rercvifunc:
  "rx_text rercvifunc = ''(?:rcvi|rcvt|sndc|snds|sndm|sndt) func.*(On|Off) :''"
  by (simp add: pattern_defs)

section \<open>What the patterns capture\<close>

lemma matches_rercviaddr_group:
  "matches rercviaddr st m \<Longrightarrow> is_housecode (group1 m)"
proof -
  assume "matches rercviaddr st m"
  then obtain st4 st5 where body: "matches hc_body st4 st5" and m: "m = capture st4 st5"
    unfolding rercviaddr_def by (auto intro: m_seq)
  from matches_hc_body [OF body] obtain n where "st5 = adv n st4" "is_housecode (take n (rest st4))"
    by auto
  with m show ?thesis by (simp add: group1_def)
qed

lemma matches_rercvifunc_group:
  "matches rercvifunc st m \<Longrightarrow> group1 m = ''On'' \<or> group1 m = ''Off''"
proof -
  assume "matches rercvifunc st m"
  then obtain st3 st4 where g: "matches (Group (Alt (Lit ''On'') (Lit ''Off''))) st3 st4"
    and l: "matches (Lit '' :'') st4 m"
    unfolding rercvifunc_def by (elim matches_SeqE) (rule that)
  from g have "grp st4 = Some ''On'' \<or> grp st4 = Some ''Off''"
    by (auto simp: prefix_def)
  moreover from l have "grp m = grp st4"
    by auto
  ultimately show ?thesis by (auto simp: group1_def)
qed

lemma rercviaddr_group:
  "re_search rercviaddr line = Some m \<Longrightarrow> is_housecode (group1 m)"
  by (auto dest!: re_search_Some intro: matches_rercviaddr_group)

lemma rercvifunc_group:
  "re_search rercvifunc line = Some m \<Longrightarrow> group1 m = ''On'' \<or> group1 m = ''Off''"
  by (auto dest!: re_search_Some dest: matches_rercvifunc_group)

lemma upper_func [simp]: "py_upper ''On'' = ''ON''" "py_upper ''Off'' = ''OFF''"
  by (simp_all add: char_eval)

lemma rercvifunc_upper:
  "re_search rercvifunc line = Some m \<Longrightarrow> py_upper (group1 m) = command_name (func_command (group1 m))"
  by (auto dest!: rercvifunc_group simp: func_command_def simp del: py_upper_simps)

section \<open>The handlers, case by case\<close>

lemma rcvifunc_empty: "rcvihc st = [] \<Longrightarrow> rcvifunc cfg func st = ([], st)"
  by (simp add: rcvifunc_def)

lemma rcvifunc_pending:
  "rcvihc st \<noteq> [] \<Longrightarrow>
   rcvifunc cfg func st =
     ([Print (''Remote status change, publishing stat update: '' @ stattopic cfg @ ''/''
              @ py_lower (rcvihc st) @ '' is now '' @ py_upper func),
       Publish (stattopic cfg @ ''/'' @ py_lower (rcvihc st)) (py_upper func) True],
      st\<lparr>rcvihc := []\<rparr>)"
  by (simp add: rcvifunc_def)

lemma publishes_rcvifunc:
  "publishes (fst (rcvifunc cfg func st)) =
     (if rcvihc st = [] then []
      else [Publish (stattopic cfg @ ''/'' @ py_lower (rcvihc st)) (py_upper func) True])"
  by (simp add: rcvifunc_def)

lemma rcvihc_rcvifunc [simp]: "rcvihc (snd (rcvifunc cfg func st)) = []"
  by (simp add: rcvifunc_def)

lemma rcvihc_rcviaddr [simp]: "rcvihc (rcviaddr hc st) = hc"
  by (simp add: rcviaddr_def)

lemma monitor_step_cases:
  "monitor_step cfg line st =
     (case (re_search rercviaddr line, re_search rercvifunc line) of
        (None, None) \<Rightarrow> ([], st)
      | (Some a, None) \<Rightarrow> ([], rcviaddr (group1 a) st)
      | (None, Some f) \<Rightarrow> rcvifunc cfg (group1 f) st
      | (Some a, Some f) \<Rightarrow> rcvifunc cfg (group1 f) (rcviaddr (group1 a) st))"
  by (simp add: monitor_step_def split: option.splits)

lemma monitor_loop_append:
  "monitor_loop cfg (xs @ ys) st =
     (fst (monitor_loop cfg xs st) @ fst (monitor_loop cfg ys (snd (monitor_loop cfg xs st))),
      snd (monitor_loop cfg ys (snd (monitor_loop cfg xs st))))"
  by (induction xs arbitrary: st) (simp_all split: prod.splits)

lemma monitor_loop_Cons:
  "monitor_loop cfg (line # lines) st =
     (fst (monitor_step cfg line st) @ fst (monitor_loop cfg lines (snd (monitor_step cfg line st))),
      snd (monitor_loop cfg lines (snd (monitor_step cfg line st))))"
  by (simp split: prod.splits)

lemma monitor_main_Monitored:
  "monitor_main cfg (Monitored lines rc) st =
     (Popen [''heyu'', ''monitor''] # fst (monitor_loop cfg lines st),
      if rc \<noteq> 0 then Inl (NameError ''cmd'') else Inr (snd (monitor_loop cfg lines st)))"
  by (simp add: monitor_main_def monitor_end_def split: prod.splits)

lemma monitor_main_NotStarted:
  "monitor_main cfg MonitorNotStarted st = ([Popen [''heyu'', ''monitor'']], Inl OSError)"
  by (simp add: monitor_main_def)

section \<open>The loop body implements the two-state machine\<close>

lemma sm_run_append:
  "sm_run s (es @ es') =
     (fst (sm_run (fst (sm_run s es)) es'), snd (sm_run s es) @ snd (sm_run (fst (sm_run s es)) es'))"
  by (induction es arbitrary: s) (simp_all split: prod.splits)

lemma abs_state_rcviaddr:
  "hc \<noteq> [] \<Longrightarrow> abs_state (rcviaddr hc st) = HAVE_ADDRESS hc"
  by (simp add: abs_state_def)

lemma abs_state_rcvifunc [simp]: "abs_state (snd (rcvifunc cfg func st)) = WAIT_ADDRESS"
  by (simp add: abs_state_def)

lemma monitor_step_refines:
  "abs_state (snd (monitor_step cfg line st)) = fst (sm_run (abs_state st) (events_of_line line))
   \<and> publishes (fst (monitor_step cfg line st))
       = map (publish_of cfg) (snd (sm_run (abs_state st) (events_of_line line)))"
proof (cases "re_search rercviaddr line")
  case None
  then show ?thesis
    by (cases "re_search rercvifunc line")
       (auto simp: monitor_step_cases events_of_line_def publishes_rcvifunc abs_state_def
          publish_of_def rercvifunc_upper simp del: py_upper_simps)
next
  case (Some a)
  then have "group1 a \<noteq> []"
    by (auto dest: rercviaddr_group)
  with Some show ?thesis
    by (cases "re_search rercvifunc line")
       (auto simp: monitor_step_cases events_of_line_def publishes_rcvifunc abs_state_rcviaddr
          publish_of_def rercvifunc_upper simp del: py_upper_simps)
qed

lemma monitor_loop_refines:
  "abs_state (snd (monitor_loop cfg lines st))
     = fst (sm_run (abs_state st) (concat (map events_of_line lines)))
   \<and> publishes (fst (monitor_loop cfg lines st))
     = map (publish_of cfg) (snd (sm_run (abs_state st) (concat (map events_of_line lines))))"
proof (induction lines arbitrary: st)
  case Nil
  show ?case by simp
next
  case (Cons line lines)
  from monitor_step_refines [of cfg line st] Cons [of "snd (monitor_step cfg line st)"]
  show ?case
    by (simp add: monitor_loop_Cons sm_run_append del: monitor_loop.simps)
qed

section \<open>The effects of the loop\<close>

lemma monitor_step_effects:
  "e \<in> set (fst (monitor_step cfg line st)) \<Longrightarrow> is_print e \<or> is_publish e"
  by (auto simp: monitor_step_cases rcvifunc_def split: option.splits if_splits)

lemma monitor_loop_effects:
  "e \<in> set (fst (monitor_loop cfg lines st)) \<Longrightarrow> is_print e \<or> is_publish e"
proof (induction lines arbitrary: st)
  case Nil
  then show ?case by simp
next
  case (Cons line lines)
  then show ?case
    by (auto simp: monitor_loop_Cons dest: monitor_step_effects simp del: monitor_loop.simps)
qed

lemma runs_monitor_loop [simp]: "runs (fst (monitor_loop cfg lines st)) = []"
proof -
  have "\<not> is_run e" if "e \<in> set (fst (monitor_loop cfg lines st))" for e
    using monitor_loop_effects [OF that] by (cases e) simp_all
  then show ?thesis by (simp add: runs_def filter_empty_conv)
qed

section \<open>The pending address is a house code\<close>

definition state_ok :: "gw_state \<Rightarrow> bool" where
  "state_ok st \<longleftrightarrow> rcvihc st = [] \<or> is_housecode (rcvihc st)"

lemma state_ok_init [simp]: "state_ok init_state"
  by (simp add: state_ok_def init_state_def)

lemma state_ok_monitor_step: "state_ok st \<Longrightarrow> state_ok (snd (monitor_step cfg line st))"
  by (auto simp: state_ok_def monitor_step_cases rcvifunc_def dest: rercviaddr_group
      split: option.splits)

lemma state_ok_monitor_loop: "state_ok st \<Longrightarrow> state_ok (snd (monitor_loop cfg lines st))"
proof (induction lines arbitrary: st)
  case Nil
  then show ?case by simp
next
  case (Cons line lines)
  from Cons.prems have "state_ok (snd (monitor_step cfg line st))"
    by (rule state_ok_monitor_step)
  then have "state_ok (snd (monitor_loop cfg lines (snd (monitor_step cfg line st))))"
    by (rule Cons.IH)
  then show ?case by (simp add: monitor_loop_Cons del: monitor_loop.simps)
qed

section \<open>Facts about the two-state machine\<close>

fun is_function :: "line_event \<Rightarrow> bool" where
  "is_function (FunctionLine c) = True"
| "is_function (AddressLine h) = False"

lemma sm_run_Cons:
  "sm_run s (e # es) =
     (fst (sm_run (fst (sm_step s e)) es), snd (sm_step s e) @ snd (sm_run (fst (sm_step s e)) es))"
  by (simp split: prod.splits)

lemma sm_step_output: "(h, c) \<in> set (snd (sm_step s e)) \<Longrightarrow> s = HAVE_ADDRESS h"
  by (cases s; cases e) auto

lemma sm_step_pending: "fst (sm_step s e) = HAVE_ADDRESS h \<Longrightarrow> e = AddressLine h"
  by (cases s; cases e) auto

lemma sm_step_output_bound: "length (snd (sm_step s e)) \<le> (if is_function e then 1 else 0)"
  by (cases s; cases e) simp_all

lemma sm_run_output_bound: "length (snd (sm_run s es)) \<le> length (filter is_function es)"
proof (induction es arbitrary: s)
  case Nil
  show ?case by simp
next
  case (Cons e es)
  from Cons [of "fst (sm_step s e)"] sm_step_output_bound [of s e] show ?case
    by (auto simp: sm_run_Cons simp del: sm_run.simps(2))
qed

lemma sm_run_address_bound:
  "length (snd (sm_run s es))
     \<le> length (filter (\<lambda>e. \<not> is_function e) es) + (if s = WAIT_ADDRESS then 0 else 1)"
proof (induction es arbitrary: s)
  case Nil
  show ?case by simp
next
  case (Cons e es)
  from Cons [of "fst (sm_step s e)"] show ?case
    by (cases s; cases e) (auto simp: sm_run_Cons simp del: sm_run.simps(2))
qed

lemma sm_run_output_address:
  "(h, c) \<in> set (snd (sm_run s es)) \<Longrightarrow> s = HAVE_ADDRESS h \<or> AddressLine h \<in> set es"
proof (induction es arbitrary: s)
  case Nil
  then show ?case by simp
next
  case (Cons e es)
  from Cons.prems consider "(h, c) \<in> set (snd (sm_step s e))"
    | "(h, c) \<in> set (snd (sm_run (fst (sm_step s e)) es))"
    by (auto simp: sm_run_Cons simp del: sm_run.simps(2))
  then show ?case
  proof cases
    case 1
    then show ?thesis by (auto dest: sm_step_output)
  next
    case 2
    then have "fst (sm_step s e) = HAVE_ADDRESS h \<or> AddressLine h \<in> set es"
      by (rule Cons.IH)
    then show ?thesis by (auto dest: sm_step_pending)
  qed
qed

lemma events_of_line_address:
  "AddressLine h \<in> set (events_of_line line) \<Longrightarrow> is_housecode h"
  by (cases "re_search rercviaddr line"; cases "re_search rercvifunc line")
     (auto simp: events_of_line_def dest: rercviaddr_group)

lemma events_of_line_function:
  "length (filter is_function (events_of_line line))
     = (if re_search rercvifunc line = None then 0 else 1)"
  by (auto simp: events_of_line_def split: option.splits)

lemma events_of_line_not_function:
  "length (filter (\<lambda>e. \<not> is_function e) (events_of_line line))
     = (if re_search rercviaddr line = None then 0 else 1)"
  by (auto simp: events_of_line_def split: option.splits)

lemma events_single_function:
  "events_of_line f = [FunctionLine c] \<Longrightarrow>
     re_search rercviaddr f = None \<and> (\<exists>m. re_search rercvifunc f = Some m)"
  by (auto simp: events_of_line_def split: option.splits)

section \<open>State updates on the state topic\<close>

fun is_stat_publish :: "config \<Rightarrow> effect \<Rightarrow> bool" where
  "is_stat_publish cfg (Publish t p r) =
     (r \<and> (p = ''ON'' \<or> p = ''OFF'')
      \<and> prefix (stattopic cfg @ ''/'') t
      \<and> is_housecode (py_upper (drop (Suc (length (stattopic cfg))) t))
      \<and> py_lower (drop (Suc (length (stattopic cfg))) t) = drop (Suc (length (stattopic cfg))) t)"
| "is_stat_publish cfg e = False"

lemma is_stat_publish_of: "is_housecode h \<Longrightarrow> is_stat_publish cfg (publish_of cfg (h, c))"
  by (cases c) (simp_all add: publish_of_def)

lemma stat_publishes_sm_run:
  assumes "\<forall>h. s = HAVE_ADDRESS h \<longrightarrow> is_housecode h"
    and "\<forall>h. AddressLine h \<in> set es \<longrightarrow> is_housecode h"
  shows "list_all (is_stat_publish cfg) (map (publish_of cfg) (snd (sm_run s es)))"
  unfolding list_all_iff
proof
  fix e assume "e \<in> set (map (publish_of cfg) (snd (sm_run s es)))"
  then obtain h c where out: "(h, c) \<in> set (snd (sm_run s es))" and e: "e = publish_of cfg (h, c)"
    by auto
  from sm_run_output_address [OF out] assms have "is_housecode h"
    by auto
  with e show "is_stat_publish cfg e"
    by (simp add: is_stat_publish_of)
qed

section \<open>Lines as heyu prints them\<close>

text \<open>
  Lines of \<^verbatim>\<open>heyu monitor\<close> for a remote that switches A1 on and B2 off, each
  ending in the newline that \<^verbatim>\<open>readline\<close> keeps.
\<close>

definition addr_A1 :: string where
  "addr_A1 = ''07/29 15:43:12  rcvi addr unit       1 : hu A1  (_no_alias_)'' @ [newline]"

definition addr_B2 :: string where
  "addr_B2 = ''07/29 15:43:15  rcvi addr unit       2 : hu B2  (porch_light)'' @ [newline]"

definition func_On :: string where
  "func_On = ''07/29 15:43:12  rcvi func           On : hc A'' @ [newline]"

definition func_Off :: string where
  "func_Off = ''07/29 15:43:15  rcvi func          Off : hc B'' @ [newline]"

definition both_on_one_line :: string where
  "both_on_one_line = ''sndc addr unit 1 : hu A1 (sndc func On :)'' @ [newline]"

lemma events_addr_A1: "events_of_line addr_A1 = [AddressLine ''A1'']"
  by code_simp

lemma events_addr_B2: "events_of_line addr_B2 = [AddressLine ''B2'']"
  by code_simp

lemma events_func_On: "events_of_line func_On = [FunctionLine ON]"
  by code_simp

lemma events_func_Off: "events_of_line func_Off = [FunctionLine OFF]"
  by code_simp

lemma events_both: "events_of_line both_on_one_line = [AddressLine ''A1'', FunctionLine ON]"
  by code_simp

lemma lower_examples [simp]: "py_lower ''A1'' = ''a1''" "py_lower ''B2'' = ''b2''"
  by (simp_all add: char_eval)

lemma housecode_examples [simp]: "is_housecode ''A1''" "is_housecode ''B2''"
  by (simp_all add: house_letter_def char_eval)

lemmas example_events = events_addr_A1 events_addr_B2 events_func_On events_func_Off events_both

section \<open>Properties of the monitor flow\<close>

text \<open>
  C3. The loop over the monitor's lines implements the two-state machine of
  the specification: reading the pending address as the machine's state and
  each line as the address and function events it carries, the state after any
  sequence of lines is the machine's state, and the messages published are the
  machine's emitted events, in order, each on its state topic.
\<close>

theorem monitor_loop_implements_machine:
  "abs_state (snd (monitor_loop cfg lines st))
     = fst (sm_run (abs_state st) (concat (map events_of_line lines)))
   \<and> publishes (fst (monitor_loop cfg lines st))
     = map (publish_of cfg) (snd (sm_run (abs_state st) (concat (map events_of_line lines))))"
  by (rule monitor_loop_refines)

text \<open>
  C4. An address line followed by a function line yields exactly one state
  update, for the device of the address line with the function of the function
  line, whatever was pending before; afterwards no address is pending.
\<close>

theorem address_then_function_publishes_once:
  assumes "events_of_line a = [AddressLine h]" and "events_of_line f = [FunctionLine c]"
  shows "publishes (fst (monitor_loop cfg [a, f] st))
           = [Publish (stattopic cfg @ ''/'' @ py_lower h) (command_name c) True]
       \<and> rcvihc (snd (monitor_loop cfg [a, f] st)) = []"
proof -
  from assms monitor_loop_refines [of cfg "[a, f]" st]
  have "abs_state (snd (monitor_loop cfg [a, f] st)) = WAIT_ADDRESS"
    and "publishes (fst (monitor_loop cfg [a, f] st)) = [publish_of cfg (h, c)]"
    by simp_all
  then show ?thesis
    by (simp add: publish_of_def abs_state_def split: if_splits)
qed

theorem address_then_function_publishes_once_witness:
  "publishes (fst (monitor_loop demo_config [addr_A1, func_On] init_state))
     = [Publish ''x10/stat/a1'' ''ON'' True]
   \<and> rcvihc (snd (monitor_loop demo_config [addr_A1, func_On] init_state)) = []"
  using address_then_function_publishes_once [OF events_addr_A1 events_func_On, of demo_config init_state]
  by (simp add: demo_config_def char_eval del: monitor_loop.simps)

text \<open>
  C6. A function line that arrives when no address is pending is dropped:
  nothing is printed or published and the state is unchanged.
\<close>

theorem function_without_address_is_dropped:
  assumes "events_of_line f = [FunctionLine c]" and "rcvihc st = []"
  shows "monitor_step cfg f st = ([], st)"
  using events_single_function [OF assms(1)] assms(2)
  by (auto simp: monitor_step_cases rcvifunc_empty)

theorem function_without_address_is_dropped_witness:
  "monitor_step demo_config func_On init_state = ([], init_state)"
  using function_without_address_is_dropped [OF events_func_On, of init_state demo_config]
  by (simp add: init_state_def)

text \<open>
  C5. A second address line overwrites the first: address, address, function
  yields exactly one state update, for the device of the second address line.
\<close>

theorem second_address_overwrites_first:
  assumes "events_of_line a1 = [AddressLine h1]" and "events_of_line a2 = [AddressLine h2]"
    and "events_of_line f = [FunctionLine c]"
  shows "publishes (fst (monitor_loop cfg [a1, a2, f] st))
           = [Publish (stattopic cfg @ ''/'' @ py_lower h2) (command_name c) True]"
  using assms monitor_loop_refines [of cfg "[a1, a2, f]" st]
  by (simp add: publish_of_def)

theorem second_address_overwrites_first_witness:
  "publishes (fst (monitor_loop demo_config [addr_A1, addr_B2, func_Off] init_state))
     = [Publish ''x10/stat/b2'' ''OFF'' True]"
  using second_address_overwrites_first [OF events_addr_A1 events_addr_B2 events_func_Off,
      of demo_config init_state]
  by (simp add: demo_config_def char_eval del: monitor_loop.simps)

text \<open>
  Whatever lines the monitor prints, the pending address is empty or a house
  code \<^verbatim>\<open>[A-P][0-9]+\<close> after every line processed from the start state.
\<close>

lemma pending_address_is_housecode:
  "rcvihc (snd (monitor_loop cfg lines init_state)) = []
   \<or> is_housecode (rcvihc (snd (monitor_loop cfg lines init_state)))"
  using state_ok_monitor_loop [OF state_ok_init, of cfg lines] by (simp add: state_ok_def)

text \<open>
  Every message the monitor flow publishes, on any sequence of lines from
  the start state, is a retained \<^verbatim>\<open>ON\<close> or \<^verbatim>\<open>OFF\<close> on the state topic of a
  house code, in lower case.
\<close>

lemma monitor_publishes_only_state_updates:
  "list_all (is_stat_publish cfg) (publishes (fst (monitor_loop cfg lines init_state)))"
proof -
  have "list_all (is_stat_publish cfg)
      (map (publish_of cfg) (snd (sm_run (abs_state init_state) (concat (map events_of_line lines)))))"
    by (rule stat_publishes_sm_run) (auto simp: abs_state_def init_state_def dest: events_of_line_address)
  then show ?thesis by (simp add: monitor_loop_refines)
qed

text \<open>
  A state update needs a function line and an address: the monitor flow
  publishes at most one message per line that matches the function pattern,
  and at most one per line that matches the address pattern, counting the
  address that was pending at the start.
\<close>

lemma monitor_loop_function_bound:
  "length (publishes (fst (monitor_loop cfg lines st)))
     \<le> length (filter (\<lambda>line. re_search rercvifunc line \<noteq> None) lines)"
proof -
  have "length (filter is_function (concat (map events_of_line lines)))
      = length (filter (\<lambda>line. re_search rercvifunc line \<noteq> None) lines)"
    by (induction lines) (simp_all add: events_of_line_function)
  with sm_run_output_bound [of "abs_state st" "concat (map events_of_line lines)"]
  show ?thesis by (simp add: monitor_loop_refines)
qed

lemma monitor_loop_address_bound:
  "length (publishes (fst (monitor_loop cfg lines st)))
     \<le> length (filter (\<lambda>line. re_search rercviaddr line \<noteq> None) lines)
       + (if rcvihc st = [] then 0 else 1)"
proof -
  have "length (filter (\<lambda>e. \<not> is_function e) (concat (map events_of_line lines)))
      = length (filter (\<lambda>line. re_search rercviaddr line \<noteq> None) lines)"
    by (induction lines) (simp_all add: events_of_line_not_function)
  with sm_run_address_bound [of "abs_state st" "concat (map events_of_line lines)"]
  show ?thesis by (simp add: monitor_loop_refines abs_state_def split: if_splits)
qed

text \<open>
  C28. The address pattern captures a house code and nothing else, and the
  function pattern captures \<^verbatim>\<open>On\<close> or \<^verbatim>\<open>Off\<close>: whatever line is searched, the
  argument handed to \<^verbatim>\<open>rcviaddr\<close> matches \<^verbatim>\<open>[A-P][0-9]+\<close> and the argument handed
  to \<^verbatim>\<open>rcvifunc\<close> is one of the two function names.
\<close>

theorem patterns_capture:
  "(case re_search rercviaddr line of None \<Rightarrow> True | Some m \<Rightarrow> is_housecode (group1 m))
   \<and> (case re_search rercvifunc line of
        None \<Rightarrow> True
      | Some m \<Rightarrow> group1 m = ''On'' \<or> group1 m = ''Off'')"
  by (auto split: option.splits dest: rercviaddr_group rercvifunc_group)

text \<open>
  C35. The two patterns are not disjoint: a single line can match both. On
  every such line both handlers run, the address handler first, so the line
  alone produces the state update of its own address with its own function,
  whatever address was pending before, and leaves no address pending.
\<close>

theorem one_line_can_match_both_patterns:
  assumes "events_of_line line = [AddressLine h, FunctionLine c]"
  shows "events_of_line both_on_one_line = [AddressLine ''A1'', FunctionLine ON]
       \<and> publishes (fst (monitor_step cfg line st))
           = [Publish (stattopic cfg @ ''/'' @ py_lower h) (command_name c) True]
       \<and> rcvihc (snd (monitor_step cfg line st)) = []"
proof -
  from assms monitor_step_refines [of cfg line st]
  have "abs_state (snd (monitor_step cfg line st)) = WAIT_ADDRESS"
    and "publishes (fst (monitor_step cfg line st)) = [publish_of cfg (h, c)]"
    by simp_all
  then show ?thesis
    by (simp add: events_both publish_of_def abs_state_def split: if_splits)
qed

theorem one_line_can_match_both_patterns_witness:
  "events_of_line both_on_one_line = [AddressLine ''A1'', FunctionLine ON]
   \<and> publishes (fst (monitor_step demo_config both_on_one_line \<lparr>rcvihc = ''B2''\<rparr>))
       = [Publish ''x10/stat/a1'' ''ON'' True]
   \<and> rcvihc (snd (monitor_step demo_config both_on_one_line \<lparr>rcvihc = ''B2''\<rparr>)) = []"
  using one_line_can_match_both_patterns [OF events_both, of demo_config "\<lparr>rcvihc = ''B2''\<rparr>"]
  by (simp add: demo_config_def char_eval)

end
