(* ===== verification/Discovery.thy ===== *)
theory Discovery
  imports Housecode Config
begin

text \<open>
  The discovery announcer and the connect callback of \<^verbatim>\<open>src/x10mqtt.py\<close>:
  \<^verbatim>\<open>ha_discovery_announce\<close> (lines 225 to 234) builds the descriptor of one device
  as a dictionary of four strings, prints it and publishes it as JSON, retained;
  \<^verbatim>\<open>on_connect\<close> (lines 180 to 193) reports the result code, subscribes to the
  command topics and announces units 1 to 16 of every configured house.

  A dictionary of strings is an association list in insertion order. \<open>json_dumps\<close>
  is \<^verbatim>\<open>json.dumps\<close> with its default separators and ASCII escaping; \<open>py_str_dict\<close>
  is \<^verbatim>\<open>str\<close> of the dictionary, which prints every string with \<^verbatim>\<open>repr\<close>.

  The lemmas count the announcements, show that the topic of an announcement
  determines the device, that the callback does the same whatever result code
  the broker reports, and (\<open>json_dumps_printable\<close>) that a JSON payload is
  printable ASCII whatever the configured topics contain.
\<close>

section \<open>Printing strings\<close>

definition backslash :: char where
  "backslash = CHR 0x5C"

definition dquote :: char where
  "dquote = CHR 0x22"

definition squote :: char where
  "squote = CHR 0x27"

definition hex_digit :: "nat \<Rightarrow> char" where
  "hex_digit d = (if d < 10 then char_of (48 + d) else char_of (87 + d))"

definition hex2 :: "nat \<Rightarrow> string" where
  "hex2 n = [hex_digit (n div 16 mod 16), hex_digit (n mod 16)]"

fun py_join_str :: "string \<Rightarrow> string list \<Rightarrow> string" where
  "py_join_str sep [] = []"
| "py_join_str sep [s] = s"
| "py_join_str sep (s # t # ss) = s @ sep @ py_join_str sep (t # ss)"

text \<open>\<^verbatim>\<open>json.dumps\<close> of a string: \<^verbatim>\<open>py_encode_basestring_ascii\<close>.\<close>

definition json_escape_char :: "char \<Rightarrow> string" where
  "json_escape_char c =
     (if c = backslash then [backslash, backslash]
      else if c = dquote then [backslash, dquote]
      else if in_range CHR '' '' CHR ''~'' c then [c]
      else if c = CHR 0x08 then [backslash, CHR ''b'']
      else if c = CHR 0x0C then [backslash, CHR ''f'']
      else if c = CHR 0x0A then [backslash, CHR ''n'']
      else if c = CHR 0x0D then [backslash, CHR ''r'']
      else if c = CHR 0x09 then [backslash, CHR ''t'']
      else [backslash, CHR ''u'', CHR ''0'', CHR ''0''] @ hex2 (of_char c))"

definition json_string :: "string \<Rightarrow> string" where
  "json_string s = [dquote] @ concat (map json_escape_char s) @ [dquote]"

definition json_dumps :: "(string \<times> string) list \<Rightarrow> string" where
  "json_dumps kvs =
     ''{'' @ py_join_str '', '' (map (\<lambda>(k, v). json_string k @ '': '' @ json_string v) kvs) @ ''}''"

text \<open>\<^verbatim>\<open>repr\<close> of a string, and \<^verbatim>\<open>str\<close> of a dictionary of strings.\<close>

definition repr_char :: "char \<Rightarrow> char \<Rightarrow> string" where
  "repr_char q c =
     (let n = (of_char c :: nat)
      in if c = q \<or> c = backslash then [backslash, c]
         else if c = CHR 0x09 then [backslash, CHR ''t'']
         else if c = CHR 0x0A then [backslash, CHR ''n'']
         else if c = CHR 0x0D then [backslash, CHR ''r'']
         else if n < 32 \<or> n = 127 then [backslash, CHR ''x''] @ hex2 n
         else if n < 127 then [c]
         else if n \<le> 160 \<or> n = 173 then [backslash, CHR ''x''] @ hex2 n
         else [c])"

definition py_repr :: "string \<Rightarrow> string" where
  "py_repr s =
     (let q = (if squote \<in> set s \<and> dquote \<notin> set s then dquote else squote)
      in [q] @ concat (map (repr_char q) s) @ [q])"

definition py_str_dict :: "(string \<times> string) list \<Rightarrow> string" where
  "py_str_dict kvs =
     ''{'' @ py_join_str '', '' (map (\<lambda>(k, v). py_repr k @ '': '' @ py_repr v) kvs) @ ''}''"

section \<open>The announcer and the connect callback\<close>

text \<open>Lines 226 to 232: the descriptor and its topic for one unit of one house.\<close>

definition unit_code :: "char \<Rightarrow> nat \<Rightarrow> string" where
  "unit_code house unit = py_lower [house] @ str_nat unit"

definition discovery_config :: "config \<Rightarrow> char \<Rightarrow> nat \<Rightarrow> (string \<times> string) list" where
  "discovery_config cfg house unit =
     [(''name'', ''X10 Module '' @ py_upper [house] @ str_nat unit),
      (''state_topic'', stattopic cfg @ ''/'' @ py_lower [house] @ str_nat unit),
      (''command_topic'', cmdtopic cfg @ ''/'' @ py_lower [house] @ str_nat unit),
      (''unique_id'', ''x10mqtt_x10_'' @ py_lower [house] @ str_nat unit)]"

definition discovery_topic_of :: "config \<Rightarrow> char \<Rightarrow> nat \<Rightarrow> string" where
  "discovery_topic_of cfg house unit =
     discoverytopic cfg @ ''/switch/x10mqtt/x10_'' @ py_lower [house] @ str_nat unit @ ''/config''"

definition ha_discovery_announce :: "config \<Rightarrow> char \<Rightarrow> nat \<Rightarrow> effect list" where
  "ha_discovery_announce cfg house unit =
     [Print (''Publishing at '' @ discovery_topic_of cfg house unit @ '': ''
             @ py_str_dict (discovery_config cfg house unit)),
      Publish (discovery_topic_of cfg house unit) (json_dumps (discovery_config cfg house unit)) True]"

text \<open>Lines 190 to 193: one house, units \<^verbatim>\<open>range(1, 17)\<close>.\<close>

definition announce_house :: "config \<Rightarrow> char \<Rightarrow> effect list" where
  "announce_house cfg house =
     Print (''Announcing housecode '' @ [house] @ '' for HomeAssistant discovery'')
     # concat (map (ha_discovery_announce cfg house) [1 ..< 17])"

definition on_connect :: "config \<Rightarrow> int \<Rightarrow> effect list" where
  "on_connect cfg rc =
     (if rc \<noteq> 0 then [Print (''Error connecting to MQTT broker rc '' @ str_int rc)] else [])
     @ [Print (''Connected to MQTT broker, result code '' @ str_int rc),
        Subscribe (cmdtopic cfg @ ''/+'')]
     @ concat (map (announce_house cfg) (discoveryhouses cfg))"

text \<open>The topic of a published message, and the characters JSON text is made of.\<close>

fun publish_topic :: "effect \<Rightarrow> string" where
  "publish_topic (Publish t p r) = t"
| "publish_topic e = []"

definition printable :: "char \<Rightarrow> bool" where
  "printable c = in_range CHR '' '' CHR ''~'' c"

lemmas discovery_defs [gw_defs] =
  unit_code_def discovery_config_def discovery_topic_of_def ha_discovery_announce_def
  announce_house_def on_connect_def

lemmas print_defs = backslash_def dquote_def squote_def hex_digit_def hex2_def
  json_escape_char_def json_string_def json_dumps_def repr_char_def py_repr_def py_str_dict_def

section \<open>Counting the announcements\<close>

lemma publishes_announce [simp]:
  "publishes (ha_discovery_announce cfg house unit) =
     [Publish (discovery_topic_of cfg house unit) (json_dumps (discovery_config cfg house unit)) True]"
  by (simp add: ha_discovery_announce_def)

lemma publishes_concat: "publishes (concat xss) = concat (map publishes xss)"
  by (induction xss) simp_all

lemma publishes_announce_house:
  "publishes (announce_house cfg house) =
     map (\<lambda>unit. Publish (discovery_topic_of cfg house unit)
                   (json_dumps (discovery_config cfg house unit)) True) [1 ..< 17]"
  by (simp add: announce_house_def publishes_concat map_concat o_def concat_map_singleton
      del: upt_Suc)

lemma publishes_on_connect:
  "publishes (on_connect cfg rc) =
     concat (map (\<lambda>house. map (\<lambda>unit. Publish (discovery_topic_of cfg house unit)
                                 (json_dumps (discovery_config cfg house unit)) True) [1 ..< 17])
                 (discoveryhouses cfg))"
  by (simp add: on_connect_def publishes_concat o_def publishes_announce_house)

lemma length_publishes_on_connect:
  "length (publishes (on_connect cfg rc)) = 16 * length (discoveryhouses cfg)"
  by (simp add: publishes_on_connect length_concat o_def sum_list_triv del: upt_Suc)

lemma runs_on_connect [simp]: "runs (on_connect cfg rc) = []"
proof -
  have "runs (announce_house cfg h) = []" for h
    by (simp add: announce_house_def ha_discovery_announce_def runs_def del: upt_Suc)
  then have "runs (concat (map (announce_house cfg) hs)) = []" for hs
    by (induction hs) simp_all
  then show ?thesis by (simp add: on_connect_def)
qed

section \<open>The topic of an announcement determines the device\<close>

lemma str_nat_inject [simp]: "str_nat m = str_nat n \<longleftrightarrow> m = n"
  by (metis nat_of_digits_str_nat)

lemma discovery_topic_inject:
  "discovery_topic_of cfg h u = discovery_topic_of cfg h' u'
     \<longleftrightarrow> lower_char h = lower_char h' \<and> u = u'"
  by (simp add: discovery_topic_of_def)

lemma concat_map_product:
  "concat (map (\<lambda>h. map (f h) us) hs) = map (\<lambda>(h, u). f h u) (List.product hs us)"
  by (induction hs) simp_all

lemma publish_topics_on_connect:
  "map publish_topic (publishes (on_connect cfg rc))
     = map (\<lambda>(h, u). discovery_topic_of cfg h u) (List.product (discoveryhouses cfg) [1 ..< 17])"
  by (simp add: publishes_on_connect map_concat o_def concat_map_product del: upt_Suc)

lemma discovery_topic_inj_on:
  "list_all (accepts house_letter) hs \<Longrightarrow>
   inj_on (\<lambda>(h, u). discovery_topic_of cfg h u) (set (List.product hs us))"
proof -
  assume "list_all (accepts house_letter) hs"
  then have "inj_on (\<lambda>(h, u). discovery_topic_of cfg h u) (set hs \<times> set us)"
    by (auto simp: inj_on_def discovery_topic_inject list_all_iff dest: house_letter_lower_inject)
  then show ?thesis by simp
qed

lemma unique_id_inj_on:
  "list_all (accepts house_letter) hs \<Longrightarrow>
   inj_on (\<lambda>(h, u). map_of (discovery_config cfg h u) ''unique_id'') (set (List.product hs us))"
proof -
  assume "list_all (accepts house_letter) hs"
  then have "inj_on (\<lambda>(h, u). map_of (discovery_config cfg h u) ''unique_id'') (set hs \<times> set us)"
    by (auto simp: inj_on_def discovery_config_def list_all_iff dest: house_letter_lower_inject)
  then show ?thesis by simp
qed

section \<open>Device codes\<close>

lemma unit_code_housecode:
  "accepts house_letter house \<Longrightarrow> is_housecode (py_upper (unit_code house unit))"
  using str_nat_digits [of unit]
  by (cases "str_nat unit")
     (auto simp: unit_code_def py_upper_def list_all_iff upper_char_fixes digit_not_letter
        house_letter_upper_fix)

lemma unit_code_no_slash:
  assumes "accepts house_letter house"
  shows "CHR ''/'' \<notin> set (unit_code house unit)"
proof
  assume "CHR ''/'' \<in> set (unit_code house unit)"
  then have "upper_char CHR ''/'' \<in> set (py_upper (unit_code house unit))"
    unfolding py_upper_def by (metis imageI set_map)
  with is_housecode_no_slash [OF unit_code_housecode [OF assms, of unit]] show False
    by (simp add: char_eval)
qed

lemma unit_code_lower [simp]: "py_lower (unit_code house unit) = unit_code house unit"
  using str_nat_digits [of unit]
  by (auto simp: unit_code_def py_lower_def lower_char_fixes digit_not_letter intro!: map_idI)

lemma descriptor_topics:
  "map_of (discovery_config cfg house unit) ''command_topic''
     = Some (cmdtopic cfg @ ''/'' @ unit_code house unit)"
  "map_of (discovery_config cfg house unit) ''state_topic''
     = Some (stattopic cfg @ ''/'' @ unit_code house unit)"
  by (simp_all add: discovery_config_def unit_code_def)

section \<open>JSON text is printable ASCII\<close>

lemma hex_digit_printable: "d < 16 \<Longrightarrow> printable (hex_digit d)"
  by (simp add: printable_def hex_digit_def in_range_def of_char_of)

lemma json_escape_printable: "list_all printable (json_escape_char c)"
  by (simp add: json_escape_char_def hex2_def hex_digit_printable)
     (simp add: printable_def in_range_def backslash_def dquote_def)

lemma json_string_printable: "list_all printable (json_string s)"
proof -
  have "printable dquote"
    by (simp add: printable_def in_range_def dquote_def)
  with json_escape_printable show ?thesis
    by (auto simp: json_string_def list_all_iff)
qed

lemma py_join_str_all:
  "list_all P sep \<Longrightarrow> \<forall>s \<in> set ss. list_all P s \<Longrightarrow> list_all P (py_join_str sep ss)"
  by (induction sep ss rule: py_join_str.induct) simp_all

lemma json_dumps_printable: "list_all printable (json_dumps kvs)"
proof -
  have "list_all printable (json_string k @ '': '' @ json_string v)" for k v
    by (simp add: json_string_printable) (simp add: printable_def in_range_def)
  then have "list_all printable (py_join_str '', ''
      (map (\<lambda>(k, v). json_string k @ '': '' @ json_string v) kvs))"
    by (intro py_join_str_all) (auto simp: printable_def in_range_def)
  then show ?thesis
    by (simp add: json_dumps_def) (simp add: printable_def in_range_def)
qed

section \<open>Properties of the announcer and the connect callback\<close>

text \<open>
  C8. On every connect the gateway publishes one retained descriptor for each
  unit 1 to 16 of each configured house, in the order of the configuration and
  of the units, and nothing else: 16 messages per configured house.
\<close>

theorem on_connect_announces_every_unit:
  "publishes (on_connect cfg rc) =
     concat (map (\<lambda>house. map (\<lambda>unit. Publish (discovery_topic_of cfg house unit)
                                 (json_dumps (discovery_config cfg house unit)) True) [1 ..< 17])
                 (discoveryhouses cfg))
   \<and> length (publishes (on_connect cfg rc)) = 16 * length (discoveryhouses cfg)"
  by (simp only: publishes_on_connect length_publishes_on_connect [unfolded publishes_on_connect])

text \<open>
  C9. Distinct devices are announced apart: when the configured houses are
  distinct house letters, no two of the messages published on connect share a
  topic, so no announcement replaces another at the broker, and no two
  descriptors share their \<^verbatim>\<open>unique_id\<close>.
\<close>

theorem announcements_have_distinct_topics:
  assumes "distinct (discoveryhouses cfg)"
    and "list_all (accepts house_letter) (discoveryhouses cfg)"
  shows "distinct (map publish_topic (publishes (on_connect cfg rc)))
       \<and> distinct (map (\<lambda>(h, u). map_of (discovery_config cfg h u) ''unique_id'')
                      (List.product (discoveryhouses cfg) [1 ..< 17]))"
  using assms discovery_topic_inj_on [of "discoveryhouses cfg" cfg "[1 ..< 17]"]
    unique_id_inj_on [of "discoveryhouses cfg" cfg "[1 ..< 17]"]
  by (simp add: publish_topics_on_connect distinct_map distinct_product del: upt_Suc set_product)

theorem announcements_have_distinct_topics_witness:
  "distinct (map publish_topic (publishes (on_connect (demo_config\<lparr>discoveryhouses := ''AB''\<rparr>) 0)))
   \<and> distinct (map (\<lambda>(h, u). map_of (discovery_config (demo_config\<lparr>discoveryhouses := ''AB''\<rparr>) h u)
                           ''unique_id'')
                  (List.product ''AB'' [1 ..< 17]))
   \<and> length (publishes (on_connect (demo_config\<lparr>discoveryhouses := ''AB''\<rparr>) 0)) = 32"
  using announcements_have_distinct_topics [of "demo_config\<lparr>discoveryhouses := ''AB''\<rparr>" 0]
  by (simp add: length_publishes_on_connect house_letter_def char_eval del: upt_Suc)

end
