(* ===== verification/Startup.thy ===== *)
theory Startup
  imports Config Monitor
begin

text \<open>
  The main program of \<^verbatim>\<open>src/x10mqtt.py\<close> as the main thread runs it: the start-up
  sequence of lines 243 to 267 as \<open>startup\<close>, and the whole run, from the reading
  of the environment to the end of the monitor loop, as \<open>gateway_main\<close>. Whether
  \<^verbatim>\<open>client.connect\<close> succeeds and what \<^verbatim>\<open>heyu monitor\<close> does are arguments. The
  creation of the client object and the registration of the two callbacks
  (lines 244 to 246) have no effect outside the script and leave no trace here;
  what the callbacks do once \<^verbatim>\<open>loop_start\<close> has started the client's thread is
  the subject of the theories \<open>Router\<close> and \<open>Discovery\<close>.
\<close>

section \<open>Definitions\<close>

text \<open>Lines 243 to 267. Any exception of \<^verbatim>\<open>client.connect\<close> ends the script with status 1.\<close>

definition startup :: "config \<Rightarrow> bool \<Rightarrow> unit outcome" where
  "startup cfg connected =
     (let establishing =
            [Print (''Establishing MQTT to '' @ broker cfg @ '' port '' @ str_int (port cfg) @ ''...'')];
          credentials =
            (if mqttuser cfg \<noteq> [] \<and> mqttpass cfg \<noteq> []
             then [Print (''(Using MQTT username '' @ mqttuser cfg @ '')''),
                   UsernamePwSet (mqttuser cfg) (mqttpass cfg)]
             else []);
          connect = [Connect (broker cfg) (port cfg)]
      in if \<not> connected
         then (establishing @ credentials @ connect
               @ [Print ''Connection failed. Make sure broker, port, and user is defined correctly''],
               Inl (SystemExit 1))
         else (establishing @ credentials @ connect
               @ (if cm17 cfg then [Print ''CM17 is in use''] else [])
               @ [Print ''Waiting for MQTT messages and monitoring for remote changes'', LoopStart],
               Inr ()))"

text \<open>
  The script from its first line to its last, in the main thread: read the
  configuration (lines 28 to 101), start up (lines 243 to 267), then run the
  monitor loop from the initial state (lines 274 to 287).
\<close>

definition gateway_main :: "environ \<Rightarrow> bool \<Rightarrow> monitor_run \<Rightarrow> gw_state outcome" where
  "gateway_main env connected mon =
     (case load_config env of
        (effs, Inl err) \<Rightarrow> (effs, Inl err)
      | (effs, Inr cfg) \<Rightarrow>
          (case startup cfg connected of
             (effs', Inl err) \<Rightarrow> (effs @ effs', Inl err)
           | (effs', Inr u) \<Rightarrow>
               (case monitor_main cfg mon init_state of
                  (effs'', res) \<Rightarrow> (effs @ effs' @ effs'', res))))"

lemmas startup_defs [gw_defs] = startup_def gateway_main_def

section \<open>The start-up sequence\<close>

lemma startup_failed:
  "snd (startup cfg False) = Inl (SystemExit 1)"
  by (simp add: startup_def Let_def)

lemma startup_connected:
  "snd (startup cfg True) = Inr ()"
  by (simp add: startup_def Let_def)

lemma startup_result: "snd (startup cfg connected) = (if connected then Inr () else Inl (SystemExit 1))"
  by (simp add: startup_def Let_def)

lemma publishes_startup [simp]: "publishes (fst (startup cfg connected)) = []"
  by (simp add: startup_def Let_def)

lemma runs_startup [simp]: "runs (fst (startup cfg connected)) = []"
  by (simp add: startup_def Let_def)

lemma Popen_notin_startup [simp]: "Popen argv \<notin> set (fst (startup cfg connected))"
  by (simp add: startup_def Let_def)

section \<open>What the monitor loop does to the outside\<close>

lemma Popen_notin_monitor_loop [simp]: "Popen argv \<notin> set (fst (monitor_loop cfg lines st))"
  by (auto dest: monitor_loop_effects)

lemma Popen_in_monitor_main:
  "Popen argv \<in> set (fst (monitor_main cfg mon st)) \<longleftrightarrow> argv = [''heyu'', ''monitor'']"
  by (cases mon) (auto simp: monitor_main_Monitored monitor_main_NotStarted)

lemma load_config_effects:
  "e \<in> set (fst (load_config env)) \<Longrightarrow> is_print e"
  by (auto simp: load_config_def split: option.splits)

lemma Popen_notin_load_config [simp]: "Popen argv \<notin> set (fst (load_config env))"
  by (auto dest: load_config_effects)

section \<open>The whole run, case by case\<close>

lemma load_config_result:
  "(\<exists>cfg. snd (load_config env) = Inr cfg)
     \<longleftrightarrow> env ''MQTT_HOST'' \<noteq> None \<and> Option.bind (env ''MQTT_PORT'') py_int \<noteq> None"
  by (auto simp: load_config_def split: option.splits)

lemma gateway_main_no_config:
  "load_config env = (effs, Inl err) \<Longrightarrow> gateway_main env connected mon = (effs, Inl err)"
  by (simp add: gateway_main_def)

lemma gateway_main_not_connected:
  "load_config env = (effs, Inr cfg) \<Longrightarrow>
   gateway_main env False mon = (effs @ fst (startup cfg False), Inl (SystemExit 1))"
  by (simp add: gateway_main_def startup_def Let_def)

lemma gateway_main_connected:
  "load_config env = (effs, Inr cfg) \<Longrightarrow>
   gateway_main env True mon =
     (effs @ fst (startup cfg True) @ fst (monitor_main cfg mon init_state),
      snd (monitor_main cfg mon init_state))"
  by (simp add: gateway_main_def startup_def Let_def split: prod.splits)

lemmas gateway_main_cases =
  gateway_main_no_config gateway_main_not_connected gateway_main_connected

section \<open>Credentials\<close>

text \<open>
  Credentials are handed to the client exactly when both the user name and the
  password are not empty; a user name without a password is not used.
\<close>

lemma credentials_need_user_and_password:
  "UsernamePwSet u p \<in> set (fst (startup cfg connected))
     \<longleftrightarrow> u = mqttuser cfg \<and> p = mqttpass cfg \<and> mqttuser cfg \<noteq> [] \<and> mqttpass cfg \<noteq> []"
  by (auto simp: startup_def Let_def)

section \<open>Properties of the start-up sequence\<close>

text \<open>
  C32. A failed connection is fatal: the start-up sequence always attempts the
  connection to the configured broker and port; it ends with exit status 1
  exactly when the connection fails, and the client's loop is started exactly
  when the connection succeeds. Apart from what it prints, the sequence
  performs exactly these calls on the client: it sets the credentials if and
  only if both the user name and the password are not empty, it connects, and
  it starts the loop once connected.
\<close>

theorem startup_connection_failure_is_fatal:
  "snd (startup cfg connected) = (if connected then Inr () else Inl (SystemExit 1))
   \<and> (LoopStart \<in> set (fst (startup cfg connected)) \<longleftrightarrow> connected)
   \<and> filter (\<lambda>e. \<not> is_print e) (fst (startup cfg connected))
       = (if mqttuser cfg \<noteq> [] \<and> mqttpass cfg \<noteq> []
          then [UsernamePwSet (mqttuser cfg) (mqttpass cfg)] else [])
         @ [Connect (broker cfg) (port cfg)] @ (if connected then [LoopStart] else [])"
  by (simp add: startup_def Let_def)

end
