(* ===== verification/Flows.thy ===== *)
theory Flows
  imports Router Monitor Discovery
begin

text \<open>
  The two flows of \<^verbatim>\<open>src/x10mqtt.py\<close> running side by side. After \<^verbatim>\<open>loop_start\<close>
  (line 267) the client's thread calls the callbacks registered on lines 245
  and 246, \<^verbatim>\<open>on_connect\<close> for every connection acknowledgement and \<^verbatim>\<open>on_message\<close>
  for every message received, while the main thread runs the body of the
  monitor loop for every line of \<^verbatim>\<open>heyu monitor\<close>.

  \<open>gw_step\<close> is the transition relation of the running gateway, one transition
  per handler call, and \<open>reachable\<close> the states it reaches from the initial
  state; a state is the pending address together with everything done so far.
  \<open>run_events\<close> is the same as a function on a list of events. A transition is
  possible after a callback raised an exception, whether or not the client
  library keeps dispatching then, so the reachable states include those of
  either behaviour and every invariant holds for both.

  Within one handler call the effects of the other thread may fall between its
  effects: the traces of two effect lists are their \<open>shuffles\<close>.

  The invariants are that the pending address is a house code, that what is
  published is a state update or an announcement (\<open>gw_publish\<close>) and that what
  is run is a heyu command (\<open>is_heyu_command\<close>); the last sections bound how
  much the gateway does by what it receives.
\<close>

section \<open>Events and transitions\<close>

datatype client_event = ConnAck int | Incoming message run_result

datatype gw_event = MonitorLine string | Client client_event

text \<open>Lines 245 and 246: which callback the client calls for which event.\<close>

fun on_event :: "config \<Rightarrow> client_event \<Rightarrow> unit outcome" where
  "on_event cfg (ConnAck rc) = (on_connect cfg rc, Inr ())"
| "on_event cfg (Incoming msg res) = on_message cfg res msg"

type_synonym sys_state = "gw_state \<times> effect list"

inductive gw_step :: "config \<Rightarrow> sys_state \<Rightarrow> gw_event \<Rightarrow> sys_state \<Rightarrow> bool" for cfg where
  line_step:
    "monitor_step cfg line st = (effs, st') \<Longrightarrow>
     gw_step cfg (st, tr) (MonitorLine line) (st', tr @ effs)"
| client_step:
    "on_event cfg e = (effs, res) \<Longrightarrow>
     gw_step cfg (st, tr) (Client e) (st, tr @ effs)"

inductive reachable :: "config \<Rightarrow> sys_state \<Rightarrow> bool" for cfg where
  reach_init: "reachable cfg (init_state, [])"
| reach_step: "reachable cfg s \<Longrightarrow> gw_step cfg s e s' \<Longrightarrow> reachable cfg s'"

inductive_cases gw_step_lineE [elim!]: "gw_step cfg s (MonitorLine line) s'"
inductive_cases gw_step_clientE [elim!]: "gw_step cfg s (Client e) s'"

code_pred gw_step .

text \<open>The transitions as a function: the effects of a list of events, and the state after it.\<close>

fun run_events :: "config \<Rightarrow> gw_event list \<Rightarrow> gw_state \<Rightarrow> effect list \<times> gw_state" where
  "run_events cfg [] st = ([], st)"
| "run_events cfg (MonitorLine line # es) st =
     (case monitor_step cfg line st of
        (effs, st') \<Rightarrow> (case run_events cfg es st' of (effs', st'') \<Rightarrow> (effs @ effs', st'')))"
| "run_events cfg (Client e # es) st =
     (case run_events cfg es st of (effs', st') \<Rightarrow> (fst (on_event cfg e) @ effs', st'))"

text \<open>What each flow sees of a list of events, and what the client's thread does for its part.\<close>

fun lines_of :: "gw_event list \<Rightarrow> string list" where
  "lines_of [] = []"
| "lines_of (MonitorLine line # es) = line # lines_of es"
| "lines_of (Client e # es) = lines_of es"

fun client_of :: "gw_event list \<Rightarrow> client_event list" where
  "client_of [] = []"
| "client_of (MonitorLine line # es) = client_of es"
| "client_of (Client e # es) = e # client_of es"

definition client_effects :: "config \<Rightarrow> client_event list \<Rightarrow> effect list" where
  "client_effects cfg ces = concat (map (\<lambda>e. fst (on_event cfg e)) ces)"

fun is_connack :: "client_event \<Rightarrow> bool" where
  "is_connack (ConnAck rc) = True"
| "is_connack (Incoming msg res) = False"

fun is_incoming :: "client_event \<Rightarrow> bool" where
  "is_incoming (ConnAck rc) = False"
| "is_incoming (Incoming msg res) = True"

text \<open>
  The messages the gateway may publish: a state update, retained \<^verbatim>\<open>ON\<close> or \<^verbatim>\<open>OFF\<close>
  on the state topic of a device in lower case, where the device is what the
  pattern of line 214 accepts; or one of the announcements of the configuration.
\<close>

fun is_state_update :: "config \<Rightarrow> effect \<Rightarrow> bool" where
  "is_state_update cfg (Publish t p r) =
     (r \<and> (p = ''ON'' \<or> p = ''OFF'')
      \<and> prefix (stattopic cfg @ ''/'') t
      \<and> re_match hcpattern (py_upper (drop (Suc (length (stattopic cfg))) t)) \<noteq> None
      \<and> py_lower (drop (Suc (length (stattopic cfg))) t) = drop (Suc (length (stattopic cfg))) t)"
| "is_state_update cfg e = False"

definition is_announcement :: "config \<Rightarrow> effect \<Rightarrow> bool" where
  "is_announcement cfg e \<longleftrightarrow>
     e \<in> set (concat (map (\<lambda>house. map (\<lambda>unit. Publish (discovery_topic_of cfg house unit)
                                           (json_dumps (discovery_config cfg house unit)) True)
                                  [1 ..< 17])
                     (discoveryhouses cfg)))"

definition gw_publish :: "config \<Rightarrow> effect \<Rightarrow> bool" where
  "gw_publish cfg e \<longleftrightarrow> is_state_update cfg e \<or> is_announcement cfg e"

text \<open>
  The processes the gateway may run for a command: \<^verbatim>\<open>heyu\<close> with one of the two
  actions of the controller in use and a device in lower case that the pattern
  of line 214 accepts.
\<close>

fun is_heyu_command :: "config \<Rightarrow> effect \<Rightarrow> bool" where
  "is_heyu_command cfg (Run argv) =
     (case argv of
        [prog, action, hc] \<Rightarrow>
          prog = ''heyu''
          \<and> action \<in> set (if cm17 cfg then [''fon'', ''foff''] else [''on'', ''off''])
          \<and> re_match hcpattern (py_upper hc) \<noteq> None \<and> py_lower hc = hc
      | _ \<Rightarrow> False)"
| "is_heyu_command cfg e = False"

section \<open>The function and the relation agree\<close>

lemma run_events_Cons:
  "run_events cfg (MonitorLine line # es) st =
     (fst (monitor_step cfg line st) @ fst (run_events cfg es (snd (monitor_step cfg line st))),
      snd (run_events cfg es (snd (monitor_step cfg line st))))"
  "run_events cfg (Client e # es) st =
     (fst (on_event cfg e) @ fst (run_events cfg es st), snd (run_events cfg es st))"
  by (simp_all split: prod.splits)

lemmas run_events_unfold = run_events.simps(1) run_events_Cons

lemma run_events_append:
  "run_events cfg (es @ es') st =
     (fst (run_events cfg es st) @ fst (run_events cfg es' (snd (run_events cfg es st))),
      snd (run_events cfg es' (snd (run_events cfg es st))))"
proof (induction es arbitrary: st)
  case Nil
  show ?case by simp
next
  case (Cons e es)
  then show ?case
    by (cases e) (simp_all add: run_events_Cons del: run_events.simps(2,3))
qed

lemma gw_step_line:
  "gw_step cfg (st, tr) (MonitorLine line) s'
     \<longleftrightarrow> s' = (snd (monitor_step cfg line st), tr @ fst (monitor_step cfg line st))"
  by (auto intro: line_step)

lemma gw_step_client:
  "gw_step cfg (st, tr) (Client e) s' \<longleftrightarrow> s' = (st, tr @ fst (on_event cfg e))"
proof
  assume "gw_step cfg (st, tr) (Client e) s'"
  then show "s' = (st, tr @ fst (on_event cfg e))"
    by auto
next
  assume "s' = (st, tr @ fst (on_event cfg e))"
  then show "gw_step cfg (st, tr) (Client e) s'"
    by (simp add: client_step [OF prod.collapse [symmetric]])
qed

lemma gw_step_run:
  "gw_step cfg (st, tr) e s' \<longleftrightarrow>
     s' = (snd (run_events cfg [e] st), tr @ fst (run_events cfg [e] st))"
  by (cases e) (simp_all add: gw_step_line gw_step_client run_events_Cons del: run_events.simps(2,3))

lemma reachable_run:
  "reachable cfg (snd (run_events cfg es init_state), fst (run_events cfg es init_state))"
proof (induction es rule: rev_induct)
  case Nil
  show ?case by (simp add: reach_init)
next
  case (snoc e es)
  then show ?case
    by (rule reach_step [where e = e]) (simp add: gw_step_run run_events_append)
qed

lemma reachable_is_run:
  "reachable cfg s \<Longrightarrow>
   \<exists>es. s = (snd (run_events cfg es init_state), fst (run_events cfg es init_state))"
proof (induction rule: reachable.induct)
  case reach_init
  show ?case by (rule exI [of _ "[]"]) simp
next
  case (reach_step s e s')
  then obtain es
    where s: "s = (snd (run_events cfg es init_state), fst (run_events cfg es init_state))"
    by blast
  with reach_step.hyps(2) show ?case
    by (intro exI [of _ "es @ [e]"]) (simp add: gw_step_run run_events_append)
qed

lemma reachable_iff_run:
  "reachable cfg (st, tr) \<longleftrightarrow> (\<exists>es. run_events cfg es init_state = (tr, st))"
proof
  assume "reachable cfg (st, tr)"
  from reachable_is_run [OF this] show "\<exists>es. run_events cfg es init_state = (tr, st)"
    by (metis prod.collapse prod.inject)
next
  assume "\<exists>es. run_events cfg es init_state = (tr, st)"
  then obtain es where "run_events cfg es init_state = (tr, st)" ..
  with reachable_run [of cfg es] show "reachable cfg (st, tr)"
    by simp
qed

section \<open>Each flow on its own\<close>

lemma run_events_state: "snd (run_events cfg es st) = snd (monitor_loop cfg (lines_of es) st)"
proof (induction es arbitrary: st)
  case Nil
  show ?case by simp
next
  case (Cons e es)
  then show ?case
    by (cases e)
       (simp_all add: run_events_Cons monitor_loop_Cons del: run_events.simps(2,3) monitor_loop.simps(2))
qed

lemma append_in_shuffles_left:
  "zs \<in> shuffles xs ys \<Longrightarrow> as @ zs \<in> shuffles (as @ xs) ys"
  by (induction as) (simp_all add: Cons_in_shuffles_leftI)

lemma append_in_shuffles_right:
  "zs \<in> shuffles xs ys \<Longrightarrow> as @ zs \<in> shuffles xs (as @ ys)"
  by (induction as) (simp_all add: Cons_in_shuffles_rightI)

lemma run_events_shuffles:
  "fst (run_events cfg es st)
     \<in> shuffles (fst (monitor_loop cfg (lines_of es) st)) (client_effects cfg (client_of es))"
proof (induction es arbitrary: st)
  case Nil
  show ?case by (simp add: client_effects_def)
next
  case (Cons e es)
  then show ?case
    by (cases e)
       (simp_all add: run_events_Cons monitor_loop_Cons client_effects_def
          append_in_shuffles_left append_in_shuffles_right
          del: run_events.simps(2,3) monitor_loop.simps(2))
qed


section \<open>What is published\<close>

lemma state_update_ok:
  "re_match hcpattern (py_upper hc) \<noteq> None \<Longrightarrow> p = ''ON'' \<or> p = ''OFF'' \<Longrightarrow>
   is_state_update cfg (Publish (stattopic cfg @ ''/'' @ py_lower hc) p True)"
  by auto

lemma hcpattern_housecode: "is_housecode h \<Longrightarrow> re_match hcpattern h \<noteq> None"
  unfolding hcpattern_accepts by simp

lemma stat_publish_is_state_update: "is_stat_publish cfg e \<Longrightarrow> is_state_update cfg e"
  by (cases e) (auto simp: hcpattern_housecode simp del: not_None_eq)

lemma monitor_step_publishes_ok:
  assumes "state_ok st"
  shows "list_all (gw_publish cfg) (publishes (fst (monitor_step cfg line st)))"
proof -
  have "list_all (is_stat_publish cfg) (publishes (fst (monitor_step cfg line st)))"
    using monitor_step_refines [of cfg line st] assms
    by (auto simp: state_ok_def abs_state_def intro!: stat_publishes_sm_run
        dest: events_of_line_address)
  then show ?thesis
    by (auto simp: list_all_iff gw_publish_def dest: stat_publish_is_state_update)
qed

lemma on_message_publishes_ok:
  "list_all (gw_publish cfg) (publishes (fst (on_message cfg res msg)))"
proof (cases "payload msg")
  case Undecodable
  then show ?thesis by (simp add: on_message_Undecodable)
next
  case (Decoded body)
  show ?thesis
  proof (cases "valid_command (command_of body) (hc_of_topic (topic msg))")
    case False
    with Decoded show ?thesis by (simp add: on_message_invalid)
  next
    case True
    then have "is_state_update cfg
        (Publish (stattopic cfg @ ''/'' @ py_lower (hc_of_topic (topic msg)))
           (py_upper (command_of body)) True)"
      by (intro state_update_ok) (simp_all add: valid_command_def hc_of_topic_def command_of_def)
    with Decoded True show ?thesis
      by (cases res)
         (simp_all add: on_message_valid execute_def stat_topic_of_def gw_publish_def
            del: is_state_update.simps)
  qed
qed

lemma on_connect_publishes_ok: "list_all (gw_publish cfg) (publishes (on_connect cfg rc))"
  by (simp add: list_all_iff gw_publish_def is_announcement_def publishes_on_connect del: upt_Suc)

lemma on_event_publishes_ok: "list_all (gw_publish cfg) (publishes (fst (on_event cfg e)))"
  by (cases e) (simp_all add: on_message_publishes_ok on_connect_publishes_ok)

lemma client_effects_publishes_ok: "list_all (gw_publish cfg) (publishes (client_effects cfg ces))"
  by (induction ces) (simp_all add: client_effects_def on_event_publishes_ok)

lemma monitor_loop_publishes_ok:
  "state_ok st \<Longrightarrow> list_all (gw_publish cfg) (publishes (fst (monitor_loop cfg lines st)))"
proof (induction lines arbitrary: st)
  case Nil
  show ?case by simp
next
  case (Cons line lines)
  from Cons.prems have "state_ok (snd (monitor_step cfg line st))"
    by (rule state_ok_monitor_step)
  with Cons show ?case
    by (simp add: monitor_loop_Cons monitor_step_publishes_ok del: monitor_loop.simps(2))
qed

section \<open>What is run\<close>

lemma heyu_command_ok:
  assumes "re_match hcpattern (py_upper hc) \<noteq> None" and "c = ''ON'' \<or> c = ''OFF''"
  shows "is_heyu_command cfg (Run (heyu_argv cfg c hc))"
  using assms by (auto simp: heyu_argv_def heyu_action_ON char_eval simp del: not_None_eq)

lemma runs_monitor_step [simp]: "runs (fst (monitor_step cfg line st)) = []"
  using runs_monitor_loop [of cfg "[line]" st] by (simp add: monitor_loop_Cons del: runs_monitor_loop)

lemma on_message_runs_ok:
  "list_all (is_heyu_command cfg) (runs (fst (on_message cfg res msg)))"
proof (cases "payload msg")
  case Undecodable
  then show ?thesis by (simp add: on_message_Undecodable)
next
  case (Decoded body)
  show ?thesis
  proof (cases "valid_command (command_of body) (hc_of_topic (topic msg))")
    case False
    with Decoded show ?thesis by (simp add: on_message_invalid)
  next
    case True
    then have "is_heyu_command cfg (Run (heyu_argv cfg (command_of body) (hc_of_topic (topic msg))))"
      by (intro heyu_command_ok) (simp_all add: valid_command_def hc_of_topic_def)
    with Decoded True show ?thesis
      by (simp add: on_message_valid runs_execute del: is_heyu_command.simps)
  qed
qed

lemma on_event_runs_ok: "list_all (is_heyu_command cfg) (runs (fst (on_event cfg e)))"
  by (cases e) (simp_all add: on_message_runs_ok)

section \<open>Invariants of the running gateway\<close>

lemma reachable_state_ok: "reachable cfg s \<Longrightarrow> state_ok (fst s)"
proof (induction rule: reachable.induct)
  case reach_init
  show ?case by simp
next
  case (reach_step s e s')
  then show ?case
    by (cases s; cases e) (auto simp: gw_step_line gw_step_client state_ok_monitor_step)
qed

lemma reachable_publishes_ok: "reachable cfg s \<Longrightarrow> list_all (gw_publish cfg) (publishes (snd s))"
proof (induction rule: reachable.induct)
  case reach_init
  show ?case by simp
next
  case (reach_step s e s')
  from reach_step.hyps(1) have "state_ok (fst s)"
    by (rule reachable_state_ok)
  with reach_step.hyps(2) reach_step.IH show ?case
    by (cases s; cases e)
       (auto simp: gw_step_line gw_step_client monitor_step_publishes_ok on_event_publishes_ok)
qed

lemma reachable_runs_ok: "reachable cfg s \<Longrightarrow> list_all (is_heyu_command cfg) (runs (snd s))"
proof (induction rule: reachable.induct)
  case reach_init
  show ?case by simp
next
  case (reach_step s e s')
  then show ?case
    by (cases s; cases e) (auto simp: gw_step_line gw_step_client on_event_runs_ok)
qed

section \<open>How much the gateway does\<close>

lemma client_effects_Cons:
  "client_effects cfg (e # ces) = fst (on_event cfg e) @ client_effects cfg ces"
  by (simp add: client_effects_def)

lemma on_event_runs_bound:
  "length (runs (fst (on_event cfg e))) \<le> (if is_incoming e then 1 else 0)"
  using on_message_bound by (cases e) simp_all

lemma on_event_publishes_bound:
  "length (publishes (fst (on_event cfg e)))
     \<le> (if is_incoming e then 1 else 16 * length (discoveryhouses cfg))"
  using on_message_bound by (cases e) (simp_all add: length_publishes_on_connect)

lemma client_effects_runs_bound:
  "length (runs (client_effects cfg ces)) \<le> length (filter is_incoming ces)"
proof (induction ces)
  case Nil
  show ?case by (simp add: client_effects_def)
next
  case (Cons e ces)
  with on_event_runs_bound [of cfg e] show ?case
    by (auto simp: client_effects_Cons)
qed

lemma client_effects_publishes_bound:
  "length (publishes (client_effects cfg ces))
     \<le> length (filter is_incoming ces)
       + 16 * length (discoveryhouses cfg) * length (filter is_connack ces)"
proof (induction ces)
  case Nil
  show ?case by (simp add: client_effects_def)
next
  case (Cons e ces)
  with on_event_publishes_bound [of cfg e] show ?case
    by (cases e) (auto simp: client_effects_Cons)
qed

lemma length_filter_shuffles:
  assumes "zs \<in> shuffles xs ys"
  shows "length (filter P zs) = length (filter P xs) + length (filter P ys)"
proof -
  from assms have "filter P zs \<in> filter P ` shuffles xs ys"
    by (rule imageI)
  then have "filter P zs \<in> shuffles (filter P xs) (filter P ys)"
    by (simp add: filter_shuffles)
  then show ?thesis by (rule length_shuffles)
qed

lemmas run_events_count =
  length_filter_shuffles [OF run_events_shuffles, of is_run, folded runs_def]
  length_filter_shuffles [OF run_events_shuffles, of is_publish, folded publishes_def]

section \<open>Properties of the two flows together\<close>

text \<open>
  C10. In every state the running gateway can reach, whatever lines the
  monitor prints and whatever the broker delivers, in any order, the pending
  address is empty or a house code; everything published so far is retained
  and is either a state update (\<^verbatim>\<open>ON\<close> or \<^verbatim>\<open>OFF\<close> on the state topic of a device
  the validation accepts, in lower case) or one of the discovery announcements
  of the configuration; and every process run for a command is \<^verbatim>\<open>heyu\<close> with an
  action of the controller in use and a device the validation accepts, in
  lower case, so no other text of a message reaches the command line.
\<close>

theorem reachable_effects_wellformed:
  assumes "reachable cfg (st, tr)"
  shows "state_ok st \<and> list_all (gw_publish cfg) (publishes tr)
       \<and> list_all (is_heyu_command cfg) (runs tr)"
  using reachable_state_ok [OF assms] reachable_publishes_ok [OF assms]
    reachable_runs_ok [OF assms]
  by simp

theorem reachable_effects_wellformed_witness:
  "state_ok (snd (run_events demo_config
        [MonitorLine addr_A1, Client (ConnAck 0),
         Client (Incoming \<lparr>topic = ''x10/cmd/b2'', payload = Decoded ''on''\<rparr> (Exited 0)),
         MonitorLine func_On] init_state))
   \<and> list_all (gw_publish demo_config)
     (publishes (fst (run_events demo_config
        [MonitorLine addr_A1, Client (ConnAck 0),
         Client (Incoming \<lparr>topic = ''x10/cmd/b2'', payload = Decoded ''on''\<rparr> (Exited 0)),
         MonitorLine func_On] init_state)))
   \<and> list_all (is_heyu_command demo_config)
     (runs (fst (run_events demo_config
        [MonitorLine addr_A1, Client (ConnAck 0),
         Client (Incoming \<lparr>topic = ''x10/cmd/b2'', payload = Decoded ''on''\<rparr> (Exited 0)),
         MonitorLine func_On] init_state)))"
  using reachable_effects_wellformed
    [OF reachable_run [of demo_config
        "[MonitorLine addr_A1, Client (ConnAck 0),
          Client (Incoming \<lparr>topic = ''x10/cmd/b2'', payload = Decoded ''on''\<rparr> (Exited 0)),
          MonitorLine func_On]"]]
  by simp

text \<open>
  C38. What the gateway does is bounded by what it receives. After any
  sequence of events heyu has been invoked at most once per message received;
  and the number of messages published is at most one per message received,
  sixteen per announced house and connection acknowledgement, and one per line
  that matches the function pattern, or per line that matches the address
  pattern and the address pending at the start, whichever is less.
\<close>

theorem gateway_effects_bounded:
  "length (runs (fst (run_events cfg evs st))) \<le> length (filter is_incoming (client_of evs))
   \<and> length (publishes (fst (run_events cfg evs st)))
       \<le> min (length (filter (\<lambda>line. re_search rercvifunc line \<noteq> None) (lines_of evs)))
             (length (filter (\<lambda>line. re_search rercviaddr line \<noteq> None) (lines_of evs))
              + (if rcvihc st = [] then 0 else 1))
         + length (filter is_incoming (client_of evs))
         + 16 * length (discoveryhouses cfg) * length (filter is_connack (client_of evs))"
  using run_events_count [of cfg evs st]
    client_effects_runs_bound [of cfg "client_of evs"]
    client_effects_publishes_bound [of cfg "client_of evs"]
    monitor_loop_function_bound [of cfg "lines_of evs" st]
    monitor_loop_address_bound [of cfg "lines_of evs" st]
  by simp

text \<open>
  However the calls of the two threads fall between each other, the messages
  published are those of the two flows, each flow's in its own order, and
  every one of them is a state update or an announcement.
\<close>

lemma interleaved_publishes:
  assumes "tr \<in> shuffles (fst (monitor_loop cfg lines init_state)) (client_effects cfg ces)"
  shows "publishes tr \<in> shuffles (publishes (fst (monitor_loop cfg lines init_state)))
                                 (publishes (client_effects cfg ces))
       \<and> list_all (gw_publish cfg) (publishes tr)"
proof
  from assms have "filter is_publish tr \<in> filter is_publish `
      shuffles (fst (monitor_loop cfg lines init_state)) (client_effects cfg ces)"
    by (rule imageI)
  then show "publishes tr \<in> shuffles (publishes (fst (monitor_loop cfg lines init_state)))
      (publishes (client_effects cfg ces))"
    by (simp add: filter_shuffles publishes_def)
  from set_shuffles [OF this]
    monitor_loop_publishes_ok [OF state_ok_init, of cfg lines] client_effects_publishes_ok [of cfg ces]
  show "list_all (gw_publish cfg) (publishes tr)"
    by (auto simp: list_all_iff)
qed

end
