(* ===== verification/Recognition.thy ===== *)
theory Recognition
  imports Monitor
begin

text \<open>
  What the two patterns of lines 274 and 275 of \<^verbatim>\<open>src/x10mqtt.py\<close> do on lines of
  the shape \<^verbatim>\<open>heyu monitor\<close> prints, for every such line and not only for
  examples. The matcher is greedy and backtracks, so among the ways a pattern
  can match, \<^verbatim>\<open>search\<close> reports the one that starts leftmost and whose \<^verbatim>\<open>.+\<close> or
  \<^verbatim>\<open>.*\<close> is longest: the address pattern captures the last house code announced
  by \<^verbatim>\<open>hu\<close> on the line, the function pattern the last function name followed by
  a space and a colon.

  The first sections derive the head of \<open>run\<close> for a greedy repetition followed
  by a pattern that matches at one place only. The last section states the
  result for the lines of the monitor: \<open>events_of_line\<close> is the address event,
  or the function event, the line spells out.
\<close>


section \<open>The head of a greedy repetition\<close>

lemma concat_rev_upt_skip:
  assumes "lo \<le> m" and "m \<le> k" and "\<forall>n. m < n \<and> n \<le> k \<longrightarrow> f n = []"
  shows "concat (map f (rev [lo ..< Suc k])) = f m @ concat (map f (rev [lo ..< m]))"
  using assms(2,3)
proof (induction k)
  case 0
  with assms(1) show ?case by simp
next
  case (Suc k)
  show ?case
  proof (cases "m = Suc k")
    case True
    with assms(1) show ?thesis by simp
  next
    case False
    with Suc.prems have "m \<le> k" "f (Suc k) = []" "\<forall>n. m < n \<and> n \<le> k \<longrightarrow> f n = []"
      by auto
    with Suc.IH assms(1) show ?thesis by simp
  qed
qed

lemma concat_rev_upt_Nil:
  "\<forall>n. lo \<le> n \<and> n \<le> k \<longrightarrow> f n = [] \<Longrightarrow> concat (map f (rev [lo ..< Suc k])) = []"
  by (auto simp del: upt_Suc)

lemma run_Plus_Seq: "run (Seq (Plus a) r) st
    = concat (map (\<lambda>n. run r (adv n st)) (rev [1 ..< Suc (span a (rest st))]))"
  by (simp add: o_def del: upt_Suc)

lemma run_Star_Seq: "run (Seq (Star a) r) st
    = concat (map (\<lambda>n. run r (adv n st)) (rev [0 ..< Suc (span a (rest st))]))"
  by (simp add: o_def del: upt_Suc)

lemma span_Dot: "newline \<notin> set x \<Longrightarrow> length x \<le> span Dot (x @ b)"
  by (rule span_all) auto

text \<open>
  Greedy dot: if the continuation \<open>r\<close> of \<^verbatim>\<open>.+\<close> or \<^verbatim>\<open>.*\<close> matches after the
  newline-free text \<open>x\<close> and nowhere later, the first match is the one after \<open>x\<close>.
\<close>

lemma greedy_Plus_Dot:
  assumes "rest st = x @ b" and "x \<noteq> []" and "newline \<notin> set x"
    and "\<forall>n. length x < n \<longrightarrow> run r (adv n st) = []"
  shows "run (Seq (Plus Dot) r) st
    = run r (adv (length x) st) @ concat (map (\<lambda>n. run r (adv n st)) (rev [1 ..< length x]))"
  unfolding run_Plus_Seq using assms
  by (intro concat_rev_upt_skip) (auto simp: span_Dot Suc_le_eq)

lemma greedy_Star_Dot:
  assumes "rest st = x @ b" and "newline \<notin> set x"
    and "\<forall>n. length x < n \<longrightarrow> run r (adv n st) = []"
  shows "run (Seq (Star Dot) r) st
    = run r (adv (length x) st) @ concat (map (\<lambda>n. run r (adv n st)) (rev [0 ..< length x]))"
  unfolding run_Star_Seq using assms
  by (intro concat_rev_upt_skip) (auto simp: span_Dot)

lemma Plus_Dot_Nil:
  "\<forall>n. 1 \<le> n \<longrightarrow> run r (adv n st) = [] \<Longrightarrow> run (Seq (Plus Dot) r) st = []"
  unfolding run_Plus_Seq by (intro concat_rev_upt_Nil) auto

lemma Star_Dot_Nil:
  "\<forall>n. run r (adv n st) = [] \<Longrightarrow> run (Seq (Star Dot) r) st = []"
  unfolding run_Star_Seq by (intro concat_rev_upt_Nil) auto


section \<open>The keyword and the literal after it\<close>

definition bus_keywords :: "string list" where
  "bus_keywords = [''rcvi'', ''rcvt'', ''sndc'', ''snds'', ''sndm'', ''sndt'']"

lemma run_keyword:
  "run keyword st = (if \<exists>kw \<in> set bus_keywords. prefix kw (rest st) then [adv 4 st] else [])"
  by (auto simp: keyword_def bus_keywords_def prefix_def)

lemma run_keyword_Seq_Lit:
  "run (Seq keyword (Seq (Lit w) r)) st =
     (if (\<exists>kw \<in> set bus_keywords. prefix (kw @ w) (rest st)) then run r (adv (4 + length w) st) else [])"
proof -
  have "(\<exists>kw \<in> set bus_keywords. prefix (kw @ w) (rest st))
      \<longleftrightarrow> (\<exists>kw \<in> set bus_keywords. prefix kw (rest st)) \<and> prefix w (drop 4 (rest st))"
    by (auto simp: bus_keywords_def prefix_def)
  then show ?thesis
    by (simp add: run_keyword)
qed

section \<open>Where a house code is announced\<close>

text \<open>\<open>code_at t\<close>: the text \<open>t\<close> starts with \<^verbatim>\<open>hu\<close>, a space, a house letter and a digit.\<close>

definition code_at :: "string \<Rightarrow> bool" where
  "code_at t \<longleftrightarrow>
     prefix ''hu '' t
     \<and> (case drop 3 t of l # d # u \<Rightarrow> accepts house_letter l \<and> is_digit_c d | _ \<Rightarrow> False)"

definition no_code :: "string \<Rightarrow> bool" where
  "no_code t \<longleftrightarrow> list_all (\<lambda>u. \<not> code_at u) (suffixes t)"

abbreviation hu_group :: rx where
  "hu_group \<equiv> Seq (Lit ''hu '') (Group (Seq (Cls house_letter) (Plus digit)))"

lemma no_code_drop: "no_code t \<Longrightarrow> \<not> code_at (drop k t)"
  by (auto simp: no_code_def list_all_iff in_set_suffixes suffix_drop)

lemma code_at_hd: "code_at t \<Longrightarrow> t \<noteq> [] \<and> hd t = CHR ''h''"
  by (auto simp: code_at_def prefix_def)

lemma drop_Suc_Cons_eq: "drop n xs = c # cs \<Longrightarrow> drop (Suc n) xs = cs"
  by (metis drop_Suc list.sel(3) tl_drop)

lemma run_hu_group_code_at:
  assumes "run hu_group st \<noteq> []"
  shows "code_at (rest st)"
proof -
  from assms obtain m where "m \<in> set (run hu_group st)"
    by (metis last_in_set)
  then have "matches hu_group st m"
    by (simp only: run_iff_matches)
  then obtain c cs n where p: "prefix ''hu '' (rest st)"
    and d3: "drop (Suc (Suc (Suc 0))) (rest st) = c # cs"
    and c: "accepts house_letter c" and n: "0 < n"
      "n \<le> span digit (drop (Suc (Suc (Suc (Suc 0)))) (rest st))"
    by auto
  from n drop_Suc_Cons_eq [OF d3] obtain d u where "cs = d # u" and "is_digit_c d"
    by (cases cs) (auto split: if_splits)
  with p d3 c show ?thesis
    by (simp add: code_at_def numeral_3_eq_3)
qed

lemma run_hu_group_Nil: "\<not> code_at (rest st) \<Longrightarrow> run hu_group st = []"
  using run_hu_group_code_at by blast

lemma span_hd_stop: "t = [] \<or> \<not> accepts a (hd t) \<Longrightarrow> span a t = 0"
  by (cases t) auto

lemma span_stop: "\<forall>c \<in> set ds. accepts a c \<Longrightarrow> t = [] \<or> \<not> accepts a (hd t) \<Longrightarrow>
    span a (ds @ t) = length ds"
  by (induction ds) (simp_all add: span_hd_stop)

lemma rev_upt_hd: "lo \<le> k \<Longrightarrow> rev [lo ..< Suc k] = k # rev [lo ..< k]"
  by simp

lemma run_hu_group_hd:
  assumes "rest st = ''hu '' @ hc @ t" and "is_housecode hc" and "t = [] \<or> \<not> is_digit_c (hd t)"
  shows "\<exists>m ms. run hu_group st = m # ms \<and> group1 m = hc"
proof -
  from assms(2) obtain l ds where hc: "hc = l # ds" and l: "accepts house_letter l"
    and ds: "ds \<noteq> []" "\<forall>c \<in> set ds. accepts digit c"
    by (cases hc) (auto simp: list_all_iff)
  from ds assms(3) have span: "span digit (ds @ t) = length ds"
    by (intro span_stop) simp_all
  from ds(1) have "rev [1 ..< Suc (length ds)] = length ds # rev [1 ..< length ds]"
    by (intro rev_upt_hd) (simp add: Suc_le_eq)
  with assms(1) l show ?thesis
    by (simp add: hc span group1_def del: upt_Suc)
qed


section \<open>The address pattern on a line of the monitor\<close>

lemma housecode_no_h: "is_housecode hc \<Longrightarrow> CHR ''h'' \<notin> set hc"
  by (cases hc) (auto simp: list_all_iff house_letter_def char_defs)

lemma hd_drop_append: "k < length w \<Longrightarrow> hd (drop k (w @ t)) = w ! k"
  by (simp add: hd_drop_conv_nth nth_append)

lemma drop_append_ge: "length w \<le> k \<Longrightarrow> drop k (w @ t) = drop (k - length w) t"
  by simp

lemma no_code_inside:
  assumes "is_housecode hc" and "no_code t" and "0 < n"
  shows "\<not> code_at (drop n (''hu '' @ hc @ t))"
proof
  assume ca: "code_at (drop n (''hu '' @ hc @ t))"
  let ?w = "''u '' @ hc"
  from assms(3) have d: "drop n (''hu '' @ hc @ t) = drop (n - 1) (?w @ t)"
    by (cases n) simp_all
  show False
  proof (cases "n - 1 < length ?w")
    case True
    then have "hd (drop (n - 1) (?w @ t)) = ?w ! (n - 1)"
      by (rule hd_drop_append)
    moreover from True have "?w ! (n - 1) \<in> set ?w"
      by (intro nth_mem)
    moreover from assms(1) have "CHR ''h'' \<notin> set ?w"
      by (simp add: housecode_no_h)
    ultimately show False
      using code_at_hd [OF ca] d by (auto simp del: append.simps)
  next
    case False
    then have "length ?w \<le> n - 1"
      by simp
    then have "drop (n - 1) (?w @ t) = drop (n - 1 - length ?w) t"
      by (rule drop_append_ge)
    with ca d no_code_drop [OF assms(2)] show False
      by simp
  qed
qed

abbreviation addr_tail :: rx where
  "addr_tail \<equiv> Seq (Plus Dot) hu_group"

lemma addr_tail_hd:
  assumes "rest st = x @ ''hu '' @ hc @ t" and "x \<noteq> []" and "newline \<notin> set x"
    and "is_housecode hc" and "t = [] \<or> \<not> is_digit_c (hd t)" and "no_code t"
  shows "\<exists>m ms. run addr_tail st = m # ms \<and> group1 m = hc"
proof -
  have later: "\<forall>n. length x < n \<longrightarrow> run hu_group (adv n st) = []"
  proof (intro allI impI)
    fix n assume "length x < n"
    with assms(1) have "rest (adv n st) = drop (n - length x) (''hu '' @ hc @ t)"
      by simp
    with no_code_inside [OF assms(4,6), of "n - length x"] \<open>length x < n\<close>
    show "run hu_group (adv n st) = []"
      by (intro run_hu_group_Nil) simp
  qed
  from assms(1) have "rest (adv (length x) st) = ''hu '' @ hc @ t"
    by simp
  from run_hu_group_hd [OF this assms(4,5)] obtain m ms
    where "run hu_group (adv (length x) st) = m # ms" and "group1 m = hc"
    by blast
  with greedy_Plus_Dot [OF assms(1,2,3) later] show ?thesis
    by simp
qed

lemma addr_tail_Nil:
  assumes "rest st = drop j (''hu '' @ hc @ t)" and "is_housecode hc" and "no_code t"
  shows "run addr_tail st = []"
proof (rule Plus_Dot_Nil, intro allI impI)
  fix n :: nat assume "1 \<le> n"
  with assms(1) no_code_inside [OF assms(2,3), of "j + n"]
  show "run hu_group (adv n st) = []"
    by (intro run_hu_group_Nil) (simp add: add.commute)
qed

lemma run_rercviaddr:
  "run rercviaddr st =
     (if \<exists>kw \<in> set bus_keywords. prefix (kw @ '' addr unit'') (rest st)
      then run addr_tail (adv 14 st) else [])"
  unfolding rercviaddr_def run_keyword_Seq_Lit by simp

text \<open>From whatever position the pattern matches, it captures the last house code of the line.\<close>

lemma rercviaddr_first_match:
  assumes "line = a @ ''hu '' @ hc @ t" and "newline \<notin> set a" and "is_housecode hc"
    and "t = [] \<or> \<not> is_digit_c (hd t)" and "no_code t"
    and "first_match rercviaddr (start_state i (drop i line)) = Some m"
  shows "group1 m = hc"
proof -
  let ?st = "start_state i (drop i line)"
  from assms(6) obtain ms where run: "run rercviaddr ?st = m # ms"
    by (auto simp: first_match_def split: list.splits)
  then have tail: "run addr_tail (adv 14 ?st) = m # ms"
    by (auto simp: run_rercviaddr split: if_splits simp del: run.simps)
  have rest: "rest (adv 14 ?st) = drop (i + 14) line"
    by (simp add: add.commute)
  show ?thesis
  proof (cases "i + 14 < length a")
    case True
    with rest assms(1) have "rest (adv 14 ?st) = drop (i + 14) a @ ''hu '' @ hc @ t"
      by simp
    moreover from True have "drop (i + 14) a \<noteq> []"
      by simp
    moreover from assms(2) have "newline \<notin> set (drop (i + 14) a)"
      by (auto dest: in_set_dropD)
    ultimately show ?thesis
      using addr_tail_hd [OF _ _ _ assms(3,4,5)] tail by fastforce
  next
    case False
    with rest assms(1) have "rest (adv 14 ?st) = drop (i + 14 - length a) (''hu '' @ hc @ t)"
      by simp
    from addr_tail_Nil [OF this assms(3,5)] tail show ?thesis
      by (simp del: run.simps)
  qed
qed

lemma search_from_first:
  "search_from r i s = Some m \<Longrightarrow>
     \<exists>j \<le> length s. first_match r (start_state (i + j) (drop j s)) = Some m"
proof (induction s arbitrary: i)
  case Nil
  then show ?case by simp
next
  case (Cons c cs)
  show ?case
  proof (cases "first_match r (start_state i (c # cs))")
    case (Some m')
    with Cons.prems show ?thesis
      by (intro exI [of _ 0]) simp
  next
    case None
    with Cons.prems have "search_from r (Suc i) cs = Some m"
      by simp
    from Cons.IH [OF this] obtain j
      where "j \<le> length cs" "first_match r (start_state (Suc i + j) (drop j cs)) = Some m"
      by blast
    then show ?thesis
      by (intro exI [of _ "Suc j"]) simp
  qed
qed

lemma rercviaddr_captures:
  assumes "line = a @ ''hu '' @ hc @ t" and "newline \<notin> set a" and "is_housecode hc"
    and "t = [] \<or> \<not> is_digit_c (hd t)" and "no_code t"
    and "re_search rercviaddr line = Some m"
  shows "group1 m = hc"
proof -
  from assms(6) search_from_first [of rercviaddr 0 line m] obtain j
    where "first_match rercviaddr (start_state j (drop j line)) = Some m"
    by (auto simp: re_search_def)
  with assms(1-5) show ?thesis
    by (rule rercviaddr_first_match)
qed

lemma rercviaddr_finds:
  assumes "kw \<in> set bus_keywords" and "mid \<noteq> []" and "newline \<notin> set mid"
    and "is_housecode hc" and "t = [] \<or> \<not> is_digit_c (hd t)" and "no_code t"
  shows "\<exists>m. re_search rercviaddr (pre @ kw @ '' addr unit'' @ mid @ ''hu '' @ hc @ t) = Some m"
proof -
  let ?s = "kw @ '' addr unit'' @ mid @ ''hu '' @ hc @ t"
  let ?st = "start_state (length pre) ?s"
  from assms(1) have "length kw = 4"
    by (auto simp: bus_keywords_def)
  then have "rest (adv 14 ?st) = mid @ ''hu '' @ hc @ t"
    by simp
  from addr_tail_hd [OF this assms(2-6)] obtain m ms
    where tail: "run addr_tail (adv 14 ?st) = m # ms"
    by blast
  from assms(1) have "\<exists>k \<in> set bus_keywords. prefix (k @ '' addr unit'') (rest ?st)"
    by (intro bexI [of _ kw]) simp_all
  with tail have "run rercviaddr ?st = m # ms"
    by (simp only: run_rercviaddr if_True)
  then have "matches rercviaddr ?st m"
    by (simp add: run_iff_matches [symmetric] del: run.simps)
  then show ?thesis
    by (rule re_search_finds)
qed


section \<open>The function pattern on a line of the monitor\<close>

text \<open>\<open>func_at t\<close>: the text \<open>t\<close> starts with \<^verbatim>\<open>On :\<close> or \<^verbatim>\<open>Off :\<close>.\<close>

definition func_at :: "string \<Rightarrow> bool" where
  "func_at t \<longleftrightarrow> prefix ''On :'' t \<or> prefix ''Off :'' t"

definition no_func :: "string \<Rightarrow> bool" where
  "no_func t \<longleftrightarrow> list_all (\<lambda>u. \<not> func_at u) (suffixes t)"

abbreviation fn_group :: rx where
  "fn_group \<equiv> Seq (Group (Alt (Lit ''On'') (Lit ''Off''))) (Lit '' :'')"

abbreviation func_tail :: rx where
  "func_tail \<equiv> Seq (Star Dot) fn_group"

lemma no_func_drop: "no_func t \<Longrightarrow> \<not> func_at (drop k t)"
  by (auto simp: no_func_def list_all_iff in_set_suffixes suffix_drop)

lemma func_at_hd: "func_at t \<Longrightarrow> t \<noteq> [] \<and> hd t = CHR ''O''"
  by (auto simp: func_at_def prefix_def)

lemma run_fn_group:
  "run fn_group st =
     (if prefix ''On :'' (rest st) then [capture st (adv 2 st)\<lparr>pos := pos st + 4, rest := drop 4 (rest st)\<rparr>]
      else if prefix ''Off :'' (rest st)
      then [capture st (adv 3 st)\<lparr>pos := pos st + 5, rest := drop 5 (rest st)\<rparr>]
      else [])"
  by (auto simp: prefix_def adv_def capture_def)

lemma run_fn_group_Nil: "\<not> func_at (rest st) \<Longrightarrow> run fn_group st = []"
  by (simp only: run_fn_group func_at_def) simp

lemma run_fn_group_hd:
  assumes "rest st = fn @ '' :'' @ t" and "fn = ''On'' \<or> fn = ''Off''"
  shows "\<exists>m ms. run fn_group st = m # ms \<and> group1 m = fn"
  using assms by (auto simp: run_fn_group group1_def simp del: run.simps)

lemma no_func_inside:
  assumes "fn = ''On'' \<or> fn = ''Off''" and "no_func t" and "0 < n"
  shows "\<not> func_at (drop n (fn @ '' :'' @ t))"
proof
  assume fa: "func_at (drop n (fn @ '' :'' @ t))"
  let ?w = "tl fn @ '' :''"
  from assms(1,3) have d: "drop n (fn @ '' :'' @ t) = drop (n - 1) (?w @ t)"
    by (cases n) auto
  show False
  proof (cases "n - 1 < length ?w")
    case True
    then have "hd (drop (n - 1) (?w @ t)) = ?w ! (n - 1)"
      by (rule hd_drop_append)
    moreover from True have "?w ! (n - 1) \<in> set ?w"
      by (intro nth_mem)
    moreover from assms(1) have "CHR ''O'' \<notin> set ?w"
      by auto
    ultimately show False
      using func_at_hd [OF fa] d by (auto simp del: append.simps)
  next
    case False
    then have "length ?w \<le> n - 1"
      by simp
    then have "drop (n - 1) (?w @ t) = drop (n - 1 - length ?w) t"
      by (rule drop_append_ge)
    with fa d no_func_drop [OF assms(2)] show False
      by simp
  qed
qed

lemma func_tail_hd:
  assumes "rest st = x @ fn @ '' :'' @ t" and "newline \<notin> set x"
    and "fn = ''On'' \<or> fn = ''Off''" and "no_func t"
  shows "\<exists>m ms. run func_tail st = m # ms \<and> group1 m = fn"
proof -
  have later: "\<forall>n. length x < n \<longrightarrow> run fn_group (adv n st) = []"
  proof (intro allI impI)
    fix n assume "length x < n"
    with assms(1) have "rest (adv n st) = drop (n - length x) (fn @ '' :'' @ t)"
      by simp
    with no_func_inside [OF assms(3,4), of "n - length x"] \<open>length x < n\<close>
    show "run fn_group (adv n st) = []"
      by (intro run_fn_group_Nil) simp
  qed
  from assms(1) have "rest (adv (length x) st) = fn @ '' :'' @ t"
    by simp
  from run_fn_group_hd [OF this assms(3)] obtain m ms
    where "run fn_group (adv (length x) st) = m # ms" and "group1 m = fn"
    by blast
  with greedy_Star_Dot [OF assms(1,2) later] show ?thesis
    by (simp del: run.simps)
qed

lemma func_tail_Nil:
  assumes "rest st = drop j (fn @ '' :'' @ t)" and "0 < j"
    and "fn = ''On'' \<or> fn = ''Off''" and "no_func t"
  shows "run func_tail st = []"
proof (rule Star_Dot_Nil, intro allI)
  fix n :: nat
  have r: "rest (adv n st) = drop (j + n) (fn @ '' :'' @ t)"
    unfolding adv_simps assms(1) drop_drop by (simp only: add.commute)
  from assms(2) have "0 < j + n"
    by simp
  from no_func_inside [OF assms(3,4) this] show "run fn_group (adv n st) = []"
    unfolding r [symmetric] by (rule run_fn_group_Nil)
qed

lemma run_rercvifunc:
  "run rercvifunc st =
     (if \<exists>kw \<in> set bus_keywords. prefix (kw @ '' func'') (rest st)
      then run func_tail (adv 9 st) else [])"
  unfolding rercvifunc_def run_keyword_Seq_Lit by simp

lemma rercvifunc_first_match:
  assumes "line = a @ fn @ '' :'' @ t" and "newline \<notin> set a"
    and "fn = ''On'' \<or> fn = ''Off''" and "no_func t"
    and "first_match rercvifunc (start_state i (drop i line)) = Some m"
  shows "group1 m = fn"
proof -
  let ?st = "start_state i (drop i line)"
  from assms(5) obtain ms where run: "run rercvifunc ?st = m # ms"
    by (auto simp: first_match_def split: list.splits)
  then have tail: "run func_tail (adv 9 ?st) = m # ms"
    by (auto simp: run_rercvifunc split: if_splits simp del: run.simps)
  have rest: "rest (adv 9 ?st) = drop (i + 9) line"
    by (simp add: add.commute)
  show ?thesis
  proof (cases "i + 9 \<le> length a")
    case True
    with rest assms(1) have "rest (adv 9 ?st) = drop (i + 9) a @ fn @ '' :'' @ t"
      by simp
    moreover from assms(2) have "newline \<notin> set (drop (i + 9) a)"
      by (auto dest: in_set_dropD)
    ultimately show ?thesis
      using func_tail_hd [OF _ _ assms(3,4)] tail by fastforce
  next
    case False
    with rest assms(1) have "rest (adv 9 ?st) = drop (i + 9 - length a) (fn @ '' :'' @ t)"
      by simp
    from func_tail_Nil [OF this _ assms(3,4)] False tail show ?thesis
      by (simp del: run.simps)
  qed
qed

lemma rercvifunc_captures:
  assumes "line = a @ fn @ '' :'' @ t" and "newline \<notin> set a"
    and "fn = ''On'' \<or> fn = ''Off''" and "no_func t"
    and "re_search rercvifunc line = Some m"
  shows "group1 m = fn"
proof -
  from assms(5) search_from_first [of rercvifunc 0 line m] obtain j
    where "first_match rercvifunc (start_state j (drop j line)) = Some m"
    by (auto simp: re_search_def)
  with assms(1-4) show ?thesis
    by (rule rercvifunc_first_match)
qed

lemma rercvifunc_finds:
  assumes "kw \<in> set bus_keywords" and "newline \<notin> set mid"
    and "fn = ''On'' \<or> fn = ''Off''" and "no_func t"
  shows "\<exists>m. re_search rercvifunc (pre @ kw @ '' func'' @ mid @ fn @ '' :'' @ t) = Some m"
proof -
  let ?s = "kw @ '' func'' @ mid @ fn @ '' :'' @ t"
  let ?st = "start_state (length pre) ?s"
  from assms(1) have "length kw = 4"
    by (auto simp: bus_keywords_def)
  then have "rest (adv 9 ?st) = mid @ fn @ '' :'' @ t"
    by simp
  from func_tail_hd [OF this assms(2-4)] obtain m ms
    where tail: "run func_tail (adv 9 ?st) = m # ms"
    by blast
  from assms(1) have "\<exists>k \<in> set bus_keywords. prefix (k @ '' func'') (rest ?st)"
    by (intro bexI [of _ kw]) simp_all
  with tail have "run rercvifunc ?st = m # ms"
    by (simp only: run_rercvifunc if_True)
  then have "matches rercvifunc ?st m"
    by (simp add: run_iff_matches [symmetric] del: run.simps)
  then show ?thesis
    by (rule re_search_finds)
qed


section \<open>Lines that match only one of the patterns\<close>

definition lacks :: "string \<Rightarrow> string \<Rightarrow> bool" where
  "lacks w s \<longleftrightarrow> list_all (\<lambda>u. \<not> prefix w u) (suffixes s)"

lemma lacks_drop: "lacks w s \<Longrightarrow> \<not> prefix w (drop k s)"
  by (auto simp: lacks_def list_all_iff in_set_suffixes suffix_drop)

lemma keyword_prefix_drop:
  "kw \<in> set bus_keywords \<Longrightarrow> prefix (kw @ w) s \<Longrightarrow> prefix w (drop 4 s)"
  by (auto simp: bus_keywords_def prefix_def)

lemma rercvifunc_None:
  assumes "lacks '' func'' line"
  shows "re_search rercvifunc line = None"
proof (rule ccontr)
  assume "re_search rercvifunc line \<noteq> None"
  then obtain m j where "first_match rercvifunc (start_state j (drop j line)) = Some m"
    using search_from_first [of rercvifunc 0 line] by (auto simp: re_search_def)
  then obtain kw where "kw \<in> set bus_keywords" "prefix (kw @ '' func'') (drop j line)"
    by (auto simp: first_match_def run_rercvifunc split: list.splits if_splits simp del: run.simps)
  from keyword_prefix_drop [OF this] lacks_drop [OF assms, of "4 + j"] show False
    by simp
qed

lemma rercviaddr_None:
  assumes "lacks '' addr unit'' line"
  shows "re_search rercviaddr line = None"
proof (rule ccontr)
  assume "re_search rercviaddr line \<noteq> None"
  then obtain m j where "first_match rercviaddr (start_state j (drop j line)) = Some m"
    using search_from_first [of rercviaddr 0 line] by (auto simp: re_search_def)
  then obtain kw where "kw \<in> set bus_keywords" "prefix (kw @ '' addr unit'') (drop j line)"
    by (auto simp: first_match_def run_rercviaddr split: list.splits if_splits simp del: run.simps)
  from keyword_prefix_drop [OF this] lacks_drop [OF assms, of "4 + j"] show False
    by simp
qed

lemma keyword_no_newline: "kw \<in> set bus_keywords \<Longrightarrow> newline \<notin> set kw"
  by (auto simp: bus_keywords_def newline_def)

section \<open>Lines of the monitor are recognised\<close>

text \<open>
  C23. An address line is recognised for what it says. A line that consists of
  any text, one of the six keywords, \<^verbatim>\<open> addr unit\<close>, at least one more
  character, then \<^verbatim>\<open>hu\<close> and a house code, with no newline before the house code,
  no digit right after it, no further \<^verbatim>\<open>hu\<close> with a code after it, and without
  \<^verbatim>\<open> func\<close> anywhere, is an address event for exactly that house code.
\<close>

theorem address_line_recognised:
  assumes "kw \<in> set bus_keywords" and "mid \<noteq> []" and "newline \<notin> set (pre @ mid)"
    and "is_housecode hc" and "t = [] \<or> \<not> is_digit_c (hd t)" and "no_code t"
    and "lacks '' func'' (pre @ kw @ '' addr unit'' @ mid @ ''hu '' @ hc @ t)"
  shows "events_of_line (pre @ kw @ '' addr unit'' @ mid @ ''hu '' @ hc @ t) = [AddressLine hc]"
proof -
  let ?line = "pre @ kw @ '' addr unit'' @ mid @ ''hu '' @ hc @ t"
  from rercviaddr_finds [OF assms(1,2) _ assms(4,5,6), of pre] assms(3)
  obtain m where m: "re_search rercviaddr ?line = Some m"
    by auto
  from assms(1,3) have "newline \<notin> set (pre @ kw @ '' addr unit'' @ mid)"
    by (auto simp: newline_def dest: keyword_no_newline)
  with m have "group1 m = hc"
    by (intro rercviaddr_captures [OF _ _ assms(4,5,6), of ?line "pre @ kw @ '' addr unit'' @ mid"])
       simp_all
  with m rercvifunc_None [OF assms(7)] show ?thesis
    by (simp add: events_of_line_def)
qed

theorem address_line_recognised_witness:
  "events_of_line addr_A1 = [AddressLine ''A1'']"
  using address_line_recognised [of "''rcvi''" "''       1 : ''" "''07/29 15:43:12  ''" "''A1''"
      "''  (_no_alias_)'' @ [newline]"]
  by (simp add: addr_A1_def bus_keywords_def no_code_def code_at_def lacks_def newline_def
      house_letter_def char_eval)

text \<open>
  C24. A function line is recognised for what it says. A line that consists of
  any text, one of the six keywords, \<^verbatim>\<open> func\<close>, any text, then \<^verbatim>\<open>On\<close> or \<^verbatim>\<open>Off\<close>
  followed by a space and a colon, with no newline before the function name, no
  further function name with its colon after it, and without \<^verbatim>\<open> addr unit\<close>
  anywhere, is a function event for exactly that function.
\<close>

theorem function_line_recognised:
  assumes "kw \<in> set bus_keywords" and "newline \<notin> set (pre @ mid)"
    and "fn = ''On'' \<or> fn = ''Off''" and "no_func t"
    and "lacks '' addr unit'' (pre @ kw @ '' func'' @ mid @ fn @ '' :'' @ t)"
  shows "events_of_line (pre @ kw @ '' func'' @ mid @ fn @ '' :'' @ t)
       = [FunctionLine (func_command fn)]"
proof -
  let ?line = "pre @ kw @ '' func'' @ mid @ fn @ '' :'' @ t"
  from rercvifunc_finds [OF assms(1) _ assms(3,4), of mid pre] assms(2)
  obtain m where m: "re_search rercvifunc ?line = Some m"
    by auto
  from assms(1,2) have "newline \<notin> set (pre @ kw @ '' func'' @ mid)"
    by (auto simp: newline_def dest: keyword_no_newline)
  with m have "group1 m = fn"
    by (intro rercvifunc_captures [OF _ _ assms(3,4), of ?line "pre @ kw @ '' func'' @ mid"])
       simp_all
  with m rercviaddr_None [OF assms(5)] show ?thesis
    by (simp add: events_of_line_def)
qed

theorem function_line_recognised_witness:
  "events_of_line func_Off = [FunctionLine OFF]"
  using function_line_recognised [of "''rcvi''" "''07/29 15:43:15  ''" "''          ''" "''Off''"
      "'' hc B'' @ [newline]"]
  by (simp add: func_Off_def bus_keywords_def no_func_def func_at_def lacks_def newline_def
      func_command_def char_eval)

end
