(* ===== verification/Generator.thy ===== *)
theory Generator
  imports Monitor "HOL-Library.Stream"
begin

text \<open>
  The generator \<^verbatim>\<open>monitor\<close> of \<^verbatim>\<open>src/x10mqtt.py\<close> (lines 133 to 140) call by call,
  and the \<^verbatim>\<open>for\<close> loop of lines 281 to 287 that drives it, against a process
  that may never close its output.

  What the script sees of \<^verbatim>\<open>heyu monitor\<close> is the record \<open>heyu\<close>: whether the
  process can be started, what the successive calls of \<^verbatim>\<open>readline\<close> return, and
  the exit status \<^verbatim>\<open>wait\<close> returns. The results of \<^verbatim>\<open>readline\<close> are a stream: the
  empty string is the end of the output (the sentinel of \<^verbatim>\<open>iter\<close> on line 135),
  and a process that runs forever is a stream without it. \<open>monitor_next\<close> is one
  call of \<^verbatim>\<open>next\<close> on the generator, in each of the three states a generator
  object has. \<open>main_loop\<close> is the loop; it is a partial function, and its value
  \<open>None\<close> is the run that does not end.

  The lemmas unfold the loop over a prefix of the output (\<open>main_loop_lines\<close>),
  show that it ends exactly when the output does, and that on an output that
  ends it is \<open>monitor_main\<close> of theory \<open>Monitor\<close> on the lines before the end.
\<close>

section \<open>The process and the generator\<close>

record heyu =
  spawns :: bool
  readlines :: "string stream"
  exit_status :: int

text \<open>
  A generator object has not started, is suspended at the \<^verbatim>\<open>yield\<close> of line 136
  (with what is left of the output), or has ended.
\<close>

datatype generator = Created | Suspended "string stream" | Closed

datatype next_result = Yield string | StopIteration | Raise py_error

text \<open>Calling \<^verbatim>\<open>monitor()\<close> runs none of its body.\<close>

definition monitor :: generator where
  "monitor = Created"

text \<open>
  Lines 135 to 140, from the call of \<^verbatim>\<open>readline\<close> to the next \<^verbatim>\<open>yield\<close> or to the
  end of the generator.
\<close>

definition read_line :: "heyu \<Rightarrow> string stream \<Rightarrow> next_result \<times> generator" where
  "read_line p out =
     (let stdout_line = shd out
      in if stdout_line \<noteq> []
         then (Yield stdout_line, Suspended (stl out))
         else (case monitor_end (exit_status p) of
                 Inl err \<Rightarrow> (Raise err, Closed)
               | Inr u \<Rightarrow> (StopIteration, Closed)))"

fun monitor_next :: "heyu \<Rightarrow> generator \<Rightarrow> effect list \<times> next_result \<times> generator" where
  "monitor_next p Created =
     (if spawns p
      then (case read_line p (readlines p) of (r, g) \<Rightarrow> ([Popen [''heyu'', ''monitor'']], r, g))
      else ([Popen [''heyu'', ''monitor'']], Raise OSError, Closed))"
| "monitor_next p (Suspended out) = (case read_line p out of (r, g) \<Rightarrow> ([], r, g))"
| "monitor_next p Closed = ([], StopIteration, Closed)"

section \<open>The loop\<close>

text \<open>
  Lines 281 to 287: ask the generator for the next line, run the body on it,
  and again; the loop ends when the generator does, and an exception of the
  generator ends the script.
\<close>

partial_function (option) main_loop ::
  "config \<Rightarrow> heyu \<Rightarrow> generator \<Rightarrow> gw_state \<Rightarrow> gw_state outcome option" where
  "main_loop cfg p g st =
     (case monitor_next p g of
        (effs, Yield line, g') \<Rightarrow>
          (case monitor_step cfg line st of
             (effs', st') \<Rightarrow>
               Option.bind (main_loop cfg p g' st')
                 (\<lambda>(effs'', res). Some (effs @ effs' @ effs'', res)))
      | (effs, StopIteration, g') \<Rightarrow> Some (effs, Inr st)
      | (effs, Raise err, g') \<Rightarrow> Some (effs, Inl err))"

text \<open>The lines the first \<open>n\<close> calls of \<^verbatim>\<open>next\<close> yield, up to the end of the generator.\<close>

fun yielded :: "nat \<Rightarrow> heyu \<Rightarrow> generator \<Rightarrow> string list" where
  "yielded 0 p g = []"
| "yielded (Suc n) p g =
     (case monitor_next p g of
        (effs, Yield line, g') \<Rightarrow> line # yielded n p g'
      | (effs, StopIteration, g') \<Rightarrow> []
      | (effs, Raise err, g') \<Rightarrow> [])"

text \<open>A run that ends, after something was done before it.\<close>

fun prefixed :: "effect list \<Rightarrow> 'a outcome option \<Rightarrow> 'a outcome option" where
  "prefixed effs None = None"
| "prefixed effs (Some (effs', res)) = Some (effs @ effs', res)"

text \<open>
  Whether the generator comes to an end from one of its states: heyu does not
  start, or the output that is left has an end.
\<close>

fun ends_from :: "heyu \<Rightarrow> generator \<Rightarrow> bool" where
  "ends_from p Created \<longleftrightarrow> \<not> spawns p \<or> [] \<in> sset (readlines p)"
| "ends_from p (Suspended out) \<longleftrightarrow> [] \<in> sset out"
| "ends_from p Closed \<longleftrightarrow> True"

lemmas generator_defs [gw_defs] = monitor_def read_line_def

section \<open>One call of next\<close>

lemma read_line_Yield:
  "shd out \<noteq> [] \<Longrightarrow> read_line p out = (Yield (shd out), Suspended (stl out))"
  by (simp add: read_line_def)

lemma read_line_end:
  "shd out = [] \<Longrightarrow>
   read_line p out = (if exit_status p \<noteq> 0 then Raise (NameError ''cmd'') else StopIteration, Closed)"
  by (simp add: read_line_def monitor_end_def)

lemma yielded_Suspended:
  "yielded n p (Suspended out) = takeWhile (\<lambda>line. line \<noteq> []) (stake n out)"
  by (induction n arbitrary: out) (simp_all add: read_line_def Let_def monitor_end_def)

lemma yielded_monitor:
  "yielded n p monitor
     = (if spawns p then takeWhile (\<lambda>line. line \<noteq> []) (stake n (readlines p)) else [])"
proof (cases n)
  case 0
  then show ?thesis by simp
next
  case (Suc m)
  then show ?thesis
    by (simp add: monitor_def read_line_def Let_def monitor_end_def yielded_Suspended)
qed

section \<open>Unfolding the loop\<close>

lemma bind_prefixed:
  "Option.bind x (\<lambda>(effs', res). Some (effs @ effs', res)) = prefixed effs x"
  by (cases x) auto

lemma bind_prefixed_Cons:
  "Option.bind x (\<lambda>(effs', res). Some (e # effs @ effs', res)) = prefixed (e # effs) x"
  by (cases x) auto

lemma prefixed_Nil [simp]: "prefixed [] x = x"
  by (cases x) auto

lemma prefixed_prefixed [simp]: "prefixed effs (prefixed effs' x) = prefixed (effs @ effs') x"
  by (cases x) auto

lemma prefixed_eq_None [simp]: "prefixed effs x = None \<longleftrightarrow> x = None"
  by (cases x) auto

lemma main_loop_line:
  "shd out \<noteq> [] \<Longrightarrow>
   main_loop cfg p (Suspended out) st
     = prefixed (fst (monitor_step cfg (shd out) st))
         (main_loop cfg p (Suspended (stl out)) (snd (monitor_step cfg (shd out) st)))"
  by (subst main_loop.simps) (simp add: read_line_Yield bind_prefixed split: prod.splits)

lemma main_loop_end:
  "shd out = [] \<Longrightarrow>
   main_loop cfg p (Suspended out) st
     = Some ([], if exit_status p \<noteq> 0 then Inl (NameError ''cmd'') else Inr st)"
  by (subst main_loop.simps) (simp add: read_line_end)

lemma main_loop_Closed: "main_loop cfg p Closed st = Some ([], Inr st)"
  by (subst main_loop.simps) simp

lemma main_loop_not_spawned:
  "\<not> spawns p \<Longrightarrow>
   main_loop cfg p Created st = Some ([Popen [''heyu'', ''monitor'']], Inl OSError)"
  by (subst main_loop.simps) simp

lemma main_loop_spawned:
  assumes "spawns p"
  shows "main_loop cfg p Created st
     = prefixed [Popen [''heyu'', ''monitor'']] (main_loop cfg p (Suspended (readlines p)) st)"
proof (cases "shd (readlines p) = []")
  case True
  with assms show ?thesis
    by (subst main_loop.simps) (simp add: main_loop_end read_line_end)
next
  case False
  with assms show ?thesis
    by (subst main_loop.simps)
       (simp add: main_loop_line read_line_Yield bind_prefixed_Cons split: prod.splits)
qed

text \<open>
  While the output has not ended the loop has done what \<open>monitor_loop\<close> does for
  the lines read so far, and goes on from the state \<open>monitor_loop\<close> ends in.
\<close>

lemma main_loop_lines:
  "[] \<notin> set lines \<Longrightarrow>
   main_loop cfg p (Suspended (lines @- out)) st
     = prefixed (fst (monitor_loop cfg lines st))
         (main_loop cfg p (Suspended out) (snd (monitor_loop cfg lines st)))"
proof (induction lines arbitrary: st)
  case Nil
  show ?case by simp
next
  case (Cons line lines)
  from Cons.prems have "shd ((line # lines) @- out) \<noteq> []" and "[] \<notin> set lines"
    by auto
  then show ?case
    by (simp add: main_loop_line Cons.IH monitor_loop_Cons del: monitor_loop.simps)
qed

section \<open>When the loop ends\<close>

lemma output_ends:
  "[] \<in> sset (out :: string stream) \<Longrightarrow>
   \<exists>lines out'. out = lines @- out' \<and> [] \<notin> set lines \<and> shd out' = []"
proof (induction "[] :: string" out rule: sset_induct)
  case (shd out)
  then have "out = [] @- out \<and> [] \<notin> set ([] :: string list) \<and> shd out = []"
    by simp
  then show ?case by blast
next
  case (stl out)
  then obtain lines out' where *: "stl out = lines @- out'" "[] \<notin> set lines" "shd out' = []"
    by blast
  show ?case
  proof (cases "shd out = []")
    case True
    then have "out = [] @- out \<and> [] \<notin> set ([] :: string list) \<and> shd out = []"
      by simp
    then show ?thesis by blast
  next
    case False
    with * have "out = (shd out # lines) @- out' \<and> [] \<notin> set (shd out # lines) \<and> shd out' = []"
      by (auto intro: stream.expand)
    then show ?thesis by blast
  qed
qed

lemma main_loop_finite:
  assumes "[] \<notin> set lines" and "shd out = []"
  shows "main_loop cfg p (Suspended (lines @- out)) st
     = Some (fst (monitor_loop cfg lines st),
             if exit_status p \<noteq> 0 then Inl (NameError ''cmd'')
             else Inr (snd (monitor_loop cfg lines st)))"
  using assms by (simp add: main_loop_lines main_loop_end)

text \<open>
  The loop returns only when the output ends: by the induction rule of the
  partial function, over what has to hold of a generator that returned.
\<close>

lemma main_loop_Some_ends:
  assumes ret: "main_loop cfg p g st = Some r"
  shows "ends_from p g"
proof (rule main_loop.raw_induct [where P = "\<lambda>cfg p g st r. ends_from p g", OF _ ret])
  fix loop cfg p g st r
  assume IH: "\<And>cfg p g st r. loop cfg p g st = Some r \<Longrightarrow> ends_from p g"
    and eq: "(case monitor_next p g of
        (effs, Yield line, g') \<Rightarrow>
          (case monitor_step cfg line st of
             (effs', st') \<Rightarrow>
               Option.bind (loop cfg p g' st')
                 (\<lambda>(effs'', res). Some (effs @ effs' @ effs'', res)))
      | (effs, StopIteration, g') \<Rightarrow> Some (effs, Inr st)
      | (effs, Raise err, g') \<Rightarrow> Some (effs, Inl err)) = Some r"
  have susp: "[] \<in> sset out"
    if "fst (snd (monitor_next p g)) = fst (read_line p out)"
      and "snd (snd (monitor_next p g)) = snd (read_line p out)" for out
  proof (cases "shd out = []")
    case True
    then show ?thesis by (metis shd_sset)
  next
    case False
    with that eq obtain y
      where "loop cfg p (Suspended (stl out)) (snd (monitor_step cfg (shd out) st)) = Some y"
      by (auto simp: read_line_Yield bind_eq_Some_conv split: prod.splits)
    from IH [OF this] show ?thesis
      by (auto dest: stl_sset)
  qed
  show "ends_from p g"
  proof (cases g)
    case Created
    with susp [of "readlines p"] show ?thesis
      by (auto split: prod.splits)
  next
    case (Suspended out)
    with susp [of out] show ?thesis
      by (auto split: prod.splits)
  next
    case Closed
    then show ?thesis by simp
  qed
qed

lemma main_loop_None_iff:
  "main_loop cfg p (Suspended out) st = None \<longleftrightarrow> [] \<notin> sset out"
proof
  assume "main_loop cfg p (Suspended out) st = None"
  then show "[] \<notin> sset out"
    by (auto dest!: output_ends simp: main_loop_finite)
next
  assume "[] \<notin> sset out"
  then show "main_loop cfg p (Suspended out) st = None"
    using main_loop_Some_ends [of cfg p "Suspended out" st]
    by (cases "main_loop cfg p (Suspended out) st") auto
qed

lemma main_loop_monitor_None_iff:
  "main_loop cfg p monitor st = None \<longleftrightarrow> spawns p \<and> [] \<notin> sset (readlines p)"
  by (cases "spawns p")
     (simp_all add: monitor_def main_loop_spawned main_loop_not_spawned main_loop_None_iff)

lemma main_loop_monitor_finite:
  assumes "spawns p" and "readlines p = lines @- out" and "[] \<notin> set lines" and "shd out = []"
  shows "main_loop cfg p monitor st = Some (monitor_main cfg (Monitored lines (exit_status p)) st)"
  using assms
  by (simp add: monitor_def main_loop_spawned main_loop_finite monitor_main_Monitored)

lemma main_loop_monitor_not_spawned:
  "\<not> spawns p \<Longrightarrow> main_loop cfg p monitor st = Some (monitor_main cfg MonitorNotStarted st)"
  by (simp add: monitor_def main_loop_not_spawned monitor_main_NotStarted)

section \<open>Properties of the generator and the loop\<close>

text \<open>
  C12. The monitor loop ends exactly when heyu's output does: it runs forever
  if and only if \<^verbatim>\<open>heyu monitor\<close> could be started and \<^verbatim>\<open>readline\<close> never returns
  the empty string; in every other case it returns, with a result or with an
  exception.
\<close>

theorem main_loop_runs_until_output_ends:
  "main_loop cfg p monitor st = None \<longleftrightarrow> spawns p \<and> [] \<notin> sset (readlines p)"
  by (rule main_loop_monitor_None_iff)

text \<open>
  C14. On an output that ends, the loop over the generator does what the loop
  over the list of the lines before the end does: heyu is started, every line
  is handled in order, then the exit status is examined; and when heyu cannot
  be started the loop ends with the exception of \<^verbatim>\<open>Popen\<close>.
\<close>

theorem main_loop_on_finite_output:
  assumes "[] \<notin> set lines" and "shd out = []"
  shows "main_loop cfg \<lparr>spawns = True, readlines = lines @- out, exit_status = rc\<rparr> monitor st
           = Some (monitor_main cfg (Monitored lines rc) st)
       \<and> main_loop cfg \<lparr>spawns = False, readlines = out', exit_status = rc\<rparr> monitor st
           = Some (monitor_main cfg MonitorNotStarted st)"
  using assms by (simp add: main_loop_monitor_finite main_loop_monitor_not_spawned)

theorem main_loop_on_finite_output_witness:
  "main_loop demo_config
     \<lparr>spawns = True, readlines = [addr_A1, func_On] @- sconst [], exit_status = 0\<rparr>
     monitor init_state
     = Some (monitor_main demo_config (Monitored [addr_A1, func_On] 0) init_state)
   \<and> main_loop demo_config \<lparr>spawns = False, readlines = sconst [], exit_status = 0\<rparr>
        monitor init_state
     = Some (monitor_main demo_config MonitorNotStarted init_state)"
  using main_loop_on_finite_output [of "[addr_A1, func_On]" "sconst []" demo_config 0 init_state
      "sconst []"]
  by (simp add: addr_A1_def func_On_def)

end
