(* ===== verification/Liveness.thy ===== *)
theory Liveness
  imports Flows Generator
begin

text \<open>
  Progress of the bus-monitor flow of \<^verbatim>\<open>src/x10mqtt.py\<close> while the gateway runs
  without end. The events of a run, the lines of \<^verbatim>\<open>heyu monitor\<close> and the calls of
  the client's thread between them, are a stream; the state after \<open>n\<close> events
  and what the \<open>n\<close>-th event does are read off \<open>run_events\<close> of theory \<open>Flows\<close> on
  the first \<open>n\<close> events. The lemmas follow an address from the line that sets
  it (\<^verbatim>\<open>rcviaddr\<close>, line 158) to the function line that publishes it and clears it
  (\<^verbatim>\<open>rcvifunc\<close>, lines 171 to 174): no line without a function and no call of the
  client's thread empties a pending address.
\<close>

section \<open>What one line does to a pending address\<close>

lemma pending_kept:
  assumes "re_search rercvifunc line = None" and "rcvihc st \<noteq> []"
  shows "rcvihc (snd (monitor_step cfg line st)) \<noteq> []"
proof (cases "re_search rercviaddr line")
  case None
  with assms show ?thesis by (simp add: monitor_step_cases)
next
  case (Some a)
  then have "group1 a \<noteq> []"
    by (auto dest: rercviaddr_group)
  with Some assms show ?thesis by (simp add: monitor_step_cases)
qed

text \<open>
  The address \<^verbatim>\<open>rcvifunc\<close> finds when it is called for a line (lines 284 to 287):
  the one of the line itself, if it carries one, else the pending one.
\<close>

definition addressed :: "string \<Rightarrow> gw_state \<Rightarrow> string" where
  "addressed line st = (case re_search rercviaddr line of None \<Rightarrow> rcvihc st | Some a \<Rightarrow> group1 a)"

lemma function_answers:
  assumes "re_search rercvifunc line = Some f" and "rcvihc st \<noteq> []"
  shows "publishes (fst (monitor_step cfg line st))
           = [Publish (stattopic cfg @ ''/'' @ py_lower (addressed line st)) (py_upper (group1 f)) True]"
    and "rcvihc (snd (monitor_step cfg line st)) = []"
proof -
  have "addressed line st \<noteq> []"
    using assms(2) by (auto simp: addressed_def dest: rercviaddr_group split: option.splits)
  with assms(1) show "publishes (fst (monitor_step cfg line st))
           = [Publish (stattopic cfg @ ''/'' @ py_lower (addressed line st)) (py_upper (group1 f)) True]"
    by (auto simp: monitor_step_cases publishes_rcvifunc addressed_def split: option.splits
          simp del: py_upper_simps py_lower_simps)
  from assms(1) show "rcvihc (snd (monitor_step cfg line st)) = []"
    by (auto simp: monitor_step_cases split: option.splits)
qed

section \<open>The events of the running gateway, without end\<close>

fun function_event :: "gw_event \<Rightarrow> bool" where
  "function_event (MonitorLine line) \<longleftrightarrow> re_search rercvifunc line \<noteq> None"
| "function_event (Client e) \<longleftrightarrow> False"

abbreviation state_after :: "config \<Rightarrow> gw_event stream \<Rightarrow> gw_state \<Rightarrow> nat \<Rightarrow> gw_state" where
  "state_after cfg evs st n \<equiv> snd (run_events cfg (stake n evs) st)"

abbreviation effects_at :: "config \<Rightarrow> gw_event stream \<Rightarrow> gw_state \<Rightarrow> nat \<Rightarrow> effect list" where
  "effects_at cfg evs st n \<equiv> fst (run_events cfg [evs !! n] (state_after cfg evs st n))"

lemma state_after_Suc:
  "state_after cfg evs st (Suc n) = snd (run_events cfg [evs !! n] (state_after cfg evs st n))"
  by (simp add: stake_Suc run_events_append del: stake.simps run_events.simps)

lemma effects_Suc:
  "fst (run_events cfg (stake (Suc n) evs) st)
     = fst (run_events cfg (stake n evs) st) @ effects_at cfg evs st n"
  by (simp add: stake_Suc run_events_append del: stake.simps run_events.simps)

lemma event_pending_kept:
  "\<not> function_event e \<Longrightarrow> rcvihc st \<noteq> [] \<Longrightarrow> rcvihc (snd (run_events cfg [e] st)) \<noteq> []"
  by (cases e) (simp_all add: run_events_Cons pending_kept del: run_events.simps(2,3))

lemma function_event_answers:
  assumes "function_event e" and "rcvihc st \<noteq> []"
  shows "\<exists>line f. e = MonitorLine line \<and> re_search rercvifunc line = Some f
           \<and> publishes (fst (run_events cfg [e] st))
               = [Publish (stattopic cfg @ ''/'' @ py_lower (addressed line st))
                    (py_upper (group1 f)) True]
           \<and> rcvihc (snd (run_events cfg [e] st)) = []"
proof (cases e)
  case (MonitorLine line)
  with assms(1) obtain f where "re_search rercvifunc line = Some f"
    by auto
  from this function_answers [OF this assms(2), of cfg] MonitorLine show ?thesis
    by (simp add: run_events_Cons del: run_events.simps(2,3))
next
  case (Client c)
  with assms(1) show ?thesis by simp
qed

lemma function_event_clears:
  "function_event e \<Longrightarrow> rcvihc (snd (run_events cfg [e] st)) = []"
  by (cases e) (auto simp: run_events_Cons monitor_step_cases split: option.splits
      simp del: run_events.simps(2,3))

section \<open>Until the next function line\<close>

lemma pending_until:
  assumes "rcvihc (state_after cfg evs st i) \<noteq> []"
    and "\<forall>m. i \<le> m \<and> m < k \<longrightarrow> \<not> function_event (evs !! m)"
    and "i \<le> k"
  shows "rcvihc (state_after cfg evs st k) \<noteq> []"
  using assms(3,2)
proof (induction k rule: dec_induct)
  case base
  from assms(1) show ?case .
next
  case (step n)
  then have "rcvihc (state_after cfg evs st n) \<noteq> []" and "\<not> function_event (evs !! n)"
    by auto
  then show ?case
    unfolding state_after_Suc by (rule event_pending_kept [rotated])
qed

lemma first_from:
  assumes "i \<le> j" and "P (j :: nat)"
  shows "\<exists>k. i \<le> k \<and> k \<le> j \<and> P k \<and> (\<forall>m. i \<le> m \<and> m < k \<longrightarrow> \<not> P m)"
proof -
  let ?Q = "\<lambda>k. i \<le> k \<and> P k"
  from assms have Qj: "?Q j"
    by simp
  then have "?Q (Least ?Q)"
    by (rule LeastI)
  moreover from Qj have "Least ?Q \<le> j"
    by (rule Least_le)
  moreover have "\<not> ?Q m" if "m < Least ?Q" for m
    using that by (rule not_less_Least)
  ultimately show ?thesis
    by blast
qed

lemma pending_answered:
  assumes "rcvihc (state_after cfg evs st i) \<noteq> []"
    and "i \<le> j" and "function_event (evs !! j)"
  shows "\<exists>k line f. i \<le> k \<and> k \<le> j
           \<and> (\<forall>m. i \<le> m \<and> m \<le> k \<longrightarrow> rcvihc (state_after cfg evs st m) \<noteq> [])
           \<and> evs !! k = MonitorLine line \<and> re_search rercvifunc line = Some f
           \<and> publishes (effects_at cfg evs st k)
               = [Publish (stattopic cfg @ ''/''
                            @ py_lower (addressed line (state_after cfg evs st k)))
                    (py_upper (group1 f)) True]
           \<and> rcvihc (state_after cfg evs st (Suc k)) = []"
proof -
  from first_from [of i j "\<lambda>k. function_event (evs !! k)"] assms(2,3)
  obtain k where k: "i \<le> k" "k \<le> j" "function_event (evs !! k)"
    and first: "\<forall>m. i \<le> m \<and> m < k \<longrightarrow> \<not> function_event (evs !! m)"
    by auto
  have pend: "rcvihc (state_after cfg evs st m) \<noteq> []" if "i \<le> m" "m \<le> k" for m
  proof (rule pending_until [OF assms(1) _ that(1)])
    from first that(2) show "\<forall>n. i \<le> n \<and> n < m \<longrightarrow> \<not> function_event (evs !! n)"
      by auto
  qed
  from k(1) have pk: "rcvihc (state_after cfg evs st k) \<noteq> []"
    by (rule pend) simp
  from function_event_answers [OF k(3) pk, of cfg] k(1,2) pend show ?thesis
    unfolding state_after_Suc by blast
qed

text \<open>While function lines keep coming, no address stays pending for ever.\<close>

lemma recurring_functions_clear:
  assumes "\<forall>i. \<exists>j\<ge>i. function_event (evs !! j)"
  shows "\<exists>k\<ge>i. rcvihc (state_after cfg evs st (Suc k)) = []"
proof -
  from assms obtain j where "i \<le> j" and "function_event (evs !! j)"
    by blast
  then show ?thesis
    unfolding state_after_Suc by (blast intro: function_event_clears)
qed

section \<open>An example run\<close>

definition bus_example :: "gw_event stream" where
  "bus_example =
     [MonitorLine addr_A1, Client (ConnAck 0), MonitorLine func_On] @- sconst (Client (ConnAck 0))"

lemma step_addr_A1: "rcvihc (snd (monitor_step demo_config addr_A1 init_state)) = ''A1''"
  by code_simp

lemma search_func_On: "re_search rercvifunc func_On \<noteq> None"
  by code_simp

lemma bus_example_pending: "rcvihc (state_after demo_config bus_example init_state 1) \<noteq> []"
  by (simp add: bus_example_def run_events_Cons step_addr_A1 del: run_events.simps(2,3))

lemma bus_example_function: "function_event (bus_example !! 2)"
  by (simp add: bus_example_def search_func_On eval_nat_numeral)

section \<open>Progress of the monitor flow\<close>

text \<open>
  C13. A pending address is answered by the next function line, whatever the
  client's thread does in between: if an address is pending after \<open>i\<close> events of
  a run and some later event \<open>j\<close> is a function line, then there is an event \<open>k\<close>
  from \<open>i\<close> to \<open>j\<close>, a function line, up to which the address stays pending,
  at which exactly one state update is published, for the address the handler
  finds then and with the function of that line in upper case, and after which
  no address is pending.
\<close>

theorem pending_address_is_answered:
  assumes "rcvihc (state_after cfg evs st i) \<noteq> []"
    and "i \<le> j" and "function_event (evs !! j)"
  shows "\<exists>k line f. i \<le> k \<and> k \<le> j
           \<and> (\<forall>m. i \<le> m \<and> m \<le> k \<longrightarrow> rcvihc (state_after cfg evs st m) \<noteq> [])
           \<and> evs !! k = MonitorLine line \<and> re_search rercvifunc line = Some f
           \<and> publishes (effects_at cfg evs st k)
               = [Publish (stattopic cfg @ ''/''
                            @ py_lower (addressed line (state_after cfg evs st k)))
                    (py_upper (group1 f)) True]
           \<and> rcvihc (state_after cfg evs st (Suc k)) = []"
  using assms by (rule pending_answered)

theorem pending_address_is_answered_witness:
  "rcvihc (state_after demo_config bus_example init_state 1) \<noteq> []
   \<and> function_event (bus_example !! 2)
   \<and> (\<exists>k\<ge>1. k \<le> 2 \<and> rcvihc (state_after demo_config bus_example init_state (Suc k)) = [])"
  using pending_address_is_answered [where cfg = demo_config and evs = bus_example
      and st = init_state and i = 1 and j = 2] bus_example_pending bus_example_function
  by (simp del: stake.simps) blast

end
