(* ===== verification/Service.thy ===== *)
theory Service
  imports Startup Generator
begin

text \<open>
  The whole script of \<^verbatim>\<open>src/x10mqtt.py\<close> as a service: \<open>gateway_run\<close> is the main
  thread from the reading of the environment (lines 28 to 101) over the
  start-up sequence (lines 243 to 267) to the loop over the generator (lines
  281 to 287), against a \<^verbatim>\<open>heyu monitor\<close> that may never end. Its value \<open>None\<close> is
  the gateway that keeps running. On a process whose output ends it is
  \<open>gateway_main\<close> of theory \<open>Startup\<close> on the lines before the end.
\<close>

section \<open>Definition\<close>

definition gateway_run :: "environ \<Rightarrow> bool \<Rightarrow> heyu \<Rightarrow> gw_state outcome option" where
  "gateway_run env connected p =
     (case load_config env of
        (effs, Inl err) \<Rightarrow> Some (effs, Inl err)
      | (effs, Inr cfg) \<Rightarrow>
          (case startup cfg connected of
             (effs', Inl err) \<Rightarrow> Some (effs @ effs', Inl err)
           | (effs', Inr u) \<Rightarrow> prefixed (effs @ effs') (main_loop cfg p monitor init_state)))"

section \<open>The run, case by case\<close>

lemma gateway_run_no_config:
  "load_config env = (effs, Inl err) \<Longrightarrow> gateway_run env connected p = Some (effs, Inl err)"
  by (simp add: gateway_run_def)

lemma gateway_run_not_connected:
  "load_config env = (effs, Inr cfg) \<Longrightarrow>
   gateway_run env False p = Some (effs @ fst (startup cfg False), Inl (SystemExit 1))"
  by (simp add: gateway_run_def startup_def Let_def)

lemma gateway_run_connected:
  "load_config env = (effs, Inr cfg) \<Longrightarrow>
   gateway_run env True p
     = prefixed (effs @ fst (startup cfg True)) (main_loop cfg p monitor init_state)"
  by (simp add: gateway_run_def startup_def Let_def)

lemmas gateway_run_cases =
  gateway_run_no_config gateway_run_not_connected gateway_run_connected

lemma prefixed_Some: "prefixed effs (Some r) = Some (effs @ fst r, snd r)"
  by (cases r) simp

lemma gateway_run_ended:
  assumes "main_loop (projr (snd (load_config env))) p monitor init_state
             = Some (monitor_main (projr (snd (load_config env))) mon init_state)"
  shows "gateway_run env connected p = Some (gateway_main env connected mon)"
proof (cases "load_config env")
  case (Pair effs res)
  with assms show ?thesis
    by (cases res; cases connected)
       (simp_all add: gateway_run_cases gateway_main_cases prefixed_Some)
qed

lemma gateway_run_finite:
  assumes "spawns p" and "readlines p = lines @- out" and "[] \<notin> set lines" and "shd out = []"
  shows "gateway_run env connected p
           = Some (gateway_main env connected (Monitored lines (exit_status p)))"
  using assms by (intro gateway_run_ended main_loop_monitor_finite)

lemma gateway_run_not_spawned:
  "\<not> spawns p \<Longrightarrow> gateway_run env connected p = Some (gateway_main env connected MonitorNotStarted)"
  by (intro gateway_run_ended main_loop_monitor_not_spawned)

lemma gateway_run_None_iff:
  "gateway_run env connected p = None
     \<longleftrightarrow> env ''MQTT_HOST'' \<noteq> None \<and> Option.bind (env ''MQTT_PORT'') py_int \<noteq> None
         \<and> connected \<and> spawns p \<and> [] \<notin> sset (readlines p)"
proof (cases "load_config env")
  case (Pair effs res)
  with load_config_result [of env] show ?thesis
    by (cases res; cases connected)
       (auto simp: gateway_run_cases main_loop_monitor_None_iff)
qed

section \<open>Properties of the service\<close>

text \<open>
  C15. The gateway is a service that ends only by failing or with heyu: it
  keeps running if and only if the configuration could be read, the connection
  to the broker succeeded, \<^verbatim>\<open>heyu monitor\<close> could be started and its output never
  ends.
\<close>

theorem gateway_runs_while_heyu_runs:
  "gateway_run env connected p = None
     \<longleftrightarrow> env ''MQTT_HOST'' \<noteq> None \<and> Option.bind (env ''MQTT_PORT'') py_int \<noteq> None
         \<and> connected \<and> spawns p \<and> [] \<notin> sset (readlines p)"
  by (rule gateway_run_None_iff)

end
