(* ===== verification/Json_Payload.thy ===== *)
theory Json_Payload
  imports Discovery
begin

text \<open>
  The payload of a discovery announcement of \<^verbatim>\<open>src/x10mqtt.py\<close> (line 234) read
  back. \<open>json_loads\<close> is a reader for the JSON texts the announcer can produce
  and more: an object whose members are strings, with white space allowed
  around the punctuation, every escape of a string literal, and no raw control
  character inside one. It returns the members in the order of the text. A
  \<^verbatim>\<open>\u\<close> escape above 255 has no character in this model and is refused.

  The reader recurses on what is left of the text after a member; that this is
  shorter is the termination proof of \<open>json_members\<close>. The last section shows
  that reading inverts \<^verbatim>\<open>json.dumps\<close>: whatever the configured topics contain,
  the payload is an object a reader accepts, and it carries exactly the
  descriptor it was made from.
\<close>

section \<open>Reading a string literal\<close>

definition unhex :: "char \<Rightarrow> nat option" where
  "unhex c =
     (if in_range CHR ''0'' CHR ''9'' c then Some (of_char c - 48)
      else if in_range CHR ''a'' CHR ''f'' c then Some (of_char c - 87)
      else if in_range CHR ''A'' CHR ''F'' c then Some (of_char c - 55)
      else None)"

definition unhex4 :: "char \<Rightarrow> char \<Rightarrow> char \<Rightarrow> char \<Rightarrow> char option" where
  "unhex4 a b c d =
     (case (unhex a, unhex b, unhex c, unhex d) of
        (Some x, Some y, Some z, Some w) \<Rightarrow>
          if x = 0 \<and> y = 0 then Some (char_of (z * 16 + w)) else None
      | _ \<Rightarrow> None)"

definition json_unescape :: "char \<Rightarrow> char option" where
  "json_unescape e =
     (if e = dquote \<or> e = backslash \<or> e = CHR ''/'' then Some e
      else if e = CHR ''b'' then Some (CHR 0x08)
      else if e = CHR ''f'' then Some (CHR 0x0C)
      else if e = CHR ''n'' then Some (CHR 0x0A)
      else if e = CHR ''r'' then Some (CHR 0x0D)
      else if e = CHR ''t'' then Some (CHR 0x09)
      else None)"

fun json_chars :: "string \<Rightarrow> (string \<times> string) option" where
  "json_chars [] = None"
| "json_chars (c # cs) =
     (if c = dquote then Some ([], cs)
      else if c = backslash then
        (case cs of
           [] \<Rightarrow> None
         | e # cs' \<Rightarrow>
             if e = CHR ''u'' then
               (case cs' of
                  a # b # x # y # cs'' \<Rightarrow>
                    (case unhex4 a b x y of
                       None \<Rightarrow> None
                     | Some d \<Rightarrow> map_option (apfst ((#) d)) (json_chars cs''))
                | _ \<Rightarrow> None)
             else
               (case json_unescape e of
                  None \<Rightarrow> None
                | Some d \<Rightarrow> map_option (apfst ((#) d)) (json_chars cs')))
      else if (of_char c :: nat) < 32 then None
      else map_option (apfst ((#) c)) (json_chars cs))"

definition json_str :: "string \<Rightarrow> (string \<times> string) option" where
  "json_str s = (case s of [] \<Rightarrow> None | c # cs \<Rightarrow> if c = dquote then json_chars cs else None)"

section \<open>Reading an object of strings\<close>

definition is_ws :: "char \<Rightarrow> bool" where
  "is_ws c \<longleftrightarrow> c = CHR '' '' \<or> c = CHR 0x09 \<or> c = CHR 0x0A \<or> c = CHR 0x0D"

definition skip_ws :: "string \<Rightarrow> string" where
  "skip_ws = dropWhile is_ws"

definition json_member :: "string \<Rightarrow> ((string \<times> string) \<times> string) option" where
  "json_member s =
     (case json_str (skip_ws s) of
        None \<Rightarrow> None
      | Some (k, r) \<Rightarrow>
          (case skip_ws r of
             [] \<Rightarrow> None
           | c # r' \<Rightarrow>
               if c = CHR '':'' then
                 (case json_str (skip_ws r') of
                    None \<Rightarrow> None
                  | Some (v, r'') \<Rightarrow> Some ((k, v), r''))
               else None))"

lemma json_chars_shorter: "json_chars s = Some (d, r) \<Longrightarrow> length r < length s"
proof (induction "length s" arbitrary: s d r rule: less_induct)
  case less
  have IH: "length r' < length s'"
    if "json_chars s' = Some (d', r')" and "length s' < length s" for s' d' r'
    using that(2,1) by (rule less.hyps)
  from less.prems show ?case
    by (cases s) (auto split: if_splits list.splits option.splits dest!: IH)
qed

lemma json_str_shorter: "json_str s = Some (d, r) \<Longrightarrow> length r < length s"
  by (auto simp: json_str_def split: list.splits if_splits dest: json_chars_shorter)

lemma skip_ws_length: "length (skip_ws s) \<le> length s"
  by (simp add: skip_ws_def length_dropWhile_le)

lemma skip_ws_Cons_length: "skip_ws s = c # r \<Longrightarrow> length r < length s"
  using skip_ws_length [of s] by simp

lemma json_member_shorter: "json_member s = Some (kv, r) \<Longrightarrow> length r < length s"
proof -
  assume "json_member s = Some (kv, r)"
  then obtain k r1 c r2 v where "json_str (skip_ws s) = Some (k, r1)" "skip_ws r1 = c # r2"
    "json_str (skip_ws r2) = Some (v, r)"
    by (auto simp: json_member_def split: option.splits list.splits if_splits)
  from json_str_shorter [OF this(1)] skip_ws_Cons_length [OF this(2)] json_str_shorter [OF this(3)]
    skip_ws_length [of s] skip_ws_length [of r2]
  show ?thesis by simp
qed

function json_members :: "string \<Rightarrow> (string \<times> string) list option" where
  "json_members s =
     (case skip_ws s of
        [] \<Rightarrow> None
      | c # r \<Rightarrow>
          if c = CHR ''}'' then (if skip_ws r = [] then Some [] else None)
          else if c = CHR '','' then
            (case json_member r of
               None \<Rightarrow> None
             | Some (kv, r') \<Rightarrow> map_option ((#) kv) (json_members r'))
          else None)"
  by pat_completeness auto

termination
proof (relation "measure length")
  show "wf (measure length)" by simp
next
  fix s c r x2 kv r'
  assume "skip_ws s = c # r" and "json_member r = Some x2" and "(kv, r') = x2"
  then have "length r < length s" and "length r' < length r"
    by (auto dest: skip_ws_Cons_length json_member_shorter)
  then show "(r', s) \<in> measure length" by simp
qed

definition json_loads :: "string \<Rightarrow> (string \<times> string) list option" where
  "json_loads s =
     (case skip_ws s of
        [] \<Rightarrow> None
      | c # r \<Rightarrow>
          if c = CHR ''{'' then
            (case skip_ws r of
               [] \<Rightarrow> None
             | d # r' \<Rightarrow>
                 if d = CHR ''}'' then (if skip_ws r' = [] then Some [] else None)
                 else (case json_member r of
                         None \<Rightarrow> None
                       | Some (kv, r'') \<Rightarrow> map_option ((#) kv) (json_members r'')))
          else None)"

declare json_members.simps [simp del]

text \<open>The payload of a published message.\<close>

fun publish_payload :: "effect \<Rightarrow> string" where
  "publish_payload (Publish t p r) = p"
| "publish_payload e = []"

section \<open>Round trip of a string\<close>

lemma unhex_hex_digit: "d < 16 \<Longrightarrow> unhex (hex_digit d) = Some d"
  by (simp add: unhex_def hex_digit_def in_range_def of_char_of)

lemma unhex_zero [simp]: "unhex CHR ''0'' = Some 0"
  by (simp add: unhex_def in_range_def)

lemma hex_halves: "(n :: nat) < 256 \<Longrightarrow> n div 16 mod 16 * 16 + n mod 16 = n"
proof -
  assume "n < 256"
  then have "n div 16 < 16"
    by simp
  then have "n div 16 mod 16 = n div 16"
    by simp
  then show ?thesis by simp
qed

lemma unhex4_hex2:
  "unhex4 CHR ''0'' CHR ''0'' (hex_digit (of_char c div 16 mod 16)) (hex_digit (of_char c mod 16))
     = Some c"
  using hex_halves [OF of_char_less_256 [of c]] by (simp add: unhex4_def unhex_hex_digit)

lemma json_chars_plain:
  "c \<noteq> dquote \<Longrightarrow> c \<noteq> backslash \<Longrightarrow> in_range CHR '' '' CHR ''~'' c \<Longrightarrow>
   json_chars (c # r) = map_option (apfst ((#) c)) (json_chars r)"
  by (simp add: in_range_def)

lemma json_chars_short:
  "json_chars (backslash # backslash # r) = map_option (apfst ((#) backslash)) (json_chars r)"
  "json_chars (backslash # dquote # r) = map_option (apfst ((#) dquote)) (json_chars r)"
  "json_chars (backslash # CHR ''b'' # r) = map_option (apfst ((#) (CHR 0x08))) (json_chars r)"
  "json_chars (backslash # CHR ''f'' # r) = map_option (apfst ((#) (CHR 0x0C))) (json_chars r)"
  "json_chars (backslash # CHR ''n'' # r) = map_option (apfst ((#) (CHR 0x0A))) (json_chars r)"
  "json_chars (backslash # CHR ''r'' # r) = map_option (apfst ((#) (CHR 0x0D))) (json_chars r)"
  "json_chars (backslash # CHR ''t'' # r) = map_option (apfst ((#) (CHR 0x09))) (json_chars r)"
  by (simp_all add: json_unescape_def backslash_def dquote_def)

lemma json_chars_u:
  "json_chars (backslash # CHR ''u'' # CHR ''0'' # CHR ''0'' # hex2 (of_char c) @ r)
     = map_option (apfst ((#) c)) (json_chars r)"
  by (simp add: hex2_def unhex4_hex2 backslash_def dquote_def)

lemma json_chars_escape:
  "json_chars (json_escape_char c @ r) = map_option (apfst ((#) c)) (json_chars r)"
  by (simp add: json_escape_char_def json_chars_plain json_chars_short json_chars_u
      del: json_chars.simps)

lemma json_chars_string:
  "json_chars (concat (map json_escape_char s) @ dquote # r) = Some (s, r)"
proof (induction s)
  case Nil
  show ?case by simp
next
  case (Cons c s)
  then show ?case
    by (simp add: json_chars_escape del: json_chars.simps)
qed

lemma json_str_string: "json_str (json_string s @ r) = Some (s, r)"
  by (simp add: json_str_def json_string_def json_chars_string del: json_chars.simps)

section \<open>Round trip of an object\<close>

lemma skip_ws_simps [simp]:
  "skip_ws [] = []"
  "skip_ws (CHR '' '' # r) = skip_ws r"
  "skip_ws (dquote # r) = dquote # r"
  "skip_ws (CHR '':'' # r) = CHR '':'' # r"
  "skip_ws (CHR '','' # r) = CHR '','' # r"
  "skip_ws (CHR ''{'' # r) = CHR ''{'' # r"
  "skip_ws (CHR ''}'' # r) = CHR ''}'' # r"
  by (simp_all add: skip_ws_def is_ws_def dquote_def)

lemma json_string_Cons: "json_string s = dquote # concat (map json_escape_char s) @ [dquote]"
  by (simp add: json_string_def)

lemma skip_ws_json_string [simp]: "skip_ws (json_string s @ r) = json_string s @ r"
  by (simp add: json_string_Cons)

definition json_pair :: "string \<times> string \<Rightarrow> string" where
  "json_pair kv = json_string (fst kv) @ '': '' @ json_string (snd kv)"

lemma json_dumps_pairs: "json_dumps kvs = ''{'' @ py_join_str '', '' (map json_pair kvs) @ ''}''"
proof -
  have "(\<lambda>(k, v). json_string k @ '': '' @ json_string v) = json_pair"
    by (auto simp: json_pair_def)
  then show ?thesis by (simp add: json_dumps_def)
qed

lemma json_member_pair: "json_member (json_pair kv @ r) = Some (kv, r)"
  by (simp add: json_pair_def json_member_def json_str_string)

lemma json_member_space_pair: "json_member (CHR '' '' # json_pair kv @ r) = Some (kv, r)"
  using json_member_pair [of kv r] by (simp add: json_member_def)

lemma skip_ws_json_pair: "skip_ws (json_pair kv @ r) = dquote # tl (json_pair kv @ r)"
  by (simp add: json_pair_def json_string_Cons)

lemma py_join_str_Cons: "py_join_str sep (x # xs) = x @ concat (map ((@) sep) xs)"
  by (induction xs arbitrary: x) simp_all

lemma json_members_tail:
  "json_members (concat (map (\<lambda>kv. CHR '','' # CHR '' '' # json_pair kv) kvs) @ ''}'') = Some kvs"
proof (induction kvs)
  case Nil
  show ?case by (subst json_members.simps) simp
next
  case (Cons kv kvs)
  then show ?case
    by (subst json_members.simps) (simp add: json_member_space_pair)
qed

lemma json_loads_dumps: "json_loads (json_dumps kvs) = Some kvs"
proof (cases kvs)
  case Nil
  then show ?thesis by (simp add: json_loads_def json_dumps_def)
next
  case (Cons kv kvs')
  have "json_dumps kvs = CHR ''{'' # json_pair kv
      @ concat (map (\<lambda>kv. '', '' @ json_pair kv) kvs') @ ''}''"
    by (simp add: json_dumps_pairs Cons py_join_str_Cons comp_def)
  with Cons show ?thesis
    by (simp add: json_loads_def skip_ws_json_pair json_member_pair json_members_tail dquote_def)
qed

lemma json_dumps_inject: "json_dumps kvs = json_dumps kvs' \<longleftrightarrow> kvs = kvs'"
  by (metis json_loads_dumps option.inject)

section \<open>The payload of an announcement\<close>

text \<open>
  C26. The payload of an announcement reads back as the descriptor: a JSON
  reader applied to what \<^verbatim>\<open>json.dumps\<close> prints for a dictionary of strings returns
  that dictionary, key by key in order, whatever characters the strings
  contain; so the one message published for a unit carries exactly the name,
  the two topics and the identifier of that unit.
\<close>

theorem announcement_payload_round_trip:
  "json_loads (json_dumps kvs) = Some kvs
   \<and> map (\<lambda>e. json_loads (publish_payload e)) (publishes (ha_discovery_announce cfg house unit))
       = [Some (discovery_config cfg house unit)]"
  by (simp add: json_loads_dumps)

end
