(* ===== verification/Loopback.thy ===== *)
theory Loopback
  imports Flows "HOL-Library.Stream"
begin

text \<open>
  The gateway of \<^verbatim>\<open>src/x10mqtt.py\<close> as a receiver of its own messages. Line 187
  subscribes to the filter \<^verbatim>\<open>cmdtopic/+\<close>, and a broker delivers to a client every
  message whose topic matches one of its filters, the client's own messages and
  the retained ones included. \<open>topic_matches\<close> is the matching of a topic name
  against a filter, level by level, with the wildcards \<^verbatim>\<open>+\<close> and \<^verbatim>\<open>#\<close>; \<open>delivered\<close>
  is the subscription of line 187.

  The lemmas characterise the filter of line 187 (\<open>delivered_segment\<close>) and put
  it together with \<open>on_message\<close>, \<open>execute\<close> and the invariant of theory \<open>Flows\<close>:
  with different prefixes for commands and states the gateway never acts on a
  message of its own; with the same prefix every state update is a command that
  publishes itself again. A section of its own shows that the topics the
  gateway publishes on have a wildcard exactly when the configured prefix has.

  \<open>drain\<close> is the client's thread working off its inbox while the broker
  delivers back what the callbacks publish: a partial function, whose value
  \<open>None\<close> is the inbox that never empties. The exit statuses of the successive
  invocations of heyu are a stream.
\<close>

section \<open>Topic filters\<close>

text \<open>
  A filter level \<^verbatim>\<open>+\<close> matches any one level, \<^verbatim>\<open>#\<close> as the last level matches the
  parent and everything below it; a topic that starts with \<^verbatim>\<open>$\<close> is not matched
  by a filter that starts with a wildcard.
\<close>

fun levels_match :: "string list \<Rightarrow> string list \<Rightarrow> bool" where
  "levels_match [] [] \<longleftrightarrow> True"
| "levels_match [] (t # ts) \<longleftrightarrow> False"
| "levels_match (f # fs) [] \<longleftrightarrow> f = ''#'' \<and> fs = []"
| "levels_match (f # fs) (t # ts) \<longleftrightarrow>
     (if f = ''#'' then fs = [] else (f = ''+'' \<or> f = t) \<and> levels_match fs ts)"

definition topic_matches :: "string \<Rightarrow> string \<Rightarrow> bool" where
  "topic_matches flt t \<longleftrightarrow>
     levels_match (py_split CHR ''/'' flt) (py_split CHR ''/'' t)
     \<and> \<not> (hd (py_split CHR ''/'' flt) \<in> {''+'', ''#''} \<and> t \<noteq> [] \<and> hd t = CHR ''$'')"

text \<open>Line 187: \<^verbatim>\<open>client.subscribe(cmdtopic+"/+")\<close>.\<close>

definition delivered :: "config \<Rightarrow> string \<Rightarrow> bool" where
  "delivered cfg t \<longleftrightarrow> topic_matches (cmdtopic cfg @ ''/+'') t"

text \<open>A topic name, as opposed to a filter, has no wildcard character.\<close>

definition wildcard_free :: "string \<Rightarrow> bool" where
  "wildcard_free t \<longleftrightarrow> CHR ''+'' \<notin> set t \<and> CHR ''#'' \<notin> set t"

text \<open>
  What the broker delivers back to the client of what a callback did: the
  published messages that match the subscription, in order.
\<close>

definition returned :: "config \<Rightarrow> effect list \<Rightarrow> message list" where
  "returned cfg effs =
     concat (map (\<lambda>e. case e of
                        Publish t p r \<Rightarrow> if delivered cfg t then [\<lparr>topic = t, payload = Decoded p\<rparr>] else []
                      | _ \<Rightarrow> [])
                 effs)"

text \<open>
  The client's thread and the broker: \<^verbatim>\<open>on_message\<close> for the first message of the
  inbox, with heyu exiting with the next status, then the rest of the inbox
  followed by what came back.
\<close>

partial_function (option) drain :: "config \<Rightarrow> int stream \<Rightarrow> message list \<Rightarrow> effect list option" where
  "drain cfg rcs inbox =
     (case inbox of
        [] \<Rightarrow> Some []
      | msg # msgs \<Rightarrow>
          (case on_message cfg (Exited (shd rcs)) msg of
             (effs, res) \<Rightarrow>
               Option.bind (drain cfg (stl rcs) (msgs @ returned cfg effs))
                 (\<lambda>effs'. Some (effs @ effs'))))"

text \<open>A message that carries a valid command on the command topic of a device.\<close>

definition command_msg :: "config \<Rightarrow> message \<Rightarrow> bool" where
  "command_msg cfg msg \<longleftrightarrow>
     (\<exists>seg body. msg = \<lparr>topic = cmdtopic cfg @ CHR ''/'' # seg, payload = Decoded body\<rparr>
        \<and> is_housecode (py_upper seg) \<and> CHR ''/'' \<notin> set seg
        \<and> (py_upper body = ''ON'' \<or> py_upper body = ''OFF''))"

text \<open>An inbox of valid commands for a gateway whose two prefixes are equal.\<close>

definition feeding :: "config \<Rightarrow> message list \<Rightarrow> bool" where
  "feeding cfg inbox \<longleftrightarrow>
     stattopic cfg = cmdtopic cfg \<and> wildcard_free (cmdtopic cfg)
     \<and> inbox \<noteq> [] \<and> list_all (command_msg cfg) inbox"

section \<open>A filter that ends in one wildcard level\<close>

definition plain_level :: "string \<Rightarrow> bool" where
  "plain_level f \<longleftrightarrow> f \<noteq> ''+'' \<and> f \<noteq> ''#''"

lemma levels_match_plus_Nil: "\<not> levels_match (fs @ [''+'']) []"
  by (cases fs) simp_all

lemma levels_match_Nil_snoc: "\<not> levels_match [] (ts @ [seg])"
  by (cases ts) simp_all

lemma levels_match_plus:
  "list_all plain_level fs \<Longrightarrow> levels_match (fs @ [''+'']) (ts @ [seg]) \<longleftrightarrow> fs = ts"
proof (induction fs arbitrary: ts)
  case Nil
  show ?case by (cases ts) (simp_all add: levels_match_Nil_snoc)
next
  case (Cons f fs)
  then show ?case
    by (cases ts) (auto simp: plain_level_def levels_match_plus_Nil)
qed

lemma levels_match_plus_single:
  "fs \<noteq> [] \<Longrightarrow> list_all plain_level fs \<Longrightarrow> \<not> levels_match (fs @ [''+'']) [t]"
  by (cases fs) (auto simp: plain_level_def levels_match_plus_Nil)

lemma wildcard_free_levels:
  "wildcard_free t \<Longrightarrow> list_all plain_level (py_split CHR ''/'' t)"
proof -
  assume wf: "wildcard_free t"
  have "set seg \<subseteq> set t" if "seg \<in> set (py_split CHR ''/'' t)" for seg
    using that
  proof (induction t arbitrary: seg)
    case Nil
    then show ?case by simp
  next
    case (Cons c t)
    show ?case
    proof (cases "c = CHR ''/''")
      case True
      with Cons show ?thesis by auto
    next
      case False
      with Cons.prems have "seg = c # hd (py_split CHR ''/'' t) \<or> seg \<in> set (tl (py_split CHR ''/'' t))"
        by (simp add: py_split_Cons del: py_split.simps(2))
      moreover have "hd (py_split CHR ''/'' t) \<in> set (py_split CHR ''/'' t)"
        by simp
      moreover have "set (tl (py_split CHR ''/'' t)) \<subseteq> set (py_split CHR ''/'' t)"
        by (cases "py_split CHR ''/'' t") auto
      ultimately show ?thesis
        using Cons.IH by fastforce
    qed
  qed
  with wf show ?thesis
    by (fastforce simp: list_all_iff plain_level_def wildcard_free_def)
qed

lemma py_split_inject: "py_split sep s = py_split sep t \<Longrightarrow> s = t"
  by (metis py_join_split)

lemma py_split_filter: "py_split CHR ''/'' (pre @ ''/+'') = py_split CHR ''/'' pre @ [''+'']"
  by (simp add: py_split_append_sep py_split_no_sep)

lemma py_split_hd_append:
  "hd (py_split sep pre @ xs) = hd (py_split sep pre)"
  by (cases "py_split sep pre") simp_all

lemma delivered_segment:
  assumes "wildcard_free (cmdtopic cfg)" and "CHR ''/'' \<notin> set seg"
  shows "delivered cfg (pre @ CHR ''/'' # seg) \<longleftrightarrow> pre = cmdtopic cfg"
proof -
  note levels = wildcard_free_levels [OF assms(1)]
  have "plain_level (hd (py_split CHR ''/'' (cmdtopic cfg)))"
    using levels by (cases "py_split CHR ''/'' (cmdtopic cfg)") simp_all
  then have "hd (py_split CHR ''/'' (cmdtopic cfg @ ''/+'')) \<notin> {''+'', ''#''}"
    unfolding py_split_filter py_split_hd_append by (simp add: plain_level_def)
  moreover have "levels_match (py_split CHR ''/'' (cmdtopic cfg @ ''/+''))
      (py_split CHR ''/'' (pre @ CHR ''/'' # seg)) \<longleftrightarrow> cmdtopic cfg = pre"
    unfolding py_split_filter
    using assms(2) levels
    by (auto simp: py_split_append_sep py_split_no_sep levels_match_plus dest: py_split_inject)
  ultimately show ?thesis
    by (auto simp: delivered_def topic_matches_def)
qed

lemma delivered_needs_slash:
  assumes "wildcard_free (cmdtopic cfg)" and "delivered cfg t"
  shows "CHR ''/'' \<in> set t"
proof (rule ccontr)
  assume "CHR ''/'' \<notin> set t"
  then have "py_split CHR ''/'' t = [t]"
    by (rule py_split_no_sep)
  with assms(2) wildcard_free_levels [OF assms(1)] show False
    by (simp add: delivered_def topic_matches_def py_split_filter levels_match_plus_single)
qed

section \<open>What the gateway publishes, as a message it receives\<close>

lemma slash_upper: "CHR ''/'' \<in> set s \<Longrightarrow> CHR ''/'' \<in> set (py_upper s)"
proof -
  assume "CHR ''/'' \<in> set s"
  then have "upper_char CHR ''/'' \<in> set (py_upper s)"
    by (auto simp: py_upper_def)
  then show ?thesis by (simp add: char_eval)
qed

lemma hcpattern_no_slash: "re_match hcpattern s \<noteq> None \<Longrightarrow> CHR ''/'' \<notin> set s"
  unfolding hcpattern_accepts by (auto simp: newline_def dest: is_housecode_no_slash)

lemma state_update_topic:
  assumes "is_state_update cfg (Publish t p r)"
  obtains seg where "t = stattopic cfg @ CHR ''/'' # seg" and "CHR ''/'' \<notin> set seg"
proof -
  let ?seg = "drop (Suc (length (stattopic cfg))) t"
  from assms have pre: "prefix (stattopic cfg @ ''/'') t"
    and hc: "re_match hcpattern (py_upper ?seg) \<noteq> None"
    by simp_all
  from pre have "t = stattopic cfg @ CHR ''/'' # ?seg"
    by (auto simp: prefix_def)
  moreover from hc have "CHR ''/'' \<notin> set (py_upper ?seg)"
    by (rule hcpattern_no_slash)
  then have "CHR ''/'' \<notin> set ?seg"
    using slash_upper [of ?seg] by blast
  ultimately show thesis by (rule that)
qed

lemma state_update_not_delivered:
  assumes "wildcard_free (cmdtopic cfg)" and "cmdtopic cfg \<noteq> stattopic cfg"
    and "is_state_update cfg (Publish t p r)"
  shows "\<not> delivered cfg t"
proof -
  from assms(3) obtain seg where "t = stattopic cfg @ CHR ''/'' # seg" and "CHR ''/'' \<notin> set seg"
    by (rule state_update_topic)
  with assms(1,2) show ?thesis
    by (auto simp: delivered_segment)
qed

lemma json_dumps_not_command: "\<not> valid_command (command_of (json_dumps kvs)) hc"
  by (simp add: valid_command_iff command_of_def json_dumps_def upper_char_def char_eval)

lemma announcement_is_silent:
  "is_announcement cfg (Publish t p r) \<Longrightarrow>
   silent (fst (on_message cfg res \<lparr>topic = t, payload = Decoded p\<rparr>))"
  by (auto simp: is_announcement_def silent_on_message json_dumps_not_command)

lemma own_message_ignored:
  assumes "wildcard_free (cmdtopic cfg)" and "cmdtopic cfg \<noteq> stattopic cfg"
    and "gw_publish cfg (Publish t p r)"
  shows "\<not> delivered cfg t \<or> silent (fst (on_message cfg res \<lparr>topic = t, payload = Decoded p\<rparr>))"
  using assms unfolding gw_publish_def
  by (blast dest: state_update_not_delivered announcement_is_silent)

lemma command_effects:
  assumes "is_housecode (py_upper seg)" and "CHR ''/'' \<notin> set seg"
    and "py_upper body = ''ON'' \<or> py_upper body = ''OFF''"
  shows "fst (on_message cfg (Exited rc) \<lparr>topic = pre @ CHR ''/'' # seg, payload = Decoded body\<rparr>)
     = [Print (''Received: '' @ pre @ CHR ''/'' # seg @ '' '' @ py_upper body),
        Print (''Sending X10 command to homecode '' @ py_upper seg)]
       @ fst (execute cfg (Exited rc) (py_upper body) (py_upper seg))"
proof -
  let ?msg = "\<lparr>topic = pre @ CHR ''/'' # seg, payload = Decoded body\<rparr>"
  from assms(2) have hc: "hc_of_topic (topic ?msg) = py_upper seg"
    by (simp add: hc_of_topic_append)
  with assms(1,3) have "valid_command (command_of body) (hc_of_topic (topic ?msg))"
    by (intro valid_command_housecode) (simp_all add: command_of_def)
  then show ?thesis
    using hc by (simp add: on_message_valid command_of_def)
qed

lemma example_trace:
  "publishes (fst (run_events demo_config [MonitorLine addr_A1, MonitorLine func_On] init_state))
     = [Publish ''x10/stat/a1'' ''ON'' True]"
  by code_simp

lemma example_published:
  "Publish ''x10/stat/a1'' ''ON'' True
     \<in> set (publishes (fst (run_events demo_config [MonitorLine addr_A1, MonitorLine func_On] init_state)))"
  by (simp only: example_trace) simp

lemma demo_config_topics:
  "wildcard_free (cmdtopic demo_config)" "cmdtopic demo_config \<noteq> stattopic demo_config"
  by (simp_all add: demo_config_def wildcard_free_def)

lemma example_not_silent:
  "\<not> silent (fst (on_message demo_config (Exited 0) \<lparr>topic = ''x10/stat/a1'', payload = Decoded ''ON''\<rparr>))"
  by code_simp

lemma example_command:
  "is_housecode (py_upper ''a1'')" "py_upper ''ON'' = ''ON''" "CHR ''/'' \<notin> set ''a1''"
  by (simp_all add: char_eval house_letter_def)

section \<open>The topics the gateway publishes on\<close>

text \<open>
  A topic name must not be empty and must not contain a wildcard. The script
  uses the prefixes of its configuration as they are given. What it appends to
  them has no wildcard, so the topic of a state update is a topic name exactly
  when the state prefix has no wildcard, and the topic of an announcement
  exactly when the discovery prefix has none; with such prefixes the gateway
  never publishes on anything but a topic name.
\<close>

lemma wildcard_not_letter:
  "\<not> is_lower_c CHR ''+''" "\<not> is_upper_c CHR ''+''"
  "\<not> is_lower_c CHR ''#''" "\<not> is_upper_c CHR ''#''"
  by (simp_all add: char_defs)

lemma case_wildcard:
  "upper_char c = CHR ''+'' \<longleftrightarrow> c = CHR ''+''" "upper_char c = CHR ''#'' \<longleftrightarrow> c = CHR ''#''"
  "lower_char c = CHR ''+'' \<longleftrightarrow> c = CHR ''+''" "lower_char c = CHR ''#'' \<longleftrightarrow> c = CHR ''#''"
  using case_char_range [of c]
  by (cases "is_lower_c c"; cases "is_upper_c c";
      auto simp: upper_char_fixes lower_char_fixes wildcard_not_letter)+

lemma wildcard_free_iff:
  "wildcard_free []"
  "wildcard_free (c # s) \<longleftrightarrow> c \<noteq> CHR ''+'' \<and> c \<noteq> CHR ''#'' \<and> wildcard_free s"
  "wildcard_free (s @ t) \<longleftrightarrow> wildcard_free s \<and> wildcard_free t"
  by (auto simp: wildcard_free_def)

lemma wildcard_free_case:
  "wildcard_free (py_upper s) \<longleftrightarrow> wildcard_free s"
  "wildcard_free (py_lower s) \<longleftrightarrow> wildcard_free s"
  by (induction s) (simp_all add: wildcard_free_iff case_wildcard)

lemma housecode_wildcard_free: "is_housecode h \<Longrightarrow> wildcard_free h"
  by (cases h) (auto simp: wildcard_free_def list_all_iff house_letter_def digit_def char_defs)

lemma hcpattern_wildcard_free: "re_match hcpattern s \<noteq> None \<Longrightarrow> wildcard_free s"
  unfolding hcpattern_accepts
  by (auto simp: housecode_wildcard_free wildcard_free_iff newline_def)

lemma str_nat_wildcard_free: "wildcard_free (str_nat n)"
  using str_nat_digits [of n] by (auto simp: wildcard_free_def char_defs)

lemma state_update_topic_name:
  assumes "is_state_update cfg (Publish t p r)"
  shows "t \<noteq> [] \<and> (wildcard_free t \<longleftrightarrow> wildcard_free (stattopic cfg))"
proof -
  from assms obtain rest where t: "t = stattopic cfg @ ''/'' @ rest"
    and "re_match hcpattern (py_upper rest) \<noteq> None"
    by (auto simp: prefix_def simp del: not_None_eq)
  from hcpattern_wildcard_free [OF this(2)] t show ?thesis
    by (simp add: wildcard_free_iff wildcard_free_case)
qed

lemma announcement_topic_name:
  assumes "is_announcement cfg (Publish t p r)"
    and "list_all (accepts house_letter) (discoveryhouses cfg)"
  shows "t \<noteq> [] \<and> (wildcard_free t \<longleftrightarrow> wildcard_free (discoverytopic cfg))"
proof -
  from assms(1) obtain house unit where "house \<in> set (discoveryhouses cfg)"
    and t: "t = discovery_topic_of cfg house unit"
    by (auto simp: is_announcement_def simp del: upt_Suc)
  with assms(2) have "accepts house_letter house"
    by (simp add: list_all_iff)
  then have "house \<noteq> CHR ''+'' \<and> house \<noteq> CHR ''#''"
    by (auto simp: house_letter_def char_defs)
  with t show ?thesis
    by (simp add: discovery_topic_of_def wildcard_free_iff wildcard_free_case
        str_nat_wildcard_free case_wildcard)
qed

lemma reachable_topics:
  assumes "reachable cfg (st, tr)" and "Publish t p r \<in> set tr"
    and "wildcard_free (stattopic cfg)" and "wildcard_free (discoverytopic cfg)"
    and "list_all (accepts house_letter) (discoveryhouses cfg)"
  shows "t \<noteq> [] \<and> wildcard_free t"
proof -
  from assms(2) have "Publish t p r \<in> set (publishes tr)"
    by (simp add: publishes_def)
  with reachable_publishes_ok [OF assms(1)] have "gw_publish cfg (Publish t p r)"
    by (simp add: list_all_iff)
  with state_update_topic_name [of cfg t p r] announcement_topic_name [OF _ assms(5), of t p r] assms(3,4)
  show ?thesis
    by (auto simp: gw_publish_def)
qed

text \<open>
  C36. The topics the gateway publishes on are as good as the configured
  prefixes. With a configuration read from the environment, in every state
  the running gateway reaches, the topic of every message published is not
  empty, and it contains a wildcard exactly when the prefix it was built from
  does, the state prefix for a state update and the discovery prefix for an
  announcement: with prefixes free of wildcards the gateway publishes on topic
  names only, and with a wildcard in a prefix on none.
\<close>

theorem published_topics_follow_prefixes:
  assumes "load_config env = (effs, Inr cfg)" and "reachable cfg (st, tr)"
    and "Publish t p r \<in> set tr"
  shows "t \<noteq> []
       \<and> (wildcard_free t \<longleftrightarrow>
            (if is_state_update cfg (Publish t p r) then wildcard_free (stattopic cfg)
             else wildcard_free (discoverytopic cfg)))"
proof -
  from assms(3) have "Publish t p r \<in> set (publishes tr)"
    by (simp add: publishes_def)
  with reachable_publishes_ok [OF assms(2)] have "gw_publish cfg (Publish t p r)"
    by (simp add: list_all_iff)
  with state_update_topic_name [of cfg t p r]
    announcement_topic_name [OF _ load_config_discoveryhouses [OF assms(1)], of t p r]
  show ?thesis
    by (auto simp: gw_publish_def simp del: is_state_update.simps)
qed

theorem published_topics_follow_prefixes_witness:
  "''x10/stat/a1'' \<noteq> []
   \<and> (wildcard_free ''x10/stat/a1'' \<longleftrightarrow>
        (if is_state_update demo_config (Publish ''x10/stat/a1'' ''ON'' True)
         then wildcard_free (stattopic demo_config)
         else wildcard_free (discoverytopic demo_config)))"
proof -
  have "load_config [''MQTT_HOST'' \<mapsto> ''localhost'', ''MQTT_PORT'' \<mapsto> str_int 1883]
      = ([], Inr demo_config)"
    by (simp add: load_config_defaults demo_config_def)
  moreover from example_published
  have "Publish ''x10/stat/a1'' ''ON'' True
      \<in> set (fst (run_events demo_config [MonitorLine addr_A1, MonitorLine func_On] init_state))"
    by (simp add: publishes_def)
  ultimately show ?thesis
    by (rule published_topics_follow_prefixes [OF _ reachable_run])
qed

section \<open>The gateway and its own messages\<close>

text \<open>
  C16. With a command prefix that is a topic name and differs from the state
  prefix, the gateway never acts on a message of its own: of everything
  published in any reachable state, no state update is delivered back by the
  subscription of line 187, and an announcement that is delivered back is
  rejected by \<^verbatim>\<open>on_message\<close> without invoking heyu or publishing.
\<close>

theorem gateway_ignores_its_own_messages:
  assumes "wildcard_free (cmdtopic cfg)" and "cmdtopic cfg \<noteq> stattopic cfg"
    and "reachable cfg (st, tr)" and "Publish t p r \<in> set (publishes tr)"
  shows "\<not> (delivered cfg t
            \<and> \<not> silent (fst (on_message cfg res \<lparr>topic = t, payload = Decoded p\<rparr>)))"
proof -
  from reachable_publishes_ok [OF assms(3)] assms(4) have "gw_publish cfg (Publish t p r)"
    by (simp add: list_all_iff)
  from own_message_ignored [OF assms(1,2) this] show ?thesis
    by blast
qed

theorem gateway_ignores_its_own_messages_witness:
  "\<not> delivered demo_config ''x10/stat/a1''"
  using gateway_ignores_its_own_messages [OF demo_config_topics reachable_run example_published,
      of "Exited 0"]
    example_not_silent
  by simp

text \<open>
  With the same prefix for commands and states the gateway feeds itself:
  the state update published for a valid command is delivered back by the
  subscription of line 187, and as a message it is again a valid command, for
  which \<^verbatim>\<open>on_message\<close> invokes heyu with the same arguments and publishes the same
  state update once more.
\<close>

lemma equal_prefixes_feed_back:
  assumes "stattopic cfg = cmdtopic cfg" and "wildcard_free (cmdtopic cfg)"
    and "is_housecode (py_upper seg)" and "CHR ''/'' \<notin> set seg"
    and "py_upper body = ''ON'' \<or> py_upper body = ''OFF''"
  shows "publishes (fst (on_message cfg (Exited rc)
             \<lparr>topic = cmdtopic cfg @ CHR ''/'' # seg, payload = Decoded body\<rparr>))
           = [Publish (cmdtopic cfg @ CHR ''/'' # py_lower seg) (py_upper body) True]
       \<and> delivered cfg (cmdtopic cfg @ CHR ''/'' # py_lower seg)
       \<and> runs (fst (on_message cfg (Exited rc')
             \<lparr>topic = cmdtopic cfg @ CHR ''/'' # py_lower seg, payload = Decoded (py_upper body)\<rparr>))
           = runs (fst (on_message cfg (Exited rc)
             \<lparr>topic = cmdtopic cfg @ CHR ''/'' # seg, payload = Decoded body\<rparr>))
       \<and> publishes (fst (on_message cfg (Exited rc')
             \<lparr>topic = cmdtopic cfg @ CHR ''/'' # py_lower seg, payload = Decoded (py_upper body)\<rparr>))
           = [Publish (cmdtopic cfg @ CHR ''/'' # py_lower seg) (py_upper body) True]"
proof -
  from is_housecode_no_slash [OF assms(3)] slash_upper [of "py_lower seg"]
  have low: "CHR ''/'' \<notin> set (py_lower seg)"
    by auto
  from assms(3) have up: "is_housecode (py_upper (py_lower seg))"
    by simp
  from assms(5) have cmd: "py_upper (py_upper body) = ''ON'' \<or> py_upper (py_upper body) = ''OFF''"
    by simp
  note first = command_effects [OF assms(3,4,5), of cfg rc "cmdtopic cfg"]
  note again = command_effects [OF up low cmd, of cfg rc' "cmdtopic cfg"]
  from low assms(2) have "delivered cfg (cmdtopic cfg @ CHR ''/'' # py_lower seg)"
    by (simp add: delivered_segment)
  with first again assms(1) show ?thesis
    by (simp add: stat_topic_of_def heyu_argv_def)
qed

section \<open>What comes back\<close>

lemma returned_simps [simp]:
  "returned cfg [] = []"
  "returned cfg (Print s # effs) = returned cfg effs"
  "returned cfg (Run argv # effs) = returned cfg effs"
  "returned cfg (Publish t p r # effs)
     = (if delivered cfg t then [\<lparr>topic = t, payload = Decoded p\<rparr>] else []) @ returned cfg effs"
  by (simp_all add: returned_def)

lemma returned_append [simp]: "returned cfg (effs @ effs') = returned cfg effs @ returned cfg effs'"
  by (simp add: returned_def)

lemma returned_publishes: "returned cfg (publishes effs) = returned cfg effs"
  by (induction effs) (simp_all add: returned_def publishes_def split: effect.splits)

lemma returned_command:
  assumes "stattopic cfg = cmdtopic cfg" and "wildcard_free (cmdtopic cfg)" and "command_msg cfg msg"
  shows "\<exists>msg'. returned cfg (fst (on_message cfg (Exited rc) msg)) = [msg'] \<and> command_msg cfg msg'"
proof -
  from assms(3) obtain seg body
    where msg: "msg = \<lparr>topic = cmdtopic cfg @ CHR ''/'' # seg, payload = Decoded body\<rparr>"
      and hc: "is_housecode (py_upper seg)" and seg: "CHR ''/'' \<notin> set seg"
      and cmd: "py_upper body = ''ON'' \<or> py_upper body = ''OFF''"
    by (auto simp: command_msg_def)
  from is_housecode_no_slash [OF hc] slash_upper [of "py_lower seg"]
  have low: "CHR ''/'' \<notin> set (py_lower seg)"
    by auto
  with assms(2) have "delivered cfg (cmdtopic cfg @ CHR ''/'' # py_lower seg)"
    by (simp add: delivered_segment)
  with command_effects [OF hc seg cmd, of cfg rc "cmdtopic cfg"] assms(1)
  have "returned cfg (fst (on_message cfg (Exited rc) msg))
      = [\<lparr>topic = cmdtopic cfg @ CHR ''/'' # py_lower seg, payload = Decoded (py_upper body)\<rparr>]"
    by (simp add: msg execute_Exited stat_topic_of_def)
  moreover from hc low cmd
  have "command_msg cfg \<lparr>topic = cmdtopic cfg @ CHR ''/'' # py_lower seg, payload = Decoded (py_upper body)\<rparr>"
    by (auto simp: command_msg_def)
  ultimately show ?thesis by blast
qed

lemma slash_lower: "CHR ''/'' \<notin> set (py_upper s) \<Longrightarrow> CHR ''/'' \<notin> set (py_lower s)"
  using slash_upper [of "py_lower s"] by auto

lemma command_not_delivered:
  assumes "wildcard_free (cmdtopic cfg)" and "cmdtopic cfg \<noteq> stattopic cfg"
    and "valid_command c (hc_of_topic t)"
  shows "\<not> delivered cfg (stat_topic_of cfg (hc_of_topic t))"
proof -
  from assms(3) have "re_match hcpattern (hc_of_topic t) \<noteq> None"
    by (simp add: valid_command_def)
  then have "CHR ''/'' \<notin> set (hc_of_topic t)"
    by (rule hcpattern_no_slash)
  moreover have "py_upper (hc_of_topic t) = hc_of_topic t"
    by (simp add: hc_of_topic_def)
  ultimately have "CHR ''/'' \<notin> set (py_lower (hc_of_topic t))"
    by (intro slash_lower) simp
  with assms(1,2) show ?thesis
    by (auto simp: stat_topic_of_def delivered_segment)
qed

lemma returned_ignored:
  assumes "wildcard_free (cmdtopic cfg)" and "cmdtopic cfg \<noteq> stattopic cfg"
  shows "returned cfg (fst (on_message cfg res msg)) = []"
proof (cases "payload msg")
  case Undecodable
  then show ?thesis by (simp add: on_message_Undecodable)
next
  case (Decoded body)
  show ?thesis
  proof (cases "valid_command (command_of body) (hc_of_topic (topic msg))")
    case False
    with Decoded show ?thesis by (simp add: on_message_invalid)
  next
    case True
    from command_not_delivered [OF assms this] Decoded True show ?thesis
      by (cases res) (simp_all add: on_message_valid execute_Exited execute_SpawnFailed)
  qed
qed

section \<open>Whether the inbox empties\<close>

lemma drain_Nil: "drain cfg rcs [] = Some []"
  by (subst drain.simps) simp

lemma drain_Cons:
  "drain cfg rcs (msg # msgs)
     = map_option ((@) (fst (on_message cfg (Exited (shd rcs)) msg)))
         (drain cfg (stl rcs) (msgs @ returned cfg (fst (on_message cfg (Exited (shd rcs)) msg))))"
  by (subst drain.simps) (auto simp: bind_eq_None_conv map_option_case split: prod.splits option.splits)

lemma drain_settles:
  assumes "wildcard_free (cmdtopic cfg)" and "cmdtopic cfg \<noteq> stattopic cfg"
  shows "drain cfg rcs [msg] = Some (fst (on_message cfg (Exited (shd rcs)) msg))"
  by (simp add: drain_Cons returned_ignored [OF assms] drain_Nil)

text \<open>
  With equal prefixes an inbox of valid commands feeds itself: working off its
  first message leaves an inbox of the same kind, so the loop cannot return.
\<close>

lemma feeding_step:
  assumes "feeding cfg (msg # msgs)"
  shows "feeding cfg (msgs @ returned cfg (fst (on_message cfg (Exited rc) msg)))"
  using assms returned_command [of cfg msg rc] by (auto simp: feeding_def)

lemma drain_Some_not_feeding:
  assumes ret: "drain cfg rcs inbox = Some r"
  shows "\<not> feeding cfg inbox"
proof (rule drain.raw_induct [where P = "\<lambda>cfg rcs inbox r. \<not> feeding cfg inbox", OF _ ret])
  fix loop cfg rcs inbox r
  assume IH: "\<And>cfg rcs inbox r. loop cfg rcs inbox = Some r \<Longrightarrow> \<not> feeding cfg inbox"
    and body: "(case inbox of
        [] \<Rightarrow> Some []
      | msg # msgs \<Rightarrow>
          (case on_message cfg (Exited (shd rcs)) msg of
             (effs, res) \<Rightarrow>
               Option.bind (loop cfg (stl rcs) (msgs @ returned cfg effs))
                 (\<lambda>effs'. Some (effs @ effs')))) = Some r"
  show "\<not> feeding cfg inbox"
  proof
    assume inv: "feeding cfg inbox"
    then obtain msg msgs where inbox: "inbox = msg # msgs"
      by (cases inbox) (auto simp: feeding_def)
    let ?next = "msgs @ returned cfg (fst (on_message cfg (Exited (shd rcs)) msg))"
    from body inbox obtain r' where "loop cfg (stl rcs) ?next = Some r'"
      by (auto simp: bind_eq_Some_conv split: prod.splits)
    then have "\<not> feeding cfg ?next"
      by (rule IH)
    with feeding_step [of cfg msg msgs "shd rcs"] inv inbox show False
      by simp
  qed
qed

lemma drain_never_settles:
  assumes "stattopic cfg = cmdtopic cfg" and "wildcard_free (cmdtopic cfg)"
    and "inbox \<noteq> []" and "list_all (command_msg cfg) inbox"
  shows "drain cfg rcs inbox = None"
  using drain_Some_not_feeding [of cfg rcs inbox] assms
  by (cases "drain cfg rcs inbox") (auto simp: feeding_def)

section \<open>Commands and the inbox\<close>

text \<open>
  C17. A command settles exactly when the prefixes differ. With a command
  prefix that is a topic name, the client's thread working off an inbox that
  holds one valid command, while the broker delivers back what is published,
  comes to an end after that one message when the state prefix differs from the
  command prefix; when the two are equal it never does: every state update
  comes back as a command, heyu is invoked again and the update is published
  again, without end.
\<close>

theorem command_settles_iff_prefixes_differ:
  assumes "wildcard_free (cmdtopic cfg)" and "command_msg cfg msg"
  shows "drain cfg rcs [msg]
       = (if stattopic cfg = cmdtopic cfg then None
          else Some (fst (on_message cfg (Exited (shd rcs)) msg)))"
proof (cases "stattopic cfg = cmdtopic cfg")
  case True
  with assms show ?thesis
    by (simp add: drain_never_settles)
next
  case False
  with assms(1) show ?thesis
    by (simp add: drain_settles)
qed

theorem command_settles_iff_prefixes_differ_witness:
  "drain demo_config (sconst 0) [\<lparr>topic = ''x10/cmd/a1'', payload = Decoded ''ON''\<rparr>]
     = Some (fst (on_message demo_config (Exited 0) \<lparr>topic = ''x10/cmd/a1'', payload = Decoded ''ON''\<rparr>))
   \<and> drain (demo_config\<lparr>stattopic := ''x10/cmd''\<rparr>) (sconst 0)
       [\<lparr>topic = ''x10/cmd/a1'', payload = Decoded ''ON''\<rparr>] = None"
  using command_settles_iff_prefixes_differ [of demo_config
      "\<lparr>topic = ''x10/cmd/a1'', payload = Decoded ''ON''\<rparr>" "sconst 0"]
    command_settles_iff_prefixes_differ [of "demo_config\<lparr>stattopic := ''x10/cmd''\<rparr>"
      "\<lparr>topic = ''x10/cmd/a1'', payload = Decoded ''ON''\<rparr>" "sconst 0"]
    example_command
  by (simp add: demo_config_def wildcard_free_def command_msg_def)

end
