(* ===== verification/Retained.thy ===== *)
theory Retained
  imports Gateway
begin

text \<open>
  The broker's store of retained messages. Every \<^verbatim>\<open>client.publish\<close> of
  \<^verbatim>\<open>src/x10mqtt.py\<close> passes \<^verbatim>\<open>retain=True\<close> (lines 123, 173 and 234), so the broker
  keeps the last message of each topic and hands it to every later subscriber.

  \<open>retained\<close> is the store after the publishes of an effect trace, with the rule
  of the MQTT specification for retained messages: a retained message replaces
  the one stored for its topic, an empty payload removes it, and a message that
  is not retained changes nothing. It assumes that every publish of the trace
  reaches the broker, in the order of the trace.

  The lemmas are those the gateway's theories share: the store only depends on
  the publishes of a trace and, topic by topic, on the last message written to
  the topic; when two traces are interleaved, what is stored for a topic is
  what one of the two leaves there.
\<close>

section \<open>Definitions\<close>

type_synonym store = "string \<rightharpoonup> string"

fun retain :: "effect \<Rightarrow> store \<Rightarrow> store" where
  "retain (Publish t p r) m = (if r then (if p = [] then m(t := None) else m(t \<mapsto> p)) else m)"
| "retain e m = m"

definition retained :: "effect list \<Rightarrow> store \<Rightarrow> store" where
  "retained es m = fold retain es m"

text \<open>Whether a message replaces what is stored for a topic.\<close>

fun writes_to :: "string \<Rightarrow> effect \<Rightarrow> bool" where
  "writes_to t (Publish t' p r) \<longleftrightarrow> r \<and> t' = t"
| "writes_to t e \<longleftrightarrow> False"

section \<open>The store after a trace\<close>

lemma retained_simps [simp]:
  "retained [] m = m"
  "retained (e # es) m = retained es (retain e m)"
  "retained (es @ es') m = retained es' (retained es m)"
  by (simp_all add: retained_def)

lemma retain_publishes: "retained (publishes es) m = retained es m"
proof (induction es arbitrary: m)
  case Nil
  show ?case by simp
next
  case (Cons e es)
  then show ?case by (cases e) simp_all
qed

lemma retained_untouched:
  "(\<And>p. Publish t p True \<notin> set es) \<Longrightarrow> retained es m t = m t"
proof (induction es arbitrary: m)
  case Nil
  show ?case by simp
next
  case (Cons e es)
  then show ?case by (cases e) auto
qed

lemma retained_kept:
  assumes "m t = Some p" and "\<forall>p' r. Publish t p' r \<in> set es \<longrightarrow> p' = p" and "p \<noteq> []"
  shows "retained es m t = Some p"
  using assms(1,2)
proof (induction es arbitrary: m)
  case Nil
  then show ?case by simp
next
  case (Cons e es)
  from Cons.prems assms(3) have "retain e m t = Some p"
    by (cases e) auto
  moreover from Cons.prems have "\<forall>p' r. Publish t p' r \<in> set es \<longrightarrow> p' = p"
    by auto
  ultimately have "retained es (retain e m) t = Some p"
    by (rule Cons.IH)
  then show ?case by simp
qed

lemma retained_written:
  assumes "Publish t p True \<in> set es" and "\<forall>p' r. Publish t p' r \<in> set es \<longrightarrow> p' = p"
    and "p \<noteq> []"
  shows "retained es m t = Some p"
proof -
  from assms(1) obtain es1 es2 where es: "es = es1 @ Publish t p True # es2"
    by (auto simp: in_set_conv_decomp)
  with assms(3) have "retain (Publish t p True) (retained es1 m) t = Some p"
    by simp
  moreover from es assms(2) have "\<forall>p' r. Publish t p' r \<in> set es2 \<longrightarrow> p' = p"
    by auto
  ultimately show ?thesis
    unfolding es using assms(3) by (simp add: retained_kept del: retain.simps)
qed

lemma retained_cases:
  "retained es m t = (if \<exists>p. Publish t p True \<in> set es then retained es Map.empty t else m t)"
proof (induction es rule: rev_induct)
  case Nil
  show ?case by simp
next
  case (snoc e es)
  then show ?case by (cases e) auto
qed

lemma retained_idem: "retained es (retained es m) = retained es m"
proof
  fix t
  show "retained es (retained es m) t = retained es m t"
    using retained_cases [of es "retained es m" t] retained_cases [of es m t] by auto
qed

lemma retain_dom: "p \<noteq> [] \<Longrightarrow> dom m \<subseteq> dom (retain (Publish t p r) m)"
  by auto

section \<open>The last message of a topic\<close>

lemma retained_cong: "m t = m' t \<Longrightarrow> retained es m t = retained es m' t"
  using retained_cases [of es m t] retained_cases [of es m' t] by simp

lemma retain_other: "\<not> writes_to t e \<Longrightarrow> retain e m t = m t"
  by (cases e) auto

lemma retain_writes: "writes_to t e \<Longrightarrow> retain e m t = retain e m' t"
  by (cases e) auto

lemma retained_writes: "retained (filter (writes_to t) es) m t = retained es m t"
proof (induction es arbitrary: m)
  case Nil
  show ?case by simp
next
  case (Cons e es)
  show ?case
  proof (cases "writes_to t e")
    case True
    with Cons show ?thesis by simp
  next
    case False
    then have "retained es (retain e m) t = retained es m t"
      by (intro retained_cong retain_other)
    with False Cons show ?thesis by simp
  qed
qed

lemma retained_last:
  assumes "ws \<noteq> []" and "writes_to t (last ws)"
  shows "retained ws m t = retain (last ws) Map.empty t"
proof -
  from assms(1) obtain ws' where "ws = ws' @ [last ws]"
    by (metis append_butlast_last_id)
  then have "retained ws m t = retain (last ws) (retained ws' m) t"
    by (metis retained_simps)
  with retain_writes [OF assms(2), of "retained ws' m" Map.empty] show ?thesis
    by simp
qed

lemma last_shuffles:
  assumes "zs \<in> shuffles xs ys" and "zs \<noteq> []"
  shows "xs \<noteq> [] \<and> last zs = last xs \<or> ys \<noteq> [] \<and> last zs = last ys"
  using assms
proof (induction xs ys arbitrary: zs rule: shuffles.induct)
  case (3 x xs y ys)
  from "3.prems"(1) consider zs' where "zs = x # zs'" "zs' \<in> shuffles xs (y # ys)"
    | zs' where "zs = y # zs'" "zs' \<in> shuffles (x # xs) ys"
    by auto
  then show ?case
  proof cases
    case 1
    with "3.IH"(1) [of zs'] show ?thesis
      by (cases "zs' = []") auto
  next
    case 2
    with "3.IH"(2) [of zs'] show ?thesis
      by (cases "zs' = []") auto
  qed
qed simp_all

lemma retained_shuffles:
  assumes "tr \<in> shuffles xs ys"
  shows "retained tr m t = retained xs m t \<or> retained tr m t = retained ys m t"
proof -
  let ?w = "filter (writes_to t)"
  from assms have "?w tr \<in> ?w ` shuffles xs ys"
    by (rule imageI)
  then have sh: "?w tr \<in> shuffles (?w xs) (?w ys)"
    by (simp add: filter_shuffles)
  show ?thesis
  proof (cases "?w tr = []")
    case True
    with sh have "?w xs = []"
      by simp
    with True have "retained (?w tr) m t = retained (?w xs) m t"
      by simp
    then show ?thesis by (simp add: retained_writes)
  next
    case False
    then have w: "writes_to t (last (?w tr))"
      using last_in_set [of "?w tr"] by auto
    from last_shuffles [OF sh False] show ?thesis
    proof
      assume "?w xs \<noteq> [] \<and> last (?w tr) = last (?w xs)"
      with w False have "retained (?w tr) m t = retained (?w xs) m t"
        by (simp add: retained_last)
      then show ?thesis by (simp add: retained_writes)
    next
      assume "?w ys \<noteq> [] \<and> last (?w tr) = last (?w ys)"
      with w False have "retained (?w tr) m t = retained (?w ys) m t"
        by (simp add: retained_last)
      then show ?thesis by (simp add: retained_writes)
    qed
  qed
qed

end
