(* ===== verification/Mirror.thy ===== *)
theory Mirror
  imports Retained Loopback
begin

text \<open>
  The gateway as a mirror of the devices' states. The state topics of the
  broker hold what \<^verbatim>\<open>execute\<close> (line 123) and \<^verbatim>\<open>rcvifunc\<close> (line 173) publish,
  the discovery topics what \<^verbatim>\<open>ha_discovery_announce\<close> (line 234) publishes, all
  retained.

  The specification's \<^emph>\<open>DeviceStateEvent\<close> is a pair of a house code and a command.
  \<open>commanded\<close> is the event a call of the client's thread reports, read off the
  tests of \<^verbatim>\<open>on_message\<close> (lines 205 to 217) and the answer of \<^verbatim>\<open>subprocess.run\<close>;
  \<open>state_events\<close> are the events of a run of both flows in the order of the
  calls, those of the monitor flow produced by the two-state machine of theory
  \<open>Monitor\<close>; \<open>mirror\<close> is the table from house codes to their last reported
  state; \<open>device_table\<close> reads that table off the broker's store, at the state
  topic of each house code that the pattern of line 214 accepts.

  The lemmas show that the gateway implements the mirror: the state updates
  published in a run are those of its state events and no others
  (\<open>state_updates_run\<close>), and after any run the table read off the store is the
  mirror of the run's state events (\<open>retained_states_refine\<close>); under finer interleavings of the two threads the
  state of a device is the last one reported by one of the flows
  (\<open>interleaved_states\<close>), and the example \<open>overtaken\<close> shows that it need not be
  the later one; a history of the bus that the monitor reports event by event
  is mirrored event by event (\<open>bus_history_table\<close>); no announcement is
  published on the state topic of a device, whatever the configured prefixes
  are (\<open>discovery_topic_not_state\<close>).
\<close>

section \<open>Definitions\<close>

type_synonym device_states = "string \<rightharpoonup> command"

definition command_named :: "string \<Rightarrow> command option" where
  "command_named s = (if s = ''ON'' then Some ON else if s = ''OFF'' then Some OFF else None)"

definition device_table :: "config \<Rightarrow> store \<Rightarrow> device_states" where
  "device_table cfg m =
     (\<lambda>hc. if re_match hcpattern hc \<noteq> None
           then Option.bind (m (stat_topic_of cfg hc)) command_named else None)"

definition set_state :: "string \<times> command \<Rightarrow> device_states \<Rightarrow> device_states" where
  "set_state ev tbl = tbl(fst ev \<mapsto> snd ev)"

definition mirror :: "(string \<times> command) list \<Rightarrow> device_states \<Rightarrow> device_states" where
  "mirror evs tbl = fold set_state evs tbl"

fun commanded :: "client_event \<Rightarrow> (string \<times> command) list" where
  "commanded (ConnAck rc) = []"
| "commanded (Incoming msg SpawnFailed) = []"
| "commanded (Incoming msg (Exited rc)) =
     (case payload msg of
        Undecodable \<Rightarrow> []
      | Decoded body \<Rightarrow>
          if valid_command (command_of body) (hc_of_topic (topic msg))
          then (case command_named (command_of body) of
                  None \<Rightarrow> []
                | Some c \<Rightarrow> [(hc_of_topic (topic msg), c)])
          else [])"

fun state_events :: "sm_state \<Rightarrow> gw_event list \<Rightarrow> (string \<times> command) list" where
  "state_events s [] = []"
| "state_events s (MonitorLine line # evs) =
     snd (sm_run s (events_of_line line)) @ state_events (fst (sm_run s (events_of_line line))) evs"
| "state_events s (Client e # evs) = commanded e @ state_events s evs"

text \<open>The state updates among the effects of a trace, in order.\<close>

definition state_updates :: "config \<Rightarrow> effect list \<Rightarrow> effect list" where
  "state_updates cfg es = filter (is_state_update cfg) es"

text \<open>
  A history of the bus as the monitor reports it: for each event an address
  line and a function line, with the house code and the command they carry.
\<close>

type_synonym report = "string \<times> string \<times> string \<times> command"

fun report_lines :: "report list \<Rightarrow> string list" where
  "report_lines [] = []"
| "report_lines ((a, f, hc, c) # rs) = a # f # report_lines rs"

fun report_event :: "report \<Rightarrow> string \<times> command" where
  "report_event (a, f, hc, c) = (hc, c)"

fun reported :: "report \<Rightarrow> bool" where
  "reported (a, f, hc, c) \<longleftrightarrow>
     events_of_line a = [AddressLine hc] \<and> events_of_line f = [FunctionLine c]"

text \<open>
  Example runs: a command for a device; a run in which a command and a connection fall
  between the two lines of a bus event; and a trace in which the monitor loop
  reports a later bus event for a device between the call of heyu and the
  publish of \<^verbatim>\<open>execute\<close> for the same device.
\<close>

definition cmd_ON :: "string \<Rightarrow> message" where
  "cmd_ON hc = \<lparr>topic = ''x10/cmd/'' @ hc, payload = Decoded ''ON''\<rparr>"

definition example_run :: "gw_event list" where
  "example_run =
     [MonitorLine addr_A1, Client (Incoming (cmd_ON ''B2'') (Exited 0)), Client (ConnAck 0),
      MonitorLine func_Off]"

definition overtaken :: "effect list" where
  "overtaken =
     take 3 (client_effects demo_config [Incoming (cmd_ON ''A1'') (Exited 0)])
     @ fst (monitor_loop demo_config [addr_A1, func_Off] init_state)
     @ drop 3 (client_effects demo_config [Incoming (cmd_ON ''A1'') (Exited 0)])"

section \<open>State topics and devices\<close>

lemma py_lower_inject:
  assumes "py_upper a = a" and "py_upper b = b" and "py_lower a = py_lower b"
  shows "a = b"
proof -
  from assms(3) have "py_upper (py_lower a) = py_upper (py_lower b)"
    by simp
  with assms(1,2) show ?thesis by simp
qed

lemma hcpattern_upper: "re_match hcpattern hc \<noteq> None \<Longrightarrow> py_upper hc = hc"
  unfolding hcpattern_accepts by (auto simp: char_eval)

lemma stat_topic_inject:
  assumes "re_match hcpattern hc \<noteq> None" and "re_match hcpattern hc' \<noteq> None"
  shows "stat_topic_of cfg hc = stat_topic_of cfg hc' \<longleftrightarrow> hc = hc'"
  using assms [THEN hcpattern_upper] by (auto simp: stat_topic_of_def dest: py_lower_inject)

lemma command_named_name [simp]: "command_named (command_name c) = Some c"
  by (cases c) (simp_all add: command_named_def)

lemma command_name_not_Nil [simp]: "command_name c \<noteq> []"
  by (cases c) simp_all

lemma publish_of_stat_topic:
  "publish_of cfg (hc, c) = Publish (stat_topic_of cfg hc) (command_name c) True"
  by (simp add: publish_of_def stat_topic_of_def)

lemma device_table_retain:
  assumes "re_match hcpattern hc \<noteq> None"
  shows "device_table cfg (retain (publish_of cfg (hc, c)) m) = set_state (hc, c) (device_table cfg m)"
proof
  fix h
  show "device_table cfg (retain (publish_of cfg (hc, c)) m) h = set_state (hc, c) (device_table cfg m) h"
    using assms stat_topic_inject [OF _ assms, of h cfg]
    by (auto simp: device_table_def set_state_def publish_of_stat_topic simp del: not_None_eq)
qed

lemma device_table_mirror:
  assumes "\<forall>(h, c) \<in> set out. re_match hcpattern h \<noteq> None"
  shows "device_table cfg (retained (map (publish_of cfg) out) m) = mirror out (device_table cfg m)"
  using assms
proof (induction out arbitrary: m)
  case Nil
  show ?case by (simp add: mirror_def)
next
  case (Cons ev out)
  obtain h c where ev: "ev = (h, c)"
    by (cases ev)
  with Cons.prems have "re_match hcpattern h \<noteq> None"
    by simp
  then have "device_table cfg (retain (publish_of cfg (h, c)) m) = set_state (h, c) (device_table cfg m)"
    by (rule device_table_retain)
  moreover from Cons.prems have "\<forall>(h, c) \<in> set out. re_match hcpattern h \<noteq> None"
    by simp
  then have "device_table cfg (retained (map (publish_of cfg) out) (retain (publish_of cfg (h, c)) m))
      = mirror out (device_table cfg (retain (publish_of cfg (h, c)) m))"
    by (rule Cons.IH)
  ultimately show ?case
    by (simp add: ev mirror_def)
qed

section \<open>Announcements and state topics\<close>

lemma discovery_topic_last: "last (py_split CHR ''/'' (discovery_topic_of cfg h u)) = ''config''"
proof -
  have "discovery_topic_of cfg h u
      = (discoverytopic cfg @ ''/switch/x10mqtt/x10_'' @ py_lower [h] @ str_nat u) @ CHR ''/'' # ''config''"
    by (simp add: discovery_topic_of_def)
  then show ?thesis
    by (simp only: last_py_split_append_sep [of "CHR ''/''" "''config''", simplified])
qed

lemma stat_topic_last:
  assumes "re_match hcpattern hc \<noteq> None"
  shows "last (py_split CHR ''/'' (stat_topic_of cfg hc)) = py_lower hc"
proof -
  from assms have "CHR ''/'' \<notin> set (py_upper hc)"
    by (simp add: hcpattern_upper hcpattern_no_slash del: not_None_eq)
  then have "CHR ''/'' \<notin> set (py_lower hc)"
    by (rule slash_lower)
  then show ?thesis
    by (simp add: stat_topic_of_def last_py_split_append_sep)
qed

lemma hcpattern_CONFIG: "re_match hcpattern ''CONFIG'' = None"
  by code_simp

lemma device_not_config:
  assumes "re_match hcpattern hc \<noteq> None"
  shows "py_lower hc \<noteq> ''config''"
proof
  assume "py_lower hc = ''config''"
  then have "py_upper (py_lower hc) = py_upper ''config''"
    by simp
  with assms have "hc = ''CONFIG''"
    by (simp add: hcpattern_upper char_eval del: not_None_eq)
  with assms show False
    by (simp add: hcpattern_CONFIG)
qed

lemma discovery_topic_not_state:
  assumes "re_match hcpattern hc \<noteq> None"
  shows "discovery_topic_of cfg h u \<noteq> stat_topic_of cfg hc"
proof
  assume "discovery_topic_of cfg h u = stat_topic_of cfg hc"
  then have "last (py_split CHR ''/'' (discovery_topic_of cfg h u))
      = last (py_split CHR ''/'' (stat_topic_of cfg hc))"
    by simp
  with assms show False
    by (simp add: discovery_topic_last stat_topic_last device_not_config [symmetric] del: not_None_eq)
qed

lemma state_update_stat_topic:
  assumes "is_state_update cfg (Publish t p r)"
  obtains hc where "re_match hcpattern hc \<noteq> None" and "t = stat_topic_of cfg hc"
proof -
  let ?seg = "drop (Suc (length (stattopic cfg))) t"
  from assms have "prefix (stattopic cfg @ ''/'') t" and hc: "re_match hcpattern (py_upper ?seg) \<noteq> None"
    and "py_lower ?seg = ?seg"
    by simp_all
  then have "t = stat_topic_of cfg (py_upper ?seg)"
    by (auto simp: prefix_def stat_topic_of_def)
  with hc show ?thesis by (rule that)
qed

lemma on_connect_publish:
  assumes "Publish t p r \<in> set (on_connect cfg rc)"
  obtains h u where "h \<in> set (discoveryhouses cfg)" and "u \<in> {1 ..< 17}"
    and "t = discovery_topic_of cfg h u" and "p = json_dumps (discovery_config cfg h u)" and "r"
proof -
  from assms have "Publish t p r \<in> set (publishes (on_connect cfg rc))"
    by (simp add: publishes_def)
  then show ?thesis
    by (auto simp: publishes_on_connect intro: that simp del: upt_Suc)
qed

lemma device_table_on_connect: "device_table cfg (retained (on_connect cfg rc) m) = device_table cfg m"
proof
  fix hc
  show "device_table cfg (retained (on_connect cfg rc) m) hc = device_table cfg m hc"
  proof (cases "re_match hcpattern hc = None")
    case True
    then show ?thesis by (simp add: device_table_def)
  next
    case False
    have "Publish (stat_topic_of cfg hc) p True \<notin> set (on_connect cfg rc)" for p
    proof
      assume "Publish (stat_topic_of cfg hc) p True \<in> set (on_connect cfg rc)"
      then obtain h u where "stat_topic_of cfg hc = discovery_topic_of cfg h u"
        by (rule on_connect_publish)
      with discovery_topic_not_state [OF False, of cfg h u] show False
        by simp
    qed
    then have "retained (on_connect cfg rc) m (stat_topic_of cfg hc) = m (stat_topic_of cfg hc)"
      by (rule retained_untouched)
    then show ?thesis by (simp add: device_table_def)
  qed
qed

section \<open>One handler call against the table\<close>

lemma mirror_simps [simp]:
  "mirror [] tbl = tbl"
  "mirror (ev # evs) tbl = mirror evs (set_state ev tbl)"
  "mirror (evs @ evs') tbl = mirror evs' (mirror evs tbl)"
  by (simp_all add: mirror_def)

lemma commanded_cases:
  "commanded e = [] \<or> (\<exists>h c. commanded e = [(h, c)] \<and> re_match hcpattern h \<noteq> None)"
  by (induction e rule: commanded.induct)
     (auto simp: valid_command_def split: payload.splits option.splits)

lemma commanded_valid: "(h, c) \<in> set (commanded e) \<Longrightarrow> re_match hcpattern h \<noteq> None"
  using commanded_cases [of e] by auto

lemma command_named_valid:
  assumes "valid_command cmd hc"
  obtains c where "command_named cmd = Some c" and "command_name c = py_upper cmd"
  using assms that [of ON] that [of OFF]
  by (auto simp: valid_command_def command_named_def char_eval)

lemma publishes_on_message_commanded:
  "publishes (fst (on_message cfg res msg)) = map (publish_of cfg) (commanded (Incoming msg res))"
proof (cases "payload msg")
  case Undecodable
  then show ?thesis by (cases res) (simp_all add: on_message_Undecodable)
next
  case (Decoded body)
  show ?thesis
  proof (cases "valid_command (command_of body) (hc_of_topic (topic msg))")
    case False
    with Decoded show ?thesis by (cases res) (simp_all add: on_message_invalid)
  next
    case True
    then obtain c where "command_named (command_of body) = Some c"
      and "command_name c = py_upper (command_of body)"
      by (rule command_named_valid)
    with Decoded True show ?thesis
      by (cases res) (simp_all add: on_message_valid publish_of_stat_topic)
  qed
qed

lemma device_table_client:
  "device_table cfg (retained (fst (on_event cfg e)) m) = mirror (commanded e) (device_table cfg m)"
proof (cases e)
  case (ConnAck rc)
  then show ?thesis by (simp add: device_table_on_connect)
next
  case (Incoming msg res)
  have "device_table cfg (retained (map (publish_of cfg) (commanded e)) m)
      = mirror (commanded e) (device_table cfg m)"
    by (rule device_table_mirror) (auto dest: commanded_valid simp del: not_None_eq)
  with Incoming show ?thesis
    using retain_publishes [of "fst (on_message cfg res msg)" m]
    by (simp add: publishes_on_message_commanded)
qed

lemma sm_run_accepted:
  assumes "state_ok st"
  shows "\<forall>(h, c) \<in> set (snd (sm_run (abs_state st) (concat (map events_of_line lines)))).
           re_match hcpattern h \<noteq> None"
proof -
  have "is_housecode h"
    if "(h, c) \<in> set (snd (sm_run (abs_state st) (concat (map events_of_line lines))))" for h c
    using sm_run_output_address [OF that] assms
    by (auto simp: state_ok_def abs_state_def dest: events_of_line_address split: if_splits)
  then show ?thesis
    by (auto dest: hcpattern_housecode simp del: not_None_eq)
qed

lemma device_table_monitor_loop:
  assumes "state_ok st"
  shows "device_table cfg (retained (fst (monitor_loop cfg lines st)) m)
       = mirror (snd (sm_run (abs_state st) (concat (map events_of_line lines)))) (device_table cfg m)"
  using device_table_mirror [OF sm_run_accepted [OF assms, of lines], of cfg m]
    monitor_loop_refines [of cfg lines st] retain_publishes [of "fst (monitor_loop cfg lines st)" m]
  by simp

lemma device_table_line:
  assumes "state_ok st"
  shows "device_table cfg (retained (fst (monitor_step cfg line st)) m)
       = mirror (snd (sm_run (abs_state st) (events_of_line line))) (device_table cfg m)"
  using device_table_monitor_loop [OF assms, of cfg "[line]" m]
  by (simp add: monitor_loop_Cons del: monitor_loop.simps(2))

section \<open>The state updates of a run\<close>

text \<open>
  A state update is published for a state event and for nothing else: the
  state updates among the effects of a run are those of its state events, in
  order.
\<close>

lemma state_updates_simps [simp]:
  "state_updates cfg [] = []"
  "state_updates cfg (es @ es') = state_updates cfg es @ state_updates cfg es'"
  by (simp_all add: state_updates_def)

lemma state_updates_publishes: "state_updates cfg (publishes es) = state_updates cfg es"
proof -
  have "is_state_update cfg e \<Longrightarrow> is_publish e" for e
    by (cases e) simp_all
  then show ?thesis
    unfolding state_updates_def publishes_def filter_filter by (auto intro: filter_cong)
qed

lemma state_update_publish_of:
  assumes "re_match hcpattern h \<noteq> None"
  shows "is_state_update cfg (publish_of cfg (h, c))"
proof -
  from assms have "re_match hcpattern (py_upper h) \<noteq> None"
    by (simp add: hcpattern_upper del: not_None_eq)
  then have "is_state_update cfg (Publish (stattopic cfg @ ''/'' @ py_lower h) (command_name c) True)"
    by (rule state_update_ok) (cases c; simp)
  then show ?thesis
    by (simp add: publish_of_def del: is_state_update.simps)
qed

lemma state_updates_events:
  assumes "\<forall>(h, c) \<in> set out. re_match hcpattern h \<noteq> None"
  shows "state_updates cfg (map (publish_of cfg) out) = map (publish_of cfg) out"
  using assms unfolding state_updates_def
  by (intro filter_True) (auto intro: state_update_publish_of simp del: not_None_eq)

lemma state_updates_on_connect: "state_updates cfg (on_connect cfg rc) = []"
proof -
  have "\<not> is_state_update cfg e" if "e \<in> set (on_connect cfg rc)" for e
  proof
    assume upd: "is_state_update cfg e"
    then obtain t p r where e: "e = Publish t p r"
      by (cases e) simp_all
    from upd [unfolded e] obtain hc
      where hc: "re_match hcpattern hc \<noteq> None" and t: "t = stat_topic_of cfg hc"
      by (rule state_update_stat_topic)
    from that e obtain h u where "t = discovery_topic_of cfg h u"
      by (auto elim: on_connect_publish)
    with discovery_topic_not_state [OF hc, of cfg h u] t show False
      by simp
  qed
  then show ?thesis
    by (simp add: state_updates_def)
qed

lemma state_updates_client:
  "state_updates cfg (fst (on_event cfg e)) = map (publish_of cfg) (commanded e)"
proof (cases e)
  case (ConnAck rc)
  then show ?thesis by (simp add: state_updates_on_connect)
next
  case (Incoming msg res)
  have "state_updates cfg (map (publish_of cfg) (commanded e)) = map (publish_of cfg) (commanded e)"
    by (rule state_updates_events) (auto dest: commanded_valid simp del: not_None_eq)
  with Incoming state_updates_publishes [of cfg "fst (on_message cfg res msg)"] show ?thesis
    by (simp add: publishes_on_message_commanded)
qed

lemma state_updates_line:
  assumes "state_ok st"
  shows "state_updates cfg (fst (monitor_step cfg line st))
       = map (publish_of cfg) (snd (sm_run (abs_state st) (events_of_line line)))"
  using state_updates_events [OF sm_run_accepted [OF assms, of "[line]"], of cfg]
    state_updates_publishes [of cfg "fst (monitor_step cfg line st)"]
    monitor_step_refines [of cfg line st]
  by simp

lemma state_updates_run:
  assumes "state_ok st"
  shows "state_updates cfg (fst (run_events cfg evs st))
       = map (publish_of cfg) (state_events (abs_state st) evs)"
  using assms
proof (induction evs arbitrary: st)
  case Nil
  show ?case by simp
next
  case (Cons e evs)
  show ?case
  proof (cases e)
    case (MonitorLine line)
    from Cons.prems have "state_ok (snd (monitor_step cfg line st))"
      by (rule state_ok_monitor_step)
    from Cons.IH [OF this] state_updates_line [OF Cons.prems, of cfg line]
      monitor_step_refines [of cfg line st] MonitorLine
    show ?thesis
      by (simp add: run_events_Cons del: run_events.simps(2,3))
  next
    case (Client ce)
    from Cons.IH [OF Cons.prems] state_updates_client [of cfg ce] Client show ?thesis
      by (simp add: run_events_Cons del: run_events.simps(2,3))
  qed
qed

section \<open>The table follows the state events of a run\<close>

lemma retained_states_refine:
  assumes "state_ok st"
  shows "device_table cfg (retained (fst (run_events cfg evs st)) m)
       = mirror (state_events (abs_state st) evs) (device_table cfg m)"
  using assms
proof (induction evs arbitrary: st m)
  case Nil
  show ?case by simp
next
  case (Cons e evs)
  show ?case
  proof (cases e)
    case (MonitorLine line)
    from Cons.prems have "state_ok (snd (monitor_step cfg line st))"
      by (rule state_ok_monitor_step)
    from Cons.IH [OF this] device_table_line [OF Cons.prems, of cfg line m]
      monitor_step_refines [of cfg line st] MonitorLine
    show ?thesis
      by (simp add: run_events_Cons del: run_events.simps(2,3))
  next
    case (Client ce)
    from Cons.IH [OF Cons.prems] device_table_client [of cfg ce m] Client show ?thesis
      by (simp add: run_events_Cons del: run_events.simps(2,3))
  qed
qed

section \<open>Finer interleavings\<close>

lemma device_table_shuffles:
  assumes "tr \<in> shuffles xs ys"
  shows "device_table cfg (retained tr m) hc = device_table cfg (retained xs m) hc
       \<or> device_table cfg (retained tr m) hc = device_table cfg (retained ys m) hc"
  using retained_shuffles [OF assms, of m "stat_topic_of cfg hc"] by (auto simp: device_table_def)

lemma device_table_client_effects:
  "device_table cfg (retained (client_effects cfg ces) m)
     = mirror (concat (map commanded ces)) (device_table cfg m)"
proof (induction ces arbitrary: m)
  case Nil
  show ?case by (simp add: client_effects_def)
next
  case (Cons e ces)
  from Cons [of "retained (fst (on_event cfg e)) m"] device_table_client [of cfg e m]
  show ?case by (simp add: client_effects_def)
qed

lemma interleaved_states:
  assumes "state_ok st"
    and "tr \<in> shuffles (fst (monitor_loop cfg lines st)) (client_effects cfg ces)"
  shows "device_table cfg (retained tr m) hc
           = mirror (snd (sm_run (abs_state st) (concat (map events_of_line lines))))
               (device_table cfg m) hc
       \<or> device_table cfg (retained tr m) hc
           = mirror (concat (map commanded ces)) (device_table cfg m) hc"
  using device_table_shuffles [OF assms(2), of cfg m hc]
  by (simp add: device_table_monitor_loop [OF assms(1)] device_table_client_effects)

lemma insert_in_shuffles: "take n ys @ xs @ drop n ys \<in> shuffles xs ys"
proof -
  have "xs @ drop n ys \<in> shuffles xs (drop n ys)"
    using append_in_shuffles_left [of "drop n ys" "[]" "drop n ys" xs] by simp
  then have "take n ys @ xs @ drop n ys \<in> shuffles xs (take n ys @ drop n ys)"
    by (rule append_in_shuffles_right)
  then show ?thesis by simp
qed

section \<open>The example runs\<close>

lemma commanded_cmd_ON:
  "commanded (Incoming (cmd_ON ''A1'') (Exited 0)) = [(''A1'', ON)]"
  "commanded (Incoming (cmd_ON ''B2'') (Exited 0)) = [(''B2'', ON)]"
  by code_simp+

lemma device_table_empty [simp]: "device_table cfg Map.empty = Map.empty"
  by (simp add: device_table_def fun_eq_iff)

lemma example_run_events:
  "state_events (abs_state init_state) example_run = [(''B2'', ON), (''A1'', OFF)]"
  by (simp add: example_run_def example_events commanded_cmd_ON abs_state_def init_state_def
      del: commanded.simps(3))

lemma overtaken_state: "device_table demo_config (retained overtaken Map.empty) ''A1'' = Some ON"
  by code_simp

lemma overtaken_bus_state:
  "mirror (snd (sm_run (abs_state init_state) (concat (map events_of_line [addr_A1, func_Off]))))
     Map.empty ''A1'' = Some OFF"
  by (simp add: example_events abs_state_def init_state_def set_state_def)

lemma overtaken_shuffles:
  "overtaken \<in> shuffles (fst (monitor_loop demo_config [addr_A1, func_Off] init_state))
                (client_effects demo_config [Incoming (cmd_ON ''A1'') (Exited 0)])"
  unfolding overtaken_def by (rule insert_in_shuffles)

section \<open>A history of bus events\<close>

lemma sm_run_reports:
  assumes "list_all reported rs"
  shows "sm_run s (concat (map events_of_line (report_lines rs)))
       = (if rs = [] then s else WAIT_ADDRESS, map report_event rs)"
  using assms
proof (induction rs arbitrary: s)
  case Nil
  show ?case by simp
next
  case (Cons r rs)
  obtain a f hc c where r: "r = (a, f, hc, c)"
    by (cases r)
  with Cons.prems Cons.IH [of WAIT_ADDRESS] show ?case
    by (simp add: sm_run_append split: if_splits)
qed

lemma reports_accepted:
  assumes "list_all reported rs"
  shows "\<forall>(h, c) \<in> set (map report_event rs). re_match hcpattern h \<noteq> None"
  using assms
proof (induction rs)
  case Nil
  show ?case by simp
next
  case (Cons r rs)
  obtain a f hc c where r: "r = (a, f, hc, c)"
    by (cases r)
  with Cons.prems have "is_housecode hc"
    using events_of_line_address [of hc a] by simp
  with Cons r show ?case
    by (simp add: hcpattern_housecode del: not_None_eq)
qed

lemma bus_history_published:
  assumes "list_all reported rs"
  shows "publishes (fst (monitor_loop cfg (report_lines rs) st))
       = map (publish_of cfg) (map report_event rs)"
  using monitor_loop_refines [of cfg "report_lines rs" st] sm_run_reports [OF assms, of "abs_state st"]
  by simp

lemma bus_history_pending:
  assumes "list_all reported rs"
  shows "rcvihc (snd (monitor_loop cfg (report_lines rs) st)) = (if rs = [] then rcvihc st else [])"
  using monitor_loop_refines [of cfg "report_lines rs" st] sm_run_reports [OF assms, of "abs_state st"]
  by (auto simp: abs_state_def split: if_splits)

lemma bus_history_table:
  assumes "list_all reported rs"
  shows "device_table cfg (retained (fst (monitor_loop cfg (report_lines rs) st)) m)
       = mirror (map report_event rs) (device_table cfg m)"
proof -
  from reports_accepted [OF assms]
  have "device_table cfg (retained (map (publish_of cfg) (map report_event rs)) m)
      = mirror (map report_event rs) (device_table cfg m)"
    by (rule device_table_mirror)
  with bus_history_published [OF assms, of cfg st]
    retain_publishes [of "fst (monitor_loop cfg (report_lines rs) st)" m]
  show ?thesis by simp
qed

section \<open>The echo of a command\<close>

text \<open>
  The monitor also reports what heyu itself sends. When the bus event that
  follows a command names the same device and the same function, the monitor
  loop publishes the state once more and the table stays as it is.
\<close>

lemma echo_changes_nothing:
  assumes "state_ok st"
    and "events_of_line a = [AddressLine hc]" and "events_of_line f = [FunctionLine c]"
    and "device_table cfg m hc = Some c"
  shows "device_table cfg (retained (fst (run_events cfg [MonitorLine a, MonitorLine f] st)) m)
       = device_table cfg m"
  using retained_states_refine [OF assms(1), of cfg "[MonitorLine a, MonitorLine f]" m] assms(2-4)
  by (auto simp: set_state_def)

section \<open>Properties of the mirror\<close>

text \<open>
  C11. The gateway implements the mirror of the devices' states. After any run
  of the two flows from a state whose pending address is empty or a house code,
  whatever the monitor prints and the broker delivers and in whatever order the
  calls fall, the state updates published are exactly those of the state events
  of the run, in the order of the calls: the events the two-state machine
  produces for the monitor's lines, and one event for each valid command whose
  heyu process ran. A state update is never published for anything else, and
  the table read off the broker's store, on the state topic of each accepted
  house code, is the table before the run updated with these events in order.
  Announcements, rejected messages and commands whose heyu could not be started
  leave the table as it is.
\<close>

theorem retained_states_follow_events:
  assumes "state_ok st"
  shows "state_updates cfg (fst (run_events cfg evs st))
           = map (publish_of cfg) (state_events (abs_state st) evs)
       \<and> device_table cfg (retained (fst (run_events cfg evs st)) m)
           = mirror (state_events (abs_state st) evs) (device_table cfg m)"
  using assms by (simp add: state_updates_run retained_states_refine)

theorem retained_states_follow_events_witness:
  "state_ok init_state
   \<and> device_table demo_config (retained (fst (run_events demo_config example_run init_state)) Map.empty)
       = [''B2'' \<mapsto> ON, ''A1'' \<mapsto> OFF]"
  using retained_states_follow_events [OF state_ok_init, of demo_config example_run Map.empty]
  by (simp add: example_run_events set_state_def)

text \<open>
  C18. However finely the calls of the two threads are interleaved, the state
  the broker keeps for a device is the last state one of the two flows reported
  for it: the last one the monitor loop published for the lines it read, or the
  last one the client's thread published for the commands it carried out. Which
  of the two is not determined: in the trace \<open>overtaken\<close> the command's state is
  published after a later event of the bus and stays in the store.
\<close>

theorem interleaved_state_is_last_of_a_flow:
  assumes "state_ok st"
    and "tr \<in> shuffles (fst (monitor_loop cfg lines st)) (client_effects cfg ces)"
  shows "device_table cfg (retained tr m) hc
           = mirror (snd (sm_run (abs_state st) (concat (map events_of_line lines))))
               (device_table cfg m) hc
       \<or> device_table cfg (retained tr m) hc
           = mirror (concat (map commanded ces)) (device_table cfg m) hc"
  using assms by (rule interleaved_states)

theorem interleaved_state_is_last_of_a_flow_witness:
  "state_ok init_state
   \<and> overtaken \<in> shuffles (fst (monitor_loop demo_config [addr_A1, func_Off] init_state))
                   (client_effects demo_config [Incoming (cmd_ON ''A1'') (Exited 0)])
   \<and> device_table demo_config (retained overtaken Map.empty) ''A1'' = Some ON
   \<and> mirror (snd (sm_run (abs_state init_state) (concat (map events_of_line [addr_A1, func_Off]))))
       Map.empty ''A1'' = Some OFF"
  using interleaved_state_is_last_of_a_flow [OF state_ok_init overtaken_shuffles, of Map.empty "''A1''"]
    overtaken_shuffles overtaken_state overtaken_bus_state
  by simp

text \<open>
  C20. A history of the bus is mirrored event by event. When the monitor
  reports each event of the bus as an address line and a function line, the
  monitor loop publishes exactly one state update for each event, in order,
  whatever was pending before; the table read off the broker's store is the
  table before the run updated with the events in order, so every device holds
  the state of its last event; and no address is pending at the end.
\<close>

theorem bus_history_is_mirrored:
  assumes "list_all reported rs"
  shows "publishes (fst (monitor_loop cfg (report_lines rs) st))
           = map (publish_of cfg) (map report_event rs)
       \<and> device_table cfg (retained (fst (monitor_loop cfg (report_lines rs) st)) m)
           = mirror (map report_event rs) (device_table cfg m)
       \<and> rcvihc (snd (monitor_loop cfg (report_lines rs) st)) = (if rs = [] then rcvihc st else [])"
  using assms by (simp add: bus_history_published bus_history_table bus_history_pending)

theorem bus_history_is_mirrored_witness:
  "list_all reported [(addr_A1, func_On, ''A1'', ON), (addr_B2, func_Off, ''B2'', OFF),
                      (addr_A1, func_Off, ''A1'', OFF)]
   \<and> device_table demo_config
       (retained (fst (monitor_loop demo_config
                         [addr_A1, func_On, addr_B2, func_Off, addr_A1, func_Off] init_state))
                 Map.empty)
     = [''B2'' \<mapsto> OFF, ''A1'' \<mapsto> OFF]"
  using bus_history_is_mirrored [of "[(addr_A1, func_On, ''A1'', ON), (addr_B2, func_Off, ''B2'', OFF),
      (addr_A1, func_Off, ''A1'', OFF)]" demo_config init_state Map.empty]
  by (simp add: example_events set_state_def del: monitor_loop.simps)

end
