(* ===== verification/Descriptors.thy ===== *)
theory Descriptors
  imports Mirror
begin

text \<open>
  The descriptors on the broker. \<^verbatim>\<open>ha_discovery_announce\<close> (line 234 of
  \<^verbatim>\<open>src/x10mqtt.py\<close>) publishes every descriptor retained, at every connection
  (lines 190 to 193), and no other call of the script publishes on a discovery
  topic. The lemmas follow the descriptors in the broker's store of theory
  \<open>Retained\<close>: a connection writes the descriptor of every unit of every
  configured house (\<open>announcement_written\<close>), nothing the two flows do afterwards
  changes it (\<open>announcement_kept\<close>), a further connection leaves the store as it
  is (\<open>reconnect_idempotent\<close>), and the script never removes a retained message
  (\<open>retained_dom\<close>), so the descriptors of a house that is no longer configured
  stay where they are.
\<close>

section \<open>Announcements stay in the store\<close>

lemma discovery_config_cong:
  assumes "lower_char h = lower_char h'"
  shows "discovery_config cfg h u = discovery_config cfg h' u"
proof -
  from assms have "upper_char h = upper_char h'"
    by (metis upper_lower_char)
  with assms show ?thesis
    by (simp add: discovery_config_def)
qed

lemma json_dumps_not_Nil [simp]: "json_dumps kvs \<noteq> []" "[] \<noteq> json_dumps kvs"
  by (simp_all add: json_dumps_def)

lemma gw_publish_discovery_topic:
  assumes "gw_publish cfg (Publish (discovery_topic_of cfg h u) p r)"
  shows "p = json_dumps (discovery_config cfg h u)"
  using assms unfolding gw_publish_def
proof
  assume "is_state_update cfg (Publish (discovery_topic_of cfg h u) p r)"
  then obtain hc where "re_match hcpattern hc \<noteq> None" and "discovery_topic_of cfg h u = stat_topic_of cfg hc"
    by (rule state_update_stat_topic)
  then show ?thesis
    using discovery_topic_not_state [of hc cfg h u] by simp
next
  assume "is_announcement cfg (Publish (discovery_topic_of cfg h u) p r)"
  then obtain h' u' where "discovery_topic_of cfg h u = discovery_topic_of cfg h' u'"
    and "p = json_dumps (discovery_config cfg h' u')"
    by (auto simp: is_announcement_def simp del: upt_Suc)
  then show ?thesis
    by (simp add: discovery_topic_inject discovery_config_cong [of h h'])
qed

lemma state_ok_run_events: "state_ok st \<Longrightarrow> state_ok (snd (run_events cfg evs st))"
  by (simp add: run_events_state state_ok_monitor_loop)

lemma run_events_publishes_ok:
  "state_ok st \<Longrightarrow> list_all (gw_publish cfg) (publishes (fst (run_events cfg evs st)))"
proof (induction evs arbitrary: st)
  case Nil
  show ?case by simp
next
  case (Cons e evs)
  then show ?case
    by (cases e)
       (simp_all add: run_events_Cons monitor_step_publishes_ok on_event_publishes_ok
          state_ok_monitor_step del: run_events.simps(2,3))
qed

lemma publish_in_publishes: "Publish t p r \<in> set es \<Longrightarrow> Publish t p r \<in> set (publishes es)"
  by (simp add: publishes_def)

lemma publishes_ok_discovery_topic:
  assumes "list_all (gw_publish cfg) (publishes es)"
  shows "\<forall>p r. Publish (discovery_topic_of cfg h u) p r \<in> set es
           \<longrightarrow> p = json_dumps (discovery_config cfg h u)"
proof (intro allI impI)
  fix p r
  assume "Publish (discovery_topic_of cfg h u) p r \<in> set es"
  then have "Publish (discovery_topic_of cfg h u) p r \<in> set (publishes es)"
    by (rule publish_in_publishes)
  with assms have "gw_publish cfg (Publish (discovery_topic_of cfg h u) p r)"
    by (simp add: list_all_iff)
  then show "p = json_dumps (discovery_config cfg h u)"
    by (rule gw_publish_discovery_topic)
qed

lemma announcement_kept:
  assumes "state_ok st" and "m (discovery_topic_of cfg h u) = Some (json_dumps (discovery_config cfg h u))"
  shows "retained (fst (run_events cfg evs st)) m (discovery_topic_of cfg h u)
       = Some (json_dumps (discovery_config cfg h u))"
  using assms(2)
proof (rule retained_kept)
  show "\<forall>p r. Publish (discovery_topic_of cfg h u) p r \<in> set (fst (run_events cfg evs st))
      \<longrightarrow> p = json_dumps (discovery_config cfg h u)"
    using run_events_publishes_ok [OF assms(1)] by (rule publishes_ok_discovery_topic)
qed simp

lemma announcement_written:
  assumes "h \<in> set (discoveryhouses cfg)" and "u \<in> {1 ..< 17}"
  shows "retained (on_connect cfg rc) m (discovery_topic_of cfg h u)
       = Some (json_dumps (discovery_config cfg h u))"
proof (rule retained_written)
  from assms have "Publish (discovery_topic_of cfg h u) (json_dumps (discovery_config cfg h u)) True
      \<in> set (publishes (on_connect cfg rc))"
    unfolding publishes_on_connect by (auto intro!: bexI [of _ h] simp del: upt_Suc)
  then show "Publish (discovery_topic_of cfg h u) (json_dumps (discovery_config cfg h u)) True
      \<in> set (on_connect cfg rc)"
    by (simp add: publishes_def)
  show "\<forall>p r. Publish (discovery_topic_of cfg h u) p r \<in> set (on_connect cfg rc)
      \<longrightarrow> p = json_dumps (discovery_config cfg h u)"
    using on_connect_publishes_ok by (rule publishes_ok_discovery_topic)
qed simp

lemma announcements_stay:
  assumes "state_ok st" and "h \<in> set (discoveryhouses cfg)" and "u \<in> {1 ..< 17}"
  shows "retained (fst (run_events cfg (evs @ Client (ConnAck rc) # evs') st)) m
           (discovery_topic_of cfg h u)
       = Some (json_dumps (discovery_config cfg h u))"
proof -
  let ?st = "snd (run_events cfg evs st)"
  let ?m = "retained (on_connect cfg rc) (retained (fst (run_events cfg evs st)) m)"
  from assms(2,3) have "?m (discovery_topic_of cfg h u) = Some (json_dumps (discovery_config cfg h u))"
    by (rule announcement_written)
  with state_ok_run_events [OF assms(1), of cfg evs]
  have "retained (fst (run_events cfg evs' ?st)) ?m (discovery_topic_of cfg h u)
      = Some (json_dumps (discovery_config cfg h u))"
    by (rule announcement_kept)
  then show ?thesis
    by (simp add: run_events_append run_events_Cons del: run_events.simps(2,3))
qed

section \<open>Nothing is removed\<close>

lemma gw_publish_payload: "gw_publish cfg (Publish t p r) \<Longrightarrow> p \<noteq> []"
  by (auto simp: gw_publish_def is_announcement_def simp del: upt_Suc)

lemma retained_dom:
  assumes "list_all (gw_publish cfg) (publishes es)"
  shows "dom m \<subseteq> dom (retained es m)"
  using assms
proof (induction es arbitrary: m)
  case Nil
  show ?case by simp
next
  case (Cons e es)
  then have "dom (retain e m) \<subseteq> dom (retained es (retain e m))"
    by (cases e) simp_all
  moreover from Cons.prems have "dom m \<subseteq> dom (retain e m)"
    by (cases e) (auto dest: gw_publish_payload)
  ultimately show ?case by simp
qed

section \<open>A further connection\<close>

text \<open>
  The announcer is a function of the configuration alone, so a connection that
  follows a connection leaves the store as it is.
\<close>

lemma reconnect_idempotent:
  "retained (on_connect cfg rc') (retained (on_connect cfg rc) m) = retained (on_connect cfg rc) m"
proof -
  have "retained (on_connect cfg rc') m' = retained (on_connect cfg rc) m'" for m'
    using retain_publishes [of "on_connect cfg rc'" m'] retain_publishes [of "on_connect cfg rc" m']
    by (simp add: publishes_on_connect)
  then show ?thesis by (simp add: retained_idem)
qed

section \<open>Properties of the descriptors\<close>

lemma example_houses:
  "CHR ''A'' \<in> set (discoveryhouses (demo_config\<lparr>discoveryhouses := ''A''\<rparr>))"
  "(1 :: nat) \<in> {1 ..< 17}"
  by simp_all

text \<open>
  C19. What is announced stays announced. From a connection on, the store holds
  the descriptor of every unit 1 to 16 of every configured house on its
  discovery topic, whatever it held before and whatever the two flows do
  afterwards: no state update is published on a discovery topic, whatever the
  configured prefixes are, and a later connection publishes the same
  descriptors. Moreover nothing is ever removed from the store: a topic that
  holds a message before a run holds one after it.
\<close>

theorem announcements_stay_retained:
  assumes "state_ok st" and "h \<in> set (discoveryhouses cfg)" and "u \<in> {1 ..< 17}"
  shows "retained (fst (run_events cfg (evs @ Client (ConnAck rc) # evs') st)) m
           (discovery_topic_of cfg h u)
         = Some (json_dumps (discovery_config cfg h u))
       \<and> dom m \<subseteq> dom (retained (fst (run_events cfg (evs @ Client (ConnAck rc) # evs') st)) m)"
  using announcements_stay [OF assms, of evs rc evs' m]
    retained_dom [OF run_events_publishes_ok [OF assms(1), of cfg "evs @ Client (ConnAck rc) # evs'"],
      of m]
  by simp

theorem announcements_stay_retained_witness:
  "state_ok init_state
   \<and> retained (fst (run_events (demo_config\<lparr>discoveryhouses := ''A''\<rparr>)
                  ([MonitorLine addr_A1] @ Client (ConnAck 0) # [MonitorLine func_On]) init_state))
         Map.empty (discovery_topic_of (demo_config\<lparr>discoveryhouses := ''A''\<rparr>) CHR ''A'' 1)
       = Some (json_dumps (discovery_config (demo_config\<lparr>discoveryhouses := ''A''\<rparr>) CHR ''A'' 1))"
  using announcements_stay_retained [OF state_ok_init example_houses,
      of "[MonitorLine addr_A1]" 0 "[MonitorLine func_On]" Map.empty]
  by simp

end
