(* ===== verification/Client_Thread.thy ===== *)
theory Client_Thread
  imports Mirror
begin

text \<open>
  The client's thread. \<^verbatim>\<open>src/x10mqtt.py\<close> creates the MQTT client with its
  defaults (line 244), registers the two callbacks (lines 245 and 246) and
  starts the client's loop in a thread of its own (line 267). The loop is code
  of the client library: it calls \<^verbatim>\<open>on_connect\<close> and \<^verbatim>\<open>on_message\<close> one after the
  other, and what it does when a callback raises is the library's \<open>policy\<close>:
  either the exception leaves the loop and ends the thread (\<open>Propagate\<close>, what
  the library does unless its \<^verbatim>\<open>suppress_exceptions\<close> is set), or it is logged and
  the loop goes on (\<open>Suppress\<close>). The script never sets \<^verbatim>\<open>suppress_exceptions\<close>.

  \<open>client_thread\<close> is the loop on the events of the client, \<open>run_threads\<close> the
  gateway with both threads, whose state is the pending address together with
  the exception that ended the client's thread, if any. The main thread is not
  affected by the end of the client's thread: it goes on reading lines. The
  theory shows which messages make a callback raise (\<open>fatal\<close>, stated on the
  message and on what heyu does, without reference to the callbacks), that the
  first of them is the end of all command handling under \<open>Propagate\<close>, that
  nothing else ends the client's thread, and that in every other run the two
  threads do what the transition system of theory \<open>Flows\<close> does.
\<close>

section \<open>Definitions\<close>

datatype policy = Propagate | Suppress

text \<open>The loop of the client's thread: one callback after the other, to the first exception that is not suppressed.\<close>

fun client_thread :: "policy \<Rightarrow> config \<Rightarrow> client_event list \<Rightarrow> unit outcome" where
  "client_thread pol cfg [] = ([], Inr ())"
| "client_thread pol cfg (e # es) =
     (case on_event cfg e of
        (effs, Inl err) \<Rightarrow>
          (case pol of
             Propagate \<Rightarrow> (effs, Inl err)
           | Suppress \<Rightarrow> (case client_thread pol cfg es of (effs', res) \<Rightarrow> (effs @ effs', res)))
      | (effs, Inr u) \<Rightarrow> (case client_thread pol cfg es of (effs', res) \<Rightarrow> (effs @ effs', res)))"

text \<open>
  Both threads: the pending address of the main thread, and the exception that
  ended the client's thread. An event of the client has no effect once its
  thread has ended.
\<close>

type_synonym threads = "gw_state \<times> py_error option"

fun run_threads :: "policy \<Rightarrow> config \<Rightarrow> gw_event list \<Rightarrow> threads \<Rightarrow> effect list \<times> threads" where
  "run_threads pol cfg [] s = ([], s)"
| "run_threads pol cfg (MonitorLine line # evs) (st, ended) =
     (case monitor_step cfg line st of
        (effs, st') \<Rightarrow>
          (case run_threads pol cfg evs (st', ended) of (effs', s') \<Rightarrow> (effs @ effs', s')))"
| "run_threads pol cfg (Client e # evs) (st, Some err) = run_threads pol cfg evs (st, Some err)"
| "run_threads pol cfg (Client e # evs) (st, None) =
     (case on_event cfg e of
        (effs, res) \<Rightarrow>
          (case run_threads pol cfg evs
                  (st, case (pol, res) of (Propagate, Inl err) \<Rightarrow> Some err | _ \<Rightarrow> None) of
             (effs', s') \<Rightarrow> (effs @ effs', s')))"

text \<open>
  Observations: the callback for an event raises; the events of the client that
  are served, and the events of a run that are handled.
\<close>

definition raises :: "config \<Rightarrow> client_event \<Rightarrow> bool" where
  "raises cfg e \<longleftrightarrow> isl (snd (on_event cfg e))"

text \<open>
  The events that are fatal to the client's thread when exceptions propagate: a
  message whose payload is not valid UTF-8 (line 205 raises), and a valid
  command for which heyu cannot be started (line 119 raises). A connection
  acknowledgement, a message that is not a valid command and a command for
  which heyu exits with any status are not.
\<close>

fun fatal :: "client_event \<Rightarrow> bool" where
  "fatal (ConnAck rc) = False"
| "fatal (Incoming msg res) =
     (case payload msg of
        Undecodable \<Rightarrow> True
      | Decoded body \<Rightarrow>
          res = SpawnFailed \<and> valid_command (command_of body) (hc_of_topic (topic msg)))"

fun served :: "policy \<Rightarrow> config \<Rightarrow> client_event list \<Rightarrow> client_event list" where
  "served pol cfg [] = []"
| "served pol cfg (e # es) =
     e # (if pol = Propagate \<and> raises cfg e then [] else served pol cfg es)"

fun handled :: "policy \<Rightarrow> config \<Rightarrow> gw_event list \<Rightarrow> gw_event list" where
  "handled pol cfg [] = []"
| "handled pol cfg (MonitorLine line # evs) = MonitorLine line # handled pol cfg evs"
| "handled pol cfg (Client e # evs) =
     Client e # (if pol = Propagate \<and> raises cfg e then map MonitorLine (lines_of evs)
                 else handled pol cfg evs)"

section \<open>Which callbacks raise\<close>

lemma raises_ConnAck [simp]: "\<not> raises cfg (ConnAck rc)"
  by (simp add: raises_def)

lemma raises_Incoming:
  "raises cfg (Incoming msg res) \<longleftrightarrow>
     payload msg = Undecodable
     \<or> (res = SpawnFailed
         \<and> (\<exists>body. payload msg = Decoded body
               \<and> valid_command (command_of body) (hc_of_topic (topic msg))))"
  using on_message_raises [of cfg res msg]
  by (cases "snd (on_message cfg res msg)") (auto simp: raises_def)

lemma raises_fatal: "raises cfg e \<longleftrightarrow> fatal e"
  by (cases e) (auto simp: raises_Incoming split: payload.splits)

lemma raises_fatal_list: "list_ex (raises cfg) ces \<longleftrightarrow> list_ex fatal ces"
  by (simp add: list_ex_iff raises_fatal)

lemma raises_error:
  "raises cfg e \<Longrightarrow> \<exists>effs err. on_event cfg e = (effs, Inl err)"
  by (cases "on_event cfg e"; cases "snd (on_event cfg e)") (auto simp: raises_def)

section \<open>The thread on its own\<close>

lemma client_thread_Cons:
  "client_thread pol cfg (e # es) =
     (if pol = Propagate \<and> raises cfg e then on_event cfg e
      else (fst (on_event cfg e) @ fst (client_thread pol cfg es), snd (client_thread pol cfg es)))"
  by (cases "on_event cfg e"; cases "snd (on_event cfg e)"; cases pol)
     (auto simp: raises_def split: prod.splits)

lemma client_thread_served:
  "fst (client_thread pol cfg ces) = client_effects cfg (served pol cfg ces)"
  by (induction ces) (simp_all add: client_thread_Cons client_effects_def del: client_thread.simps(2))

lemma served_id:
  "pol = Suppress \<or> \<not> list_ex (raises cfg) ces \<Longrightarrow> served pol cfg ces = ces"
  by (induction ces) auto

lemma client_thread_ok:
  "snd (client_thread pol cfg ces) = Inr () \<longleftrightarrow> pol = Suppress \<or> \<not> list_ex (raises cfg) ces"
proof (induction ces)
  case Nil
  show ?case by simp
next
  case (Cons e ces)
  then show ?case
    by (cases pol) (auto simp: client_thread_Cons dest: raises_error simp del: client_thread.simps(2))
qed

section \<open>The two threads\<close>

lemma run_threads_Line:
  "run_threads pol cfg (MonitorLine line # evs) (st, ended) =
     (fst (monitor_step cfg line st)
        @ fst (run_threads pol cfg evs (snd (monitor_step cfg line st), ended)),
      snd (run_threads pol cfg evs (snd (monitor_step cfg line st), ended)))"
  by (simp split: prod.splits)

lemma run_threads_Client:
  "run_threads pol cfg (Client e # evs) (st, None) =
     (fst (on_event cfg e)
        @ fst (run_threads pol cfg evs
                 (st, if pol = Propagate \<and> raises cfg e then Some (projl (snd (on_event cfg e))) else None)),
      snd (run_threads pol cfg evs
             (st, if pol = Propagate \<and> raises cfg e then Some (projl (snd (on_event cfg e))) else None)))"
  by (cases "on_event cfg e"; cases "snd (on_event cfg e)"; cases pol)
     (auto simp: raises_def split: prod.splits)

lemmas run_threads_unfold =
  run_threads.simps(1) run_threads_Line run_threads.simps(3) run_threads_Client

lemmas run_threads_del = run_threads.simps(2,4) run_events.simps(2,3) monitor_loop.simps(2)

text \<open>Once the client's thread has ended the gateway is the monitor loop.\<close>

lemma run_threads_ended:
  "run_threads pol cfg evs (st, Some err) =
     (fst (monitor_loop cfg (lines_of evs) st), snd (monitor_loop cfg (lines_of evs) st), Some err)"
proof (induction evs arbitrary: st)
  case Nil
  show ?case by simp
next
  case (Cons ev evs)
  then show ?case
    by (cases ev) (simp_all add: run_threads_unfold monitor_loop_Cons del: run_threads_del)
qed

lemma run_threads_append:
  "run_threads pol cfg (xs @ ys) s =
     (fst (run_threads pol cfg xs s) @ fst (run_threads pol cfg ys (snd (run_threads pol cfg xs s))),
      snd (run_threads pol cfg ys (snd (run_threads pol cfg xs s))))"
proof (induction xs arbitrary: s)
  case Nil
  show ?case by simp
next
  case (Cons ev xs)
  obtain st ended where s: "s = (st, ended)"
    by (cases s)
  with Cons show ?case
    by (cases ev; cases ended) (simp_all add: run_threads_unfold del: run_threads_del)
qed

lemma monitor_loop_run_events:
  "monitor_loop cfg lines st = run_events cfg (map MonitorLine lines) st"
  by (induction lines arbitrary: st) (simp_all split: prod.splits)

lemma lines_of_map [simp]: "lines_of (map MonitorLine lines) = lines"
  by (induction lines) simp_all

lemma client_of_map [simp]: "client_of (map MonitorLine lines) = []"
  by (induction lines) simp_all

lemma lines_of_handled [simp]: "lines_of (handled pol cfg evs) = lines_of evs"
  by (induction pol cfg evs rule: handled.induct) simp_all

lemma client_of_handled: "client_of (handled pol cfg evs) = served pol cfg (client_of evs)"
  by (induction pol cfg evs rule: handled.induct) simp_all

lemma handled_id:
  "pol = Suppress \<or> \<not> list_ex (raises cfg) (client_of evs) \<Longrightarrow> handled pol cfg evs = evs"
  by (induction pol cfg evs rule: handled.induct) auto

text \<open>A run of the two threads is a run of the transition system on the events that are handled.\<close>

lemma run_threads_handled:
  "fst (run_threads pol cfg evs (st, None)) = fst (run_events cfg (handled pol cfg evs) st)"
proof (induction evs arbitrary: st)
  case Nil
  show ?case by simp
next
  case (Cons ev evs)
  then show ?case
    by (cases ev)
       (simp_all add: run_threads_unfold run_events_Cons run_threads_ended monitor_loop_run_events
          del: run_threads_del)
qed

lemma run_threads_state:
  "fst (snd (run_threads pol cfg evs (st, ended))) = snd (monitor_loop cfg (lines_of evs) st)"
proof (induction evs arbitrary: st ended)
  case Nil
  show ?case by simp
next
  case (Cons ev evs)
  then show ?case
    by (cases ev; cases ended)
       (simp_all add: run_threads_unfold monitor_loop_Cons del: run_threads_del)
qed

lemma run_threads_end:
  "snd (snd (run_threads pol cfg evs (st, None)))
     = (case snd (client_thread pol cfg (client_of evs)) of Inl err \<Rightarrow> Some err | Inr u \<Rightarrow> None)"
proof (induction evs arbitrary: st)
  case Nil
  show ?case by simp
next
  case (Cons ev evs)
  then show ?case
    by (cases ev)
       (auto simp: run_threads_unfold run_threads_ended client_thread_Cons
          dest: raises_error simp del: run_threads_del client_thread.simps(2))
qed

lemma run_threads_shuffles:
  "fst (run_threads pol cfg evs (st, None))
     \<in> shuffles (fst (monitor_loop cfg (lines_of evs) st))
                (fst (client_thread pol cfg (client_of evs)))"
  using run_events_shuffles [of cfg "handled pol cfg evs" st]
  by (simp add: run_threads_handled client_thread_served client_of_handled)

lemma run_threads_reachable:
  "reachable cfg (fst (snd (run_threads pol cfg evs (init_state, None))),
                  fst (run_threads pol cfg evs (init_state, None)))"
  using reachable_run [of cfg "handled pol cfg evs"]
  by (simp add: run_threads_handled run_threads_state run_events_state)

lemma run_threads_flows:
  assumes "pol = Suppress \<or> \<not> list_ex (raises cfg) (client_of evs)"
  shows "run_threads pol cfg evs (st, None)
           = (fst (run_events cfg evs st), snd (run_events cfg evs st), None)"
proof -
  from assms have "snd (snd (run_threads pol cfg evs (st, None))) = None"
    by (simp add: run_threads_end client_thread_ok [THEN iffD2])
  with run_threads_handled [of pol cfg evs st] run_threads_state [of pol cfg evs st None]
  show ?thesis
    by (simp add: handled_id [OF assms] run_events_state prod_eq_iff)
qed

lemma run_threads_raise:
  assumes "raises cfg e"
  shows "run_threads Propagate cfg (Client e # evs) (st, None) =
           (fst (on_event cfg e) @ fst (monitor_loop cfg (lines_of evs) st),
            snd (monitor_loop cfg (lines_of evs) st), Some (projl (snd (on_event cfg e))))"
  using assms by (simp add: run_threads_unfold run_threads_ended del: run_threads_del)

section \<open>The devices' states and the end of the thread\<close>

text \<open>
  The table of the devices' states follows the state events of the events that
  are handled. A message whose callback raises reports no state, and after it
  the table follows the bus alone: commands that arrive later change nothing.
\<close>

lemma commanded_raises: "raises cfg e \<Longrightarrow> commanded e = []"
proof (cases e)
  case (ConnAck rc)
  then show ?thesis by simp
next
  case (Incoming msg res)
  assume "raises cfg e"
  with Incoming show ?thesis
    by (cases res) (auto simp: raises_Incoming)
qed

lemma state_events_lines:
  "state_events s (map MonitorLine lines) = snd (sm_run s (concat (map events_of_line lines)))"
  by (induction lines arbitrary: s) (simp_all add: sm_run_append split: prod.splits)

lemma run_threads_mirror:
  assumes "state_ok st"
  shows "device_table cfg (retained (fst (run_threads pol cfg evs (st, None))) m)
       = mirror (state_events (abs_state st) (handled pol cfg evs)) (device_table cfg m)"
  using retained_states_refine [OF assms, of cfg "handled pol cfg evs" m]
  by (simp add: run_threads_handled)

lemma commands_after_exception_lost:
  assumes "raises cfg e" and "state_ok st"
  shows "device_table cfg (retained (fst (run_threads Propagate cfg (Client e # evs) (st, None))) m)
       = mirror (snd (sm_run (abs_state st) (concat (map events_of_line (lines_of evs)))))
           (device_table cfg m)"
  using assms(1)
  by (simp add: run_threads_mirror [OF assms(2)] commanded_raises state_events_lines
      del: run_threads.simps)

section \<open>Properties of the client's thread\<close>

text \<open>
  C21. An exception in a callback is the end of all command handling. When,
  after events whose callbacks return, a message arrives whose payload is not
  valid UTF-8, or a valid command for which heyu cannot be started, the
  exception leaves \<^verbatim>\<open>on_message\<close> and, the client being created with its
  defaults, ends the client's thread. From then on the gateway does only what
  the monitor loop does: no later command reaches heyu and nothing is
  announced after a reconnection, while every line of the monitor is still
  handled.
\<close>

theorem exception_ends_command_handling:
  assumes "payload msg = Undecodable
           \<or> (res = SpawnFailed
               \<and> (\<exists>body. payload msg = Decoded body
                     \<and> valid_command (command_of body) (hc_of_topic (topic msg))))"
    and "\<not> list_ex (raises cfg) (client_of evs)"
  shows "run_threads Propagate cfg (evs @ Client (Incoming msg res) # evs') (st, None) =
           (fst (run_events cfg evs st) @ fst (on_message cfg res msg)
              @ fst (monitor_loop cfg (lines_of evs') (snd (run_events cfg evs st))),
            snd (monitor_loop cfg (lines_of evs') (snd (run_events cfg evs st))),
            Some (if payload msg = Undecodable then UnicodeDecodeError else OSError))"
proof -
  from assms(1) have "raises cfg (Incoming msg res)"
    by (simp add: raises_Incoming)
  from run_threads_raise [OF this] on_message_error [OF assms(1), of cfg] assms(2)
  show ?thesis
    by (simp add: run_threads_append run_threads_flows)
qed

theorem exception_ends_command_handling_witness:
  "publishes (fst (run_threads Propagate demo_config
       ([Client (ConnAck 0)]
        @ Client (Incoming \<lparr>topic = ''x10/cmd/A1'', payload = Undecodable\<rparr> (Exited 0))
        # [Client (Incoming (cmd_ON ''B2'') (Exited 0)), MonitorLine addr_A1, Client (ConnAck 0),
           MonitorLine func_On])
       (init_state, None)))
     = [Publish ''x10/stat/a1'' ''ON'' True]
   \<and> snd (snd (run_threads Propagate demo_config
       ([Client (ConnAck 0)]
        @ Client (Incoming \<lparr>topic = ''x10/cmd/A1'', payload = Undecodable\<rparr> (Exited 0))
        # [Client (Incoming (cmd_ON ''B2'') (Exited 0)), MonitorLine addr_A1, Client (ConnAck 0),
           MonitorLine func_On])
       (init_state, None)))
     = Some UnicodeDecodeError"
  using exception_ends_command_handling [of "\<lparr>topic = ''x10/cmd/A1'', payload = Undecodable\<rparr>"
      "Exited 0" demo_config "[Client (ConnAck 0)]"
      "[Client (Incoming (cmd_ON ''B2'') (Exited 0)), MonitorLine addr_A1, Client (ConnAck 0),
        MonitorLine func_On]" init_state]
  by (simp add: on_message_Undecodable monitor_loop_refines example_events publish_of_def
      publishes_on_connect demo_config_def abs_state_def init_state_def char_eval
      del: monitor_loop.simps run_threads.simps)

text \<open>
  C22. Nothing but an exception of line 205 or line 119 ends the client's
  thread. After any events the client's thread is alive exactly when
  exceptions are suppressed or no message so far had an undecodable payload or
  was a valid command for which heyu could not be started: a refused
  connection, a message that is not a valid command and a heyu that exits with
  an error do not end it. As long as no such message arrives the gateway with
  its two threads does exactly what the transition system of the two flows
  does, whatever the policy.
\<close>

theorem client_thread_ends_only_by_exception:
  "(snd (snd (run_threads pol cfg evs (st, None))) = None
      \<longleftrightarrow> \<not> (pol = Propagate \<and> list_ex fatal (client_of evs)))
   \<and> (\<not> list_ex fatal (client_of evs) \<longrightarrow>
        run_threads pol cfg evs (st, None)
          = (fst (run_events cfg evs st), snd (run_events cfg evs st), None))"
proof -
  have "snd (snd (run_threads pol cfg evs (st, None))) = None
      \<longleftrightarrow> pol = Suppress \<or> \<not> list_ex (raises cfg) (client_of evs)"
    using client_thread_ok [of pol cfg "client_of evs"]
    by (cases "snd (client_thread pol cfg (client_of evs))") (simp_all add: run_threads_end)
  then show ?thesis
    by (cases pol) (simp_all add: raises_fatal_list run_threads_flows)
qed

theorem client_thread_ends_only_by_exception_witness:
  "snd (snd (run_threads Propagate demo_config
       [Client (ConnAck 5),
        Client (Incoming \<lparr>topic = ''x10/cmd/A1'', payload = Decoded ''dim''\<rparr> SpawnFailed),
        MonitorLine addr_A1,
        Client (Incoming (cmd_ON ''B2'') (Exited 1))]
       (init_state, None))) = None
   \<and> run_threads Propagate demo_config
       [Client (ConnAck 5),
        Client (Incoming \<lparr>topic = ''x10/cmd/A1'', payload = Decoded ''dim''\<rparr> SpawnFailed),
        MonitorLine addr_A1,
        Client (Incoming (cmd_ON ''B2'') (Exited 1))]
       (init_state, None)
     = (fst (run_events demo_config
          [Client (ConnAck 5),
           Client (Incoming \<lparr>topic = ''x10/cmd/A1'', payload = Decoded ''dim''\<rparr> SpawnFailed),
           MonitorLine addr_A1,
           Client (Incoming (cmd_ON ''B2'') (Exited 1))] init_state),
        snd (run_events demo_config
          [Client (ConnAck 5),
           Client (Incoming \<lparr>topic = ''x10/cmd/A1'', payload = Decoded ''dim''\<rparr> SpawnFailed),
           MonitorLine addr_A1,
           Client (Incoming (cmd_ON ''B2'') (Exited 1))] init_state),
        None)"
proof -
  have "\<not> list_ex fatal (client_of
      [Client (ConnAck 5),
       Client (Incoming \<lparr>topic = ''x10/cmd/A1'', payload = Decoded ''dim''\<rparr> SpawnFailed),
       MonitorLine addr_A1,
       Client (Incoming (cmd_ON ''B2'') (Exited 1))])"
    by (simp add: cmd_ON_def valid_command_def command_of_def char_eval)
  with client_thread_ends_only_by_exception [of Propagate demo_config
      "[Client (ConnAck 5),
        Client (Incoming \<lparr>topic = ''x10/cmd/A1'', payload = Decoded ''dim''\<rparr> SpawnFailed),
        MonitorLine addr_A1,
        Client (Incoming (cmd_ON ''B2'') (Exited 1))]" init_state]
  show ?thesis by blast
qed

end
