(* ===== verification/Spec2Isabelle.thy ===== *)
theory Spec2Isabelle
  imports X10_Prelude Py_Regex Housecode Gateway Config Executor Router Monitor Discovery Startup
    Flows Recognition Generator Liveness Service Json_Payload Loopback Retained Mirror Descriptors
    Client_Thread
begin

text \<open>
  \<^bold>\<open>A verification development for the X10/MQTT gateway \<^verbatim>\<open>src/x10mqtt.py\<close>.\<close>

  \<^bold>\<open>The program.\<close> The script bridges an MQTT broker and an X10 power-line
  controller driven by the \<^verbatim>\<open>heyu\<close> command. It has two flows that share the MQTT
  client. The \<^emph>\<open>messaging flow\<close> runs in the client's thread: \<^verbatim>\<open>on_connect\<close>
  subscribes to the command topics and announces devices for discovery,
  \<^verbatim>\<open>on_message\<close> validates a command message and calls \<^verbatim>\<open>execute\<close>, which runs
  \<^verbatim>\<open>heyu\<close> and publishes the commanded state. The \<^emph>\<open>monitor flow\<close> runs in the main
  thread: it reads the lines of \<^verbatim>\<open>heyu monitor\<close>, recognises address lines and
  function lines with two regular expressions, pairs them through the global
  \<^verbatim>\<open>rcvihc\<close>, and publishes a state update for each pair.

  \<^bold>\<open>How the program is modelled.\<close> Every handler is a function from the
  configuration, the answer of the outside world and the mutable state to the
  list of effects the handler performs, in program order, and its result. The
  effects are the calls that reach the outside: \<open>Print\<close>, \<open>Publish\<close>, \<open>Subscribe\<close>,
  \<open>Run\<close> (\<^verbatim>\<open>subprocess.run\<close>), \<open>Popen\<close>, \<open>UsernamePwSet\<close>, \<open>Connect\<close> and \<open>LoopStart\<close>.
  Exceptions are values of \<open>py_error\<close>, and a handler that can raise returns
  an \<open>outcome\<close>, the effects performed so far with the value or the exception.
  The only mutable state is the record \<open>gw_state\<close> with the field \<open>rcvihc\<close>.

  \<^item> \<open>X10_Prelude\<close>: the string operations the script calls, \<open>py_upper\<close>,
    \<open>py_lower\<close>, \<open>py_split\<close>, \<open>str_int\<close>, with their algebra (idempotence, the
    split and join round trip, the last segment of a topic).
  \<^item> \<open>Py_Regex\<close>: the fragment of Python's \<^verbatim>\<open>re\<close> the three patterns use: syntax
    \<open>rx\<close>, the backtracking matcher \<open>run\<close> whose first result is the match Python
    reports, \<open>re_match\<close> and \<open>re_search\<close>, and the declarative relation \<open>matches\<close>
    with the proof that \<open>run\<close> computes exactly it.
  \<^item> \<open>Housecode\<close>: the grammar \<^verbatim>\<open>[A-P][0-9]+\<close> as the predicate \<open>is_housecode\<close>, and
    the general lemmas on matching and searching.
  \<^item> \<open>Gateway\<close>: the records \<open>config\<close> (the module globals of lines 28 to 101) and
    \<open>gw_state\<close> (line 52), effects, exceptions and outcomes.
  \<^item> \<open>Config\<close>: the reading of the environment, lines 28 to 101, as \<open>load_config\<close>
    on a partial map of variables, with Python's \<^verbatim>\<open>int\<close> on a string as \<open>py_int\<close>:
    the two fatal exits, the defaults, the filtering of the house letters.
  \<^item> \<open>Executor\<close>: \<open>heyucmd\<close>, \<open>heyu_argv\<close> and \<open>execute\<close> (lines 110 to 124), with
    the action table of the two controllers and the unconditional state update.
  \<^item> \<open>Router\<close>: \<open>hcpattern\<close> (line 214), \<open>valid_command\<close> (line 215) and
    \<open>on_message\<close> (lines 199 to 219): valid commands are dispatched exactly once,
    with the action of the controller in use, all others have no effect; the
    language of the pattern.
  \<^item> \<open>Monitor\<close>: \<open>rercviaddr\<close> and \<open>rercvifunc\<close> (lines 274 and 275), \<open>rcviaddr\<close>,
    \<open>rcvifunc\<close> (lines 155 to 174), the loop body \<open>monitor_step\<close> and the loop
    \<open>monitor_loop\<close> (lines 281 to 287), the generator \<^verbatim>\<open>monitor\<close> (lines 133 to 140)
    as \<open>monitor_main\<close> with its end \<open>monitor_end\<close>; the two-state machine of the
    specification \<open>sm_step\<close>, the abstraction \<open>abs_state\<close> and the refinement
    lemma; the invariant that the pending address is a house code; what is
    published and how often.
  \<^item> \<open>Recognition\<close>: the two patterns on lines of the shape heyu prints: a
    line with a keyword, \<^verbatim>\<open> addr unit\<close> and \<^verbatim>\<open>hu\<close> with a house code is an address
    event for that code, a line with a keyword, \<^verbatim>\<open> func\<close> and \<^verbatim>\<open>On :\<close> or \<^verbatim>\<open>Off :\<close>
    is a function event, derived from the greedy order of the matcher.
  \<^item> \<open>Discovery\<close>: \<open>ha_discovery_announce\<close> (lines 225 to 234) and \<open>on_connect\<close>
    (lines 180 to 193), with \<^verbatim>\<open>json.dumps\<close> and \<^verbatim>\<open>str\<close> on a dictionary of strings:
    16 retained announcements per configured house, on distinct topics, with
    printable payloads, whatever result code the broker reports.
  \<^item> \<open>Json_Payload\<close>: a reader \<open>json_loads\<close> for JSON objects of strings, defined
    by recursion on what is left of the text with its termination proof, and the
    round trip: the payload of an announcement reads back as the descriptor it
    was printed from.
  \<^item> \<open>Generator\<close>: the generator \<^verbatim>\<open>monitor\<close> (lines 133 to 140) call by call. The
    record \<open>heyu\<close> is what the script sees of the process: whether it starts,
    what the successive calls of \<^verbatim>\<open>readline\<close> return, as a stream in which the
    empty string is the end of the output, and its exit status. \<open>monitor_next\<close>
    is one call of \<^verbatim>\<open>next\<close> in each state of the generator object, \<open>main_loop\<close>
    the \<^verbatim>\<open>for\<close> loop of lines 281 to 287 over it, a partial function whose value
    \<open>None\<close> is the loop that does not end. The loop ends exactly when the
    output does, and then it is \<open>monitor_main\<close> on the lines before the end; the
    generator yields the lines in order.
  \<^item> \<open>Startup\<close>: the start-up sequence (lines 243 to 267) as \<open>startup\<close> and the
    main thread from the first line of the script to the last as \<open>gateway_main\<close>,
    for a monitor that has ended.
  \<^item> \<open>Service\<close>: the same main thread as \<open>gateway_run\<close> against a process that
    may never end: the gateway keeps running exactly when it is configured and
    connected and heyu keeps running, and on an output that ends \<open>gateway_run\<close>
    is \<open>gateway_main\<close>.
  \<^item> \<open>Flows\<close>: the two flows side by side. \<open>gw_step\<close> is the transition relation
    of the running gateway, one transition per handler call (a monitor line, a
    connection acknowledgement, a message), \<open>reachable\<close> its reachable states,
    \<open>run_events\<close> the same as a function; the invariants are proved by
    induction over \<open>reachable\<close>: the pending address is a house code, everything
    published is a state update or an announcement, and every process run for
    a command is heyu with an action of the controller and an accepted device
    (\<open>is_heyu_command\<close>). The traces of the two
    threads at the level of single calls are the \<open>shuffles\<close> of their effects.
    What the gateway does is bounded by what it receives: one invocation of
    heyu and one publish per message at most, sixteen announcements per house
    and connection, one state update per pair of an address and a function
    line.
  \<^item> \<open>Client_Thread\<close>: the loop of the client's thread that \<^verbatim>\<open>loop_start\<close> (line
    267) starts, with the library's two ways of treating an exception raised by
    a callback as the \<open>policy\<close>: \<open>client_thread\<close> is the thread on its own,
    \<open>run_threads\<close> the gateway with both threads, whose state records the
    exception that ended the client's thread. A callback raises for a payload
    that is not valid UTF-8 and for a valid command when heyu cannot be started
    (\<open>fatal\<close>, a predicate on the message and on what heyu does);
    when exceptions propagate, which is what a client created as on line 244
    does by default, the first of them ends all command handling while the
    monitor loop goes on, and nothing else ends the client's thread: not a
    refused connection, not a message that is no valid command, not a heyu that
    exits with an error. In every other run the threads do what \<open>run_events\<close>
    does, and every run of the threads ends in a state \<open>gw_step\<close> reaches.
  \<^item> \<open>Loopback\<close>: the subscription of line 187 as \<open>delivered\<close>, with the matching
    of topics against filters, and what the gateway does with its own messages
    when the broker delivers them back: nothing when the command and state
    prefixes differ, the same command again when they are equal. \<open>drain\<close> is the
    client's thread working off its inbox with that loopback; a command
    settles exactly when the prefixes differ. The topics the gateway publishes
    on are topic names, not empty and free of wildcards, exactly when the
    configured prefixes are free of wildcards (\<open>reachable_topics\<close>).
  \<^item> \<open>Liveness\<close>: progress of the monitor flow on a run without end, given as
    a stream of events of both threads: a pending address stays pending until
    the next function line and is answered there by exactly one state update,
    whatever the client's thread does in between.
  \<^item> \<open>Retained\<close>: the broker's store of retained messages after the publishes
    of an effect trace, \<open>retained\<close>, with the facts the next theory needs: the
    store depends, topic by topic, on the last message written to the topic,
    and interleaving two traces leaves for each topic what one of them leaves.
  \<^item> \<open>Mirror\<close>: the gateway as a mirror of the devices' states. The abstract
    specification is the table \<open>mirror\<close> from house codes to the command of their
    last state event, where the state events of a run (\<open>state_events\<close>) are those
    of the two-state machine for the monitor's lines and one for each valid
    command whose heyu process ran (\<open>commanded\<close>). The refinement has two
    levels: the state updates published in a run of \<open>run_events\<close> are exactly
    those of its state events, in order (\<open>state_updates_run\<close>), and the table
    \<open>device_table\<close> read off the broker's store after the run is the mirror of
    these events (\<open>retained_states_refine\<close>). Under finer interleavings the state
    of a device is the last one of one of the flows; a history of the bus
    reported line by line is mirrored event by event; announcements never fall
    on a state topic.
  \<^item> \<open>Descriptors\<close>: the descriptors in the broker's store: written at every
    connection, unchanged by whatever the two flows do afterwards, never
    removed.
  \<^item> This theory: the properties that span components: the two flows publish
    the same update for the same change, an announced device is controlled and
    observed on the topics of its descriptor and the state topic the descriptor
    names holds the device's last reported state, how a run of the gateway
    ends, and that the monitor starts only once the gateway is configured and
    connected.

  \<^bold>\<open>Bounds and assumptions.\<close>
  \<^item> Text is a list of 8-bit characters read as code points, and the case
    conversions change ASCII letters only. No character between 128 and 255
    upper-cases in Python to a letter or digit of the accepted commands and
    house codes, so on such text the model accepts exactly the messages the
    script accepts; the printed text agrees with the script on ASCII. Characters
    beyond 255 are not represented.
  \<^item> What the outside world answers is an argument: \<open>run_result\<close> for
    \<^verbatim>\<open>subprocess.run\<close> (an exit status, or the failure to start the process),
    \<open>payload\<close> for \<^verbatim>\<open>decode('utf-8')\<close> (the text, or the failure to decode),
    \<open>monitor_run\<close> for a \<^verbatim>\<open>heyu monitor\<close> that has ended (the lines it wrote and
    its exit status, or the failure to start it) and \<open>heyu\<close> for one that may not
    end, a truth value for \<^verbatim>\<open>client.connect\<close>, and the environment as a partial
    map.
  \<^item> The monitor's output is unbounded. \<open>monitor_loop\<close> runs on the finite list
    of lines read so far, by structural recursion, so it is total and needs no
    fuel; every statement about it holds for each finite prefix of the output.
    \<open>main_loop\<close> runs on the whole output, a stream, and is defined as a partial
    function with values in \<open>option\<close>: no fuel is chosen, \<open>None\<close> is the run that
    does not end, and that the loop returns is proved from the end of the
    output (\<open>main_loop_runs_until_output_ends\<close>), never assumed. \<open>main_loop_lines\<close>
    ties the two: after any lines that are not the end, \<open>main_loop\<close> has done what
    \<open>monitor_loop\<close> does for them. \<open>drain\<close> of theory \<open>Loopback\<close> is a partial
    function in the same way, and both that it returns and that it does not are
    theorems. The units of a house are the fixed range 1 to 16 of line 192.
  \<^item> A line \<^verbatim>\<open>readline\<close> returns before the end of the output is never empty
    (an empty line of heyu is a newline character), so the empty string in the
    stream of \<open>heyu\<close> stands for the end of the output and for nothing else.
  \<^item> \<^verbatim>\<open>publish\<close>, \<^verbatim>\<open>subscribe\<close>, \<^verbatim>\<open>username_pw_set\<close>, \<^verbatim>\<open>loop_start\<close> and \<^verbatim>\<open>print\<close> are
    taken to succeed; the broker session and heyu's own behaviour are outside
    the model. For \<^verbatim>\<open>publish\<close> the assumption needs prefixes without wildcards:
    then every topic handed to it is a topic name. Of the broker two rules are
    modelled, both from the MQTT
    specification: the one by which it selects the messages for a subscription
    (\<open>topic_matches\<close>) and the one by which it keeps retained messages
    (\<open>retain\<close>). The statements about the store assume that every publish of a
    trace reaches the broker, in the order of the trace; messages of other
    clients are the store \<open>m\<close> a run starts from, which is arbitrary.
  \<^item> The library functions (\<^verbatim>\<open>re\<close>, \<^verbatim>\<open>str\<close>, \<^verbatim>\<open>int\<close>, \<^verbatim>\<open>json.dumps\<close>) are modelled
    from their documented behaviour on the fragment the script uses, and were
    compared with the library on sample inputs.
  \<^item> Concurrency: the callbacks neither read nor write \<^verbatim>\<open>rcvihc\<close>, and the
    monitor loop touches nothing else, so the two threads share only the
    client. A transition of \<open>gw_step\<close> is a whole handler call; the statements
    over \<open>shuffles\<close> cover every finer interleaving of the calls the two threads
    make. \<open>gw_step\<close> allows a client event after a callback raised, whether or
    not the client library goes on dispatching then, so its reachable states
    include those of either behaviour; \<open>run_threads\<close> of theory \<open>Client_Thread\<close>
    is the gateway under each of the two behaviours, and \<open>run_threads_reachable\<close>
    shows that its states are reachable ones.
  \<^item> Of the client library one rule is modelled, from its documentation: the
    loop calls the callbacks one after the other, and an exception that leaves
    a callback is either raised again in the loop, which ends the thread, or
    logged and dropped, depending on the client's \<^verbatim>\<open>suppress_exceptions\<close>, which
    is off unless set and which the script never sets. The main thread is not
    affected by the end of the client's thread. The statements about
    \<open>run_threads\<close> are about the calls the script makes: whether a message
    published after the client's thread has ended still reaches the broker is
    not part of the model.

  \<^bold>\<open>Not modelled.\<close> The creation of the client object and the registration
  of the callbacks (lines 244 to 246) leave no trace of their own: the binding
  of events to callbacks is \<open>on_event\<close>, one whole call of a callback per event.
  The topic of a message is text: that reading \<^verbatim>\<open>message.topic\<close> (line 206)
  decodes the bytes of the topic and could itself raise is not modelled, a
  broker only passing on topics that are valid UTF-8. The functions of Python's
  library (\<^verbatim>\<open>str.upper\<close>, \<^verbatim>\<open>str.lower\<close>, \<^verbatim>\<open>str.split\<close>, \<^verbatim>\<open>str\<close>, \<^verbatim>\<open>int\<close>, \<^verbatim>\<open>re\<close>, \<^verbatim>\<open>json.dumps\<close>)
  are not code of the repository either: the definitions that stand for them
  follow the library's documented behaviour, and the lines named for them are
  the lines of the script that call them. Of the pipe to \<^verbatim>\<open>heyu monitor\<close> only the
  results of \<^verbatim>\<open>readline\<close> are modelled, not the time a read blocks, and an
  invocation of heyu either returns or fails to start: one that never returns,
  which would block the client's thread for good, is not a case of
  \<open>run_result\<close>. Of the MQTT client library only the dispatch of the callbacks
  and the fate of their exceptions are modelled (theory \<open>Client_Thread\<close>); its
  network side, with the reconnects, the keep-alive, the queueing of messages
  while the connection is down and the checks it makes on the topics it is
  given, and what heyu does on the bus with the commands it is given, are
  outside the model: they are not code of this repository, and which of their
  versions the script runs against is not fixed by it. Every line of
  \<^verbatim>\<open>src/x10mqtt.py\<close> that is not a comment, an import or blank is covered by a
  definition.
\<close>

section \<open>Properties that span components\<close>

text \<open>
  The three patterns of the model are the three patterns of the source:
  printed in Python's syntax they are the string literals of lines 214, 274
  and 275.
\<close>

lemma pattern_texts:
  "rx_text hcpattern = ''^[A-P][0-9]+$''
   \<and> rx_text rercviaddr = ''(?:rcvi|rcvt|sndc|snds|sndm|sndt) addr unit.+hu ([A-P][0-9]+)''
   \<and> rx_text rercvifunc = ''(?:rcvi|rcvt|sndc|snds|sndm|sndt) func.*(On|Off) :''"
  by (simp add: rx_text_hcpattern rx_text_rercviaddr rx_text_rercvifunc)

text \<open>
  The two flows agree on how a device state is reported: a command for a
  device received over MQTT and the same change observed on the bus publish the
  same message. If an address line and a function line carry the house code h
  and the command c, then the messages published for them are those published
  for an MQTT command c on a topic that ends in h.
\<close>

lemma flows_publish_the_same_update:
  assumes "events_of_line a = [AddressLine h]" and "events_of_line f = [FunctionLine c]"
  shows "publishes (fst (monitor_loop cfg [a, f] st))
       = publishes (fst (on_message cfg (Exited rc)
                      \<lparr>topic = cmdtopic cfg @ ''/'' @ h, payload = Decoded (command_name c)\<rparr>))"
proof -
  from assms(1) have h: "is_housecode h"
    using events_of_line_address [of h a] by simp
  then have slash: "CHR ''/'' \<notin> set h"
    by (rule is_housecode_no_slash)
  have c: "py_upper (command_name c) = command_name c"
    by (cases c) (simp_all add: char_eval)
  from h slash have hc: "hc_of_topic (cmdtopic cfg @ CHR ''/'' # h) = h"
    by (simp add: hc_of_topic_append)
  from h have "valid_command (command_name c) h"
    by (cases c) (simp_all add: valid_command_housecode)
  with hc c have "publishes (fst (on_message cfg (Exited rc)
      \<lparr>topic = cmdtopic cfg @ ''/'' @ h, payload = Decoded (command_name c)\<rparr>))
    = [Publish (stattopic cfg @ ''/'' @ py_lower h) (command_name c) True]"
    by (simp add: on_message_valid command_of_def stat_topic_of_def)
  moreover from assms monitor_loop_refines [of cfg "[a, f]" st]
  have "publishes (fst (monitor_loop cfg [a, f] st))
    = [Publish (stattopic cfg @ ''/'' @ py_lower h) (command_name c) True]"
    by (simp add: publish_of_def)
  ultimately show ?thesis by simp
qed

text \<open>
  C29. An announced device can be controlled and observed on the topics its
  descriptor names. For a house letter and any unit, a command ON or OFF sent to
  the descriptor's command topic runs heyu once for that device and publishes
  the commanded state on the descriptor's state topic; and a state change of
  that device seen on the bus is published on the same state topic.
\<close>

theorem announced_device_is_controllable:
  assumes "accepts house_letter house"
    and "map_of (discovery_config cfg house unit) ''command_topic'' = Some ct"
    and "map_of (discovery_config cfg house unit) ''state_topic'' = Some stt"
  shows "publishes (fst (on_message cfg (Exited rc) \<lparr>topic = ct, payload = Decoded (command_name c)\<rparr>))
           = [Publish stt (command_name c) True]
       \<and> runs (fst (on_message cfg (Exited rc) \<lparr>topic = ct, payload = Decoded (command_name c)\<rparr>))
           = [Run [''heyu'', py_lower (heyucmd (cm17 cfg) (command_name c)), unit_code house unit]]
       \<and> publish_of cfg (py_upper (unit_code house unit), c) = Publish stt (command_name c) True"
proof -
  let ?seg = "unit_code house unit"
  let ?msg = "\<lparr>topic = cmdtopic cfg @ CHR ''/'' # ?seg, payload = Decoded (command_name c)\<rparr>"
  from assms(2,3) have ct: "ct = cmdtopic cfg @ ''/'' @ ?seg"
    and stt: "stt = stattopic cfg @ ''/'' @ ?seg"
    by (simp_all add: descriptor_topics)
  have c: "py_upper (command_name c) = command_name c"
    by (cases c) (simp_all add: char_eval)
  from assms(1) have hc: "hc_of_topic (topic ?msg) = py_upper ?seg"
    by (simp add: hc_of_topic_append unit_code_no_slash)
  from assms(1) have "valid_command (command_of (command_name c)) (hc_of_topic (topic ?msg))"
    unfolding hc command_of_def c
    by (cases c) (simp_all add: valid_command_housecode unit_code_housecode)
  then show ?thesis
    using hc c
    by (simp add: ct stt on_message_valid command_of_def heyu_argv_def stat_topic_of_def publish_of_def)
qed

theorem announced_device_is_controllable_witness:
  "publishes (fst (on_message demo_config (Exited 0)
       \<lparr>topic = ''x10/cmd/a1'', payload = Decoded (command_name ON)\<rparr>))
     = [Publish ''x10/stat/a1'' (command_name ON) True]
   \<and> runs (fst (on_message demo_config (Exited 0)
       \<lparr>topic = ''x10/cmd/a1'', payload = Decoded (command_name ON)\<rparr>))
     = [Run [''heyu'', ''on'', ''a1'']]
   \<and> publish_of demo_config (''A1'', ON) = Publish ''x10/stat/a1'' (command_name ON) True"
  using announced_device_is_controllable [of "CHR ''A''" demo_config 1 "''x10/cmd/a1''"
      "''x10/stat/a1''" 0 ON]
  by (simp add: discovery_config_def unit_code_def demo_config_def house_letter_def str_nat.simps
      char_eval)

text \<open>
  C30. A consumer that reads the state topic named in the descriptor of an
  announced device reads the last state the gateway reported for that device.
  For a house letter and any unit, after any run of the two flows, the
  message the broker keeps on the descriptor's state topic is the command of
  the last state event of the run for the unit's house code, commanded over
  MQTT or seen on the bus, whichever call came last; if the run has no such
  event it is what the topic held before.
\<close>

theorem announced_state_is_mirrored:
  assumes "accepts house_letter house"
    and "map_of (discovery_config cfg house unit) ''state_topic'' = Some stt"
    and "state_ok st"
  shows "Option.bind (retained (fst (run_events cfg evs st)) m stt) command_named
       = mirror (state_events (abs_state st) evs) (device_table cfg m) (py_upper (unit_code house unit))"
proof -
  let ?hc = "py_upper (unit_code house unit)"
  from assms(1) have "re_match hcpattern ?hc \<noteq> None"
    by (intro hcpattern_housecode unit_code_housecode)
  moreover from assms(2) have "stat_topic_of cfg ?hc = stt"
    by (simp add: descriptor_topics stat_topic_of_def)
  ultimately have "device_table cfg (retained (fst (run_events cfg evs st)) m) ?hc
      = Option.bind (retained (fst (run_events cfg evs st)) m stt) command_named"
    by (simp add: device_table_def del: not_None_eq)
  with retained_states_refine [OF assms(3), of cfg evs m] show ?thesis
    by simp
qed

theorem announced_state_is_mirrored_witness:
  "accepts house_letter CHR ''A'' \<and> state_ok init_state
   \<and> Option.bind (retained (fst (run_events demo_config example_run init_state)) Map.empty
                    ''x10/stat/a1'') command_named
       = Some OFF"
  using announced_state_is_mirrored [of "CHR ''A''" demo_config 1 "''x10/stat/a1''" init_state
      example_run Map.empty]
  by (simp add: example_run_events set_state_def discovery_config_def unit_code_def demo_config_def
      house_letter_def str_nat.simps char_eval)

text \<open>
  C31. How a run of the gateway ends. The main thread ends without an error
  only if the configuration is complete, the connection succeeds and
  \<^verbatim>\<open>heyu monitor\<close> was started and exited with status 0. It ends with exit status 1
  exactly when the host or a valid port is missing or the connection fails,
  and otherwise with the error of the monitor.
\<close>

theorem gateway_main_ends:
  "snd (gateway_main env connected mon) =
     (if connected \<and> env ''MQTT_HOST'' \<noteq> None \<and> Option.bind (env ''MQTT_PORT'') py_int \<noteq> None
      then (case mon of
              MonitorNotStarted \<Rightarrow> Inl OSError
            | Monitored lines rc \<Rightarrow>
                if rc \<noteq> 0 then Inl (NameError ''cmd'')
                else Inr (snd (monitor_loop (projr (snd (load_config env))) lines init_state)))
      else Inl (SystemExit 1))"
proof (cases "load_config env")
  case (Pair effs res)
  show ?thesis
  proof (cases res)
    case (Inl err)
    with Pair have "err = SystemExit 1"
      and "env ''MQTT_HOST'' = None \<or> Option.bind (env ''MQTT_PORT'') py_int = None"
      by (auto simp: load_config_def split: option.splits)
    with Pair Inl show ?thesis
      by (auto simp: gateway_main_no_config)
  next
    case (Inr cfg)
    with Pair load_config_result [of env]
    have ok: "env ''MQTT_HOST'' \<noteq> None \<and> Option.bind (env ''MQTT_PORT'') py_int \<noteq> None"
      by auto
    from Pair Inr show ?thesis
      using ok
      by (cases connected; cases mon)
         (simp_all add: gateway_main_cases monitor_main_Monitored monitor_main_NotStarted)
  qed
qed

text \<open>
  The bus monitor is started only by a gateway that is configured and
  connected: \<^verbatim>\<open>heyu monitor\<close> is spawned exactly when the configuration was read
  and the connection succeeded, and what the main thread publishes is what the
  monitor loop publishes for the lines read, nothing else.
\<close>

lemma monitor_starts_after_connection:
  "(Popen argv \<in> set (fst (gateway_main env connected mon))
      \<longleftrightarrow> argv = [''heyu'', ''monitor''] \<and> connected
          \<and> env ''MQTT_HOST'' \<noteq> None \<and> Option.bind (env ''MQTT_PORT'') py_int \<noteq> None)
   \<and> publishes (fst (gateway_main env connected mon))
       = (if connected \<and> env ''MQTT_HOST'' \<noteq> None \<and> Option.bind (env ''MQTT_PORT'') py_int \<noteq> None
          then (case mon of
                  MonitorNotStarted \<Rightarrow> []
                | Monitored lines rc \<Rightarrow>
                    publishes (fst (monitor_loop (projr (snd (load_config env))) lines init_state)))
          else [])"
proof (cases "load_config env")
  case (Pair effs res)
  note popen = Popen_notin_load_config [of argv env]
  show ?thesis
  proof (cases res)
    case (Inl err)
    with Pair load_config_result [of env] popen show ?thesis
      by (auto simp: gateway_main_no_config load_config_def split: option.splits)
  next
    case (Inr cfg)
    with Pair load_config_result [of env] popen show ?thesis
      by (cases connected; cases mon)
         (auto simp: gateway_main_cases Popen_in_monitor_main monitor_main_Monitored
            monitor_main_NotStarted load_config_def split: option.splits)
  qed
qed

end
